(* ===== verification/Prelude.thy ===== *)
theory Prelude
  imports Main "HOL-Library.Word"
begin

text \<open>
  Shared vocabulary of the development: Go's 64-bit integer and duration arithmetic, decimal
  printing and parsing (\<^verbatim>\<open>fmt %d\<close>, \<^verbatim>\<open>strconv.Atoi\<close>), the few string functions of the Go
  library that the sources call, and generic facts on lists.  The named collections
  \<open>go_int\<close>, \<open>go_str\<close> hold the facts that later theories add to the simplifier together.
\<close>

named_theorems go_int \<open>facts about 64-bit wrap-around\<close>
named_theorems go_str \<open>facts about Go string functions\<close>

subsection \<open>Go's int (64 bits, two's complement)\<close>

definition int64_min :: int where "int64_min = - (2 ^ 63)"
definition int64_max :: int where "int64_max = 2 ^ 63 - 1"

definition in_int64 :: "int \<Rightarrow> bool" where
  "in_int64 n \<longleftrightarrow> int64_min \<le> n \<and> n \<le> int64_max"

definition wrap64 :: "int \<Rightarrow> int" where
  "wrap64 n = sint (word_of_int n :: 64 word)"

lemma wrap64_eq: "wrap64 n = (n + 2 ^ 63) mod 2 ^ 64 - 2 ^ 63"
proof -
  have "wrap64 n = signed_take_bit 63 n"
    by (simp add: wrap64_def signed_of_int)
  then show ?thesis
    by (simp add: signed_take_bit_eq_take_bit_shift take_bit_eq_mod)
qed

lemma wrap64_range [go_int]: "in_int64 (wrap64 n)"
proof -
  have "0 \<le> (n + 2 ^ 63) mod 2 ^ 64" and "(n + 2 ^ 63) mod 2 ^ 64 < 2 ^ 64"
    by (simp_all add: pos_mod_bound)
  then show ?thesis
    by (simp add: in_int64_def int64_min_def int64_max_def wrap64_eq)
qed

lemma wrap64_id [go_int]: "in_int64 n \<Longrightarrow> wrap64 n = n"
  by (simp add: in_int64_def int64_min_def int64_max_def wrap64_eq)

subsection \<open>Decimal printing and parsing\<close>

definition digit_char :: "nat \<Rightarrow> char" where
  "digit_char d = char_of (48 + d)"

definition digit_val :: "char \<Rightarrow> nat option" where
  "digit_val c = (if 48 \<le> (of_char c :: nat) \<and> of_char c \<le> (57 :: nat)
     then Some (of_char c - 48) else None)"

fun nat_digits :: "nat \<Rightarrow> string" where
  "nat_digits n = (if n < 10 then [digit_char n]
     else nat_digits (n div 10) @ [digit_char (n mod 10)])"

declare nat_digits.simps [simp del]

definition itoa :: "int \<Rightarrow> string" where
  "itoa i = (if i < 0 then CHR ''-'' # nat_digits (nat (- i)) else nat_digits (nat i))"

datatype num_err = ErrSyntax | ErrRange

definition uint64_max :: nat where "uint64_max = 2 ^ 64 - 1"

text \<open>\<^verbatim>\<open>strconv.ParseUint(s, 10, 64)\<close> on the remaining characters: the overflow test is made
  after every digit, so it wins over a later non-digit.\<close>

fun scan_uint :: "nat \<Rightarrow> string \<Rightarrow> num_err + nat" where
  "scan_uint acc [] = Inr acc"
| "scan_uint acc (c # cs) =
     (case digit_val c of
        None \<Rightarrow> Inl ErrSyntax
      | Some d \<Rightarrow> if uint64_max < 10 * acc + d then Inl ErrRange
                  else scan_uint (10 * acc + d) cs)"

definition parse_uint :: "string \<Rightarrow> num_err + nat" where
  "parse_uint s = (if s = [] then Inl ErrSyntax else scan_uint 0 s)"

definition signed_of :: "bool \<Rightarrow> num_err + nat \<Rightarrow> num_err + int" where
  "signed_of neg r = (case r of
      Inl e \<Rightarrow> Inl e
    | Inr un \<Rightarrow>
        if \<not> neg \<and> 2 ^ 63 \<le> un then Inl ErrRange
        else if neg \<and> 2 ^ 63 < un then Inl ErrRange
        else Inr (if neg then - int un else int un))"

definition atoi :: "string \<Rightarrow> num_err + int" where
  "atoi s = (case s of
      [] \<Rightarrow> Inl ErrSyntax
    | c # cs \<Rightarrow>
        if c = CHR ''+'' then signed_of False (parse_uint cs)
        else if c = CHR ''-'' then signed_of True (parse_uint cs)
        else signed_of False (parse_uint s))"

lemma of_char_digit: "d < 10 \<Longrightarrow> (of_char (digit_char d) :: nat) = 48 + d"
  by (simp add: digit_char_def)

lemma digit_val_char [simp]: "d < 10 \<Longrightarrow> digit_val (digit_char d) = Some d"
  by (simp add: digit_val_def of_char_digit)

lemma digit_val_less: "digit_val c = Some d \<Longrightarrow> d < 10"
  by (auto simp: digit_val_def split: if_splits)

lemma digit_char_neq: "d < 10 \<Longrightarrow> digit_val c = None \<Longrightarrow> digit_char d \<noteq> c"
  by (metis digit_val_char option.distinct(1))

lemma digit_val_sign [simp]: "digit_val CHR ''-'' = None" "digit_val CHR ''+'' = None"
  by (simp_all add: digit_val_def)

lemma nat_digits_neq_Nil [simp]: "nat_digits n \<noteq> []"
  by (subst nat_digits.simps) simp

lemma nat_digits_all: "c \<in> set (nat_digits n) \<Longrightarrow> \<exists>d<10. c = digit_char d"
proof (induction n rule: nat_digits.induct)
  case (1 n)
  show ?case
  proof (cases "n < 10")
    case True
    then show ?thesis using "1.prems" by (subst (asm) nat_digits.simps) auto
  next
    case False
    with "1.prems" have "c \<in> set (nat_digits (n div 10)) \<or> c = digit_char (n mod 10)"
      by (subst (asm) nat_digits.simps) auto
    then show ?thesis
    proof
      assume "c \<in> set (nat_digits (n div 10))"
      with False show ?thesis by (rule "1.IH")
    next
      assume "c = digit_char (n mod 10)"
      moreover have "n mod 10 < 10" by simp
      ultimately show ?thesis by blast
    qed
  qed
qed

lemma nat_digits_not_sign:
  assumes "digit_val c = None" shows "c \<notin> set (nat_digits n)"
  using assms nat_digits_all [of c n] by fastforce

lemma scan_uint_append:
  "scan_uint acc (xs @ ys) = (case scan_uint acc xs of Inl e \<Rightarrow> Inl e | Inr a \<Rightarrow> scan_uint a ys)"
  by (induction acc xs rule: scan_uint.induct) (auto split: option.splits)

lemma scan_nat_digits:
  "scan_uint 0 (nat_digits n) = (if n \<le> uint64_max then Inr n else Inl ErrRange)"
proof (induction n rule: nat_digits.induct)
  case (1 n)
  show ?case
  proof (cases "n < 10")
    case True
    then have "n \<le> uint64_max" by (simp add: uint64_max_def)
    with True show ?thesis by (subst nat_digits.simps) simp
  next
    case False
    have n: "10 * (n div 10) + n mod 10 = n" by simp
    show ?thesis
    proof (cases "n div 10 \<le> uint64_max")
      case True
      with False "1.IH" show ?thesis
        by (subst nat_digits.simps) (auto simp: scan_uint_append n)
    next
      case small: False
      then have "\<not> n \<le> uint64_max" by (meson div_le_dividend le_trans)
      with False small "1.IH" show ?thesis
        by (subst nat_digits.simps) (simp add: scan_uint_append)
    qed
  qed
qed

lemma atoi_itoa: "atoi (itoa n) = (if in_int64 n then Inr n else Inl ErrRange)"
proof (cases "n < 0")
  case True
  then show ?thesis
    by (auto simp: itoa_def atoi_def parse_uint_def scan_nat_digits signed_of_def in_int64_def
        int64_min_def int64_max_def uint64_max_def)
next
  case False
  obtain c cs where nd: "nat_digits (nat n) = c # cs"
    by (cases "nat_digits (nat n)") auto
  then have "c \<noteq> CHR ''-''" "c \<noteq> CHR ''+''"
    using nat_digits_not_sign [of "CHR ''-''" "nat n"] nat_digits_not_sign [of "CHR ''+''" "nat n"]
    by auto
  with False nd have "atoi (itoa n) = signed_of False (parse_uint (nat_digits (nat n)))"
    by (simp add: itoa_def atoi_def)
  then show ?thesis
    using False by (auto simp: parse_uint_def scan_nat_digits signed_of_def in_int64_def
        int64_min_def int64_max_def uint64_max_def)
qed

lemma atoi_range: "atoi s = Inr n \<Longrightarrow> in_int64 n"
  by (auto simp: atoi_def signed_of_def in_int64_def int64_min_def int64_max_def
      split: list.splits if_splits sum.splits)

lemma nat_digits_hd: "0 < n \<Longrightarrow> hd (nat_digits n) \<noteq> CHR ''0''"
proof (induction n rule: nat_digits.induct)
  case (1 n)
  show ?case
  proof (cases "n < 10")
    case True
    have "digit_char n \<noteq> CHR ''0''"
    proof
      assume "digit_char n = CHR ''0''"
      then have "(of_char (digit_char n) :: nat) = of_char CHR ''0''" by simp
      with True "1.prems" show False by (simp add: of_char_digit)
    qed
    with True show ?thesis by (subst nat_digits.simps) simp
  next
    case False
    then have "hd (nat_digits (n div 10)) \<noteq> CHR ''0''" by (intro "1.IH") simp_all
    with False show ?thesis by (subst nat_digits.simps) simp
  qed
qed

subsection \<open>Go's string functions (on ASCII bytes)\<close>

definition is_space :: "char \<Rightarrow> bool" where
  "is_space c \<longleftrightarrow> c \<in> {CHR 0x09, CHR 0x0A, CHR 0x0B, CHR 0x0C, CHR 0x0D, CHR '' ''}"

definition trim_space :: "string \<Rightarrow> string" where
  "trim_space s = rev (dropWhile is_space (rev (dropWhile is_space s)))"

definition to_lower_char :: "char \<Rightarrow> char" where
  "to_lower_char c = (if 65 \<le> (of_char c :: nat) \<and> of_char c \<le> (90 :: nat)
     then char_of (of_char c + 32 :: nat) else c)"

definition to_lower :: "string \<Rightarrow> string" where
  "to_lower s = map to_lower_char s"

definition has_prefix :: "string \<Rightarrow> string \<Rightarrow> bool" where
  "has_prefix s p \<longleftrightarrow> take (length p) s = p"

fun contains :: "string \<Rightarrow> string \<Rightarrow> bool" where
  "contains [] p \<longleftrightarrow> p = []"
| "contains (c # cs) p \<longleftrightarrow> has_prefix (c # cs) p \<or> contains cs p"

text \<open>\<^verbatim>\<open>strings.SplitN(s, sep, 2)\<close>: the text before the first separator and the rest, or the
  whole string when there is none.\<close>

fun split_first :: "string \<Rightarrow> string \<Rightarrow> string \<Rightarrow> string list" where
  "split_first acc sep [] = [rev acc]"
| "split_first acc sep (c # cs) =
     (if has_prefix (c # cs) sep then [rev acc, drop (length sep) (c # cs)]
      else split_first (c # acc) sep cs)"

definition split_n2 :: "string \<Rightarrow> string \<Rightarrow> string list" where
  "split_n2 s sep = split_first [] sep s"

lemma has_prefix_append [go_str, simp]: "has_prefix (p @ s) p"
  by (simp add: has_prefix_def)

lemma contains_append [go_str]: "contains t p \<Longrightarrow> contains (s @ t) p"
  by (induction s) auto

lemma contains_prefix [go_str]: "contains (p @ t) p"
proof (cases "p @ t")
  case Nil
  then show ?thesis by simp
next
  case (Cons c cs)
  then show ?thesis by (metis contains.simps(2) has_prefix_append)
qed

lemma dropWhile_hd: "xs = [] \<or> \<not> P (hd xs) \<Longrightarrow> dropWhile P xs = xs"
  by (cases xs) auto

lemma trim_space_id [go_str]:
  assumes "s = [] \<or> (\<not> is_space (hd s) \<and> \<not> is_space (last s))"
  shows "trim_space s = s"
proof -
  have "dropWhile is_space s = s"
    by (rule dropWhile_hd) (use assms in blast)
  moreover have "dropWhile is_space (rev s) = rev s"
    by (rule dropWhile_hd) (use assms in \<open>auto simp: hd_rev\<close>)
  ultimately show ?thesis by (simp add: trim_space_def)
qed

lemma is_space_code: "is_space c \<longleftrightarrow> (of_char c :: nat) \<in> {9, 10, 11, 12, 13, 32}"
proof -
  have "is_space c \<longleftrightarrow> (of_char c :: nat) \<in> {of_char CHR 0x09, of_char CHR 0x0A, of_char CHR 0x0B,
      of_char CHR 0x0C, of_char CHR 0x0D, of_char CHR '' ''}"
    unfolding is_space_def insert_iff of_char_eq_iff by simp
  then show ?thesis by simp
qed

lemma of_char_lower:
  "(of_char (to_lower_char c) :: nat) =
     (if 65 \<le> (of_char c :: nat) \<and> of_char c \<le> (90 :: nat) then of_char c + 32 else of_char c)"
  by (simp add: to_lower_char_def)

lemma is_space_lower [simp]: "is_space (to_lower_char c) = is_space c"
  by (simp add: is_space_code of_char_lower)

lemma to_lower_char_idem [simp]: "to_lower_char (to_lower_char c) = to_lower_char c"
proof -
  have "\<not> (65 \<le> (of_char (to_lower_char c) :: nat) \<and> of_char (to_lower_char c) \<le> (90 :: nat))"
    by (auto simp: of_char_lower)
  then show ?thesis
    unfolding to_lower_char_def [of "to_lower_char c"] by (rule if_not_P)
qed

lemma to_lower_idem [go_str, simp]: "to_lower (to_lower s) = to_lower s"
  by (simp add: to_lower_def)

lemma dropWhile_space_lower: "dropWhile is_space (map to_lower_char s) = map to_lower_char (dropWhile is_space s)"
  by (induction s) auto

lemma trim_to_lower [go_str]: "trim_space (to_lower s) = to_lower (trim_space s)"
  by (simp add: trim_space_def to_lower_def dropWhile_space_lower rev_map)

lemma trim_space_idem [go_str, simp]: "trim_space (trim_space s) = trim_space s"
proof (rule trim_space_id)
  let ?d = "dropWhile is_space s"
  have front: "?d = [] \<or> \<not> is_space (hd ?d)"
    using hd_dropWhile [of is_space s] by blast
  have t: "trim_space s = rev (dropWhile is_space (rev ?d))" by (simp add: trim_space_def)
  have "trim_space s = [] \<or> \<not> is_space (last (trim_space s))"
    using hd_dropWhile [of is_space "rev ?d"] by (auto simp: t last_rev)
  moreover have "trim_space s = [] \<or> hd (trim_space s) = hd ?d"
  proof -
    obtain zs where "rev ?d = zs @ dropWhile is_space (rev ?d)"
      by (metis takeWhile_dropWhile_id)
    then have "?d = trim_space s @ rev zs" by (metis rev_append rev_rev_ident t)
    then show ?thesis by (metis hd_append2)
  qed
  ultimately show "trim_space s = [] \<or> \<not> is_space (hd (trim_space s)) \<and> \<not> is_space (last (trim_space s))"
    using front by (metis t dropWhile.simps(1) rev.simps(1))
qed

subsection \<open>The last entries of a list\<close>

definition lastn :: "nat \<Rightarrow> 'a list \<Rightarrow> 'a list" where
  "lastn k xs = drop (length xs - k) xs"

lemma length_lastn [simp]: "length (lastn k xs) = min k (length xs)"
  by (auto simp: lastn_def)

lemma lastn_Nil [simp]: "lastn k [] = []"
  by (simp add: lastn_def)

lemma lastn_short: "length xs \<le> k \<Longrightarrow> lastn k xs = xs"
  by (simp add: lastn_def)

lemma lastn_snoc_lastn: "lastn k (lastn k xs @ [x]) = lastn k (xs @ [x])"
  by (cases "k \<le> length xs") (auto simp: lastn_def Suc_diff_le)

lemma lastn_lastn [simp]: "lastn k (lastn k xs @ ys) = lastn k (xs @ ys)"
proof (induction ys rule: rev_induct)
  case (snoc y ys)
  then show ?case
    by (metis append.assoc lastn_snoc_lastn)
qed (simp add: lastn_def)

lemma set_lastn: "set (lastn k xs) \<subseteq> set xs"
  by (simp add: lastn_def set_drop_subset)

lemma lastn_full: "length xs = Suc k \<Longrightarrow> lastn k xs = tl xs"
  by (simp add: lastn_def drop_Suc)

end
