(* ===== verification/FlexInt.thy ===== *)
theory FlexInt
  imports Prelude
begin

text \<open>
  \<^verbatim>\<open>flexint.go\<close>: the integer that accepts a JSON number or a JSON string holding one.  The two calls of
  \<^verbatim>\<open>json.Unmarshal\<close> are modelled on bytes as the Go library documents them: an \<^verbatim>\<open>int\<close> target takes
  \<^verbatim>\<open>null\<close> (which leaves it zero) or a number literal without fraction or exponent that fits in 64
  bits, a \<^verbatim>\<open>string\<close> target takes a quoted literal, whose escapes are decoded.  Raw bytes from 0x80 on
  are taken as they are (a JSON text is UTF-8).
\<close>

subsection \<open>json.Unmarshal into an int\<close>

definition json_ws :: "char \<Rightarrow> bool" where
  "json_ws c \<longleftrightarrow> c \<in> {CHR 0x20, CHR 0x09, CHR 0x0A, CHR 0x0D}"

definition json_trim :: "string \<Rightarrow> string" where
  "json_trim s = rev (dropWhile json_ws (rev (dropWhile json_ws s)))"

definition json_nat_lit :: "string \<Rightarrow> bool" where
  "json_nat_lit s \<longleftrightarrow> s \<noteq> [] \<and> list_all (\<lambda>c. digit_val c \<noteq> None) s
     \<and> (s = ''0'' \<or> hd s \<noteq> CHR ''0'')"

definition json_int_lit :: "string \<Rightarrow> bool" where
  "json_int_lit s \<longleftrightarrow> (case s of
      [] \<Rightarrow> False
    | c # cs \<Rightarrow> if c = CHR ''-'' then json_nat_lit cs else json_nat_lit s)"

definition unmarshal_int :: "string \<Rightarrow> int option" where
  "unmarshal_int data = (let t = json_trim data in
     if t = ''null'' then Some 0
     else if json_int_lit t then (case atoi t of Inl _ \<Rightarrow> None | Inr n \<Rightarrow> Some n)
     else None)"

subsection \<open>json.Unmarshal into a string\<close>

definition hex_val :: "char \<Rightarrow> nat option" where
  "hex_val c = (let n = of_char c :: nat in
     if 48 \<le> n \<and> n \<le> 57 then Some (n - 48)
     else if 97 \<le> n \<and> n \<le> 102 then Some (n - 87)
     else if 65 \<le> n \<and> n \<le> 70 then Some (n - 55)
     else None)"

fun hex4 :: "string \<Rightarrow> (nat \<times> string) option" where
  "hex4 (a # b # c # d # rest) =
     (case (hex_val a, hex_val b, hex_val c, hex_val d) of
        (Some w, Some x, Some y, Some z) \<Rightarrow> Some (((w * 16 + x) * 16 + y) * 16 + z, rest)
      | _ \<Rightarrow> None)"
| "hex4 _ = None"

definition utf8 :: "nat \<Rightarrow> string" where
  "utf8 r = map char_of
     (if r < 0x80 then [r]
      else if r < 0x800 then [0xC0 + r div 64, 0x80 + r mod 64]
      else if r < 0x10000 then [0xE0 + r div 4096, 0x80 + r div 64 mod 64, 0x80 + r mod 64]
      else [0xF0 + r div 262144, 0x80 + r div 4096 mod 64, 0x80 + r div 64 mod 64, 0x80 + r mod 64])"

definition simple_escape :: "char \<Rightarrow> char option" where
  "simple_escape e = map_of [(CHR 0x22, CHR 0x22), (CHR 0x5C, CHR 0x5C), (CHR 0x2F, CHR 0x2F),
     (CHR ''b'', CHR 0x08), (CHR ''f'', CHR 0x0C), (CHR ''n'', CHR 0x0A), (CHR ''r'', CHR 0x0D),
     (CHR ''t'', CHR 0x09)] e"

text \<open>A low surrogate written as a second \<^verbatim>\<open>\u\<close> escape right after a high one.\<close>

definition low_surrogate :: "nat \<Rightarrow> string \<Rightarrow> (nat \<times> string) option" where
  "low_surrogate hi s = (case s of
      a # b # rest \<Rightarrow>
        if a = CHR 0x5C \<and> b = CHR ''u'' then
          (case hex4 rest of
             None \<Rightarrow> None
           | Some (lo, rest') \<Rightarrow>
               if 0xD800 \<le> hi \<and> hi < 0xDC00 \<and> 0xDC00 \<le> lo \<and> lo < 0xE000
               then Some ((hi - 0xD800) * 1024 + (lo - 0xDC00) + 0x10000, rest') else None)
        else None
    | _ \<Rightarrow> None)"

lemma hex4_length: "hex4 s = Some (r, rest) \<Longrightarrow> length rest < length s"
  by (induction s rule: hex4.induct) (auto split: option.splits)

lemma low_surrogate_length: "low_surrogate hi s = Some (r, rest) \<Longrightarrow> length rest < length s"
  by (auto simp: low_surrogate_def split: list.splits if_splits option.splits prod.splits
      dest!: hex4_length)

function json_unquote :: "string \<Rightarrow> string option" where
  "json_unquote [] = None"
| "json_unquote (c # cs) =
     (if c = CHR 0x22 then (if cs = [] then Some [] else None)
      else if c = CHR 0x5C then
        (case cs of
           [] \<Rightarrow> None
         | e # ds \<Rightarrow>
             if e = CHR ''u'' then
               (case hex4 ds of
                  None \<Rightarrow> None
                | Some (r, ds') \<Rightarrow>
                    if 0xD800 \<le> r \<and> r < 0xE000 then
                      (case low_surrogate r ds' of
                         Some (q, ds'') \<Rightarrow> map_option ((@) (utf8 q)) (json_unquote ds'')
                       | None \<Rightarrow> map_option ((@) (utf8 0xFFFD)) (json_unquote ds'))
                    else map_option ((@) (utf8 r)) (json_unquote ds'))
             else (case simple_escape e of
                  None \<Rightarrow> None
                | Some d \<Rightarrow> map_option ((#) d) (json_unquote ds)))
      else if (of_char c :: nat) < 32 then None
      else map_option ((#) c) (json_unquote cs))"
  by pat_completeness auto
termination
  by (relation "measure length") (auto dest!: hex4_length low_surrogate_length)

declare json_unquote.simps(2) [simp del]

definition unmarshal_string :: "string \<Rightarrow> string option" where
  "unmarshal_string data = (case json_trim data of
      [] \<Rightarrow> None
    | c # cs \<Rightarrow> if c # cs = ''null'' then Some [] else if c = CHR 0x22 then json_unquote cs else None)"

subsection \<open>UnmarshalJSON\<close>

datatype flex_err =
    CannotParse string num_err
  | CannotUnmarshal string

definition UnmarshalJSON :: "string \<Rightarrow> flex_err + int" where
  "UnmarshalJSON data = (case unmarshal_int data of
      Some n \<Rightarrow> Inr n
    | None \<Rightarrow> (case unmarshal_string data of
          Some s \<Rightarrow> (case atoi s of
              Inl e \<Rightarrow> Inl (CannotParse s e)
            | Inr n \<Rightarrow> Inr n)
        | None \<Rightarrow> Inl (CannotUnmarshal data)))"

definition FlexInt_Int :: "int \<Rightarrow> int" where
  "FlexInt_Int f = f"

subsection \<open>Decimal literals are read back\<close>

definition plain_char :: "char \<Rightarrow> bool" where
  "plain_char c \<longleftrightarrow> 32 < (of_char c :: nat) \<and> c \<noteq> CHR 0x22 \<and> c \<noteq> CHR 0x5C"

lemma plain_not_ws: "plain_char c \<Longrightarrow> \<not> json_ws c"
  by (auto simp: plain_char_def json_ws_def)

lemma digit_plain: "digit_val c = Some d \<Longrightarrow> plain_char c"
  by (auto simp: plain_char_def digit_val_def split: if_splits)

lemma itoa_plain: "list_all plain_char (itoa n)"
proof -
  have "list_all plain_char (nat_digits k)" for k
    using nat_digits_all [of _ k] by (force simp: list_all_iff intro: digit_plain)
  moreover have "plain_char CHR ''-''" by (simp add: plain_char_def)
  ultimately show ?thesis by (simp add: itoa_def)
qed

lemma itoa_neq_Nil [simp]: "itoa n \<noteq> []"
  by (simp add: itoa_def)

lemma json_trim_id:
  assumes "s \<noteq> []" "\<not> json_ws (hd s)" "\<not> json_ws (last s)"
  shows "json_trim s = s"
proof -
  have "dropWhile json_ws s = s" "dropWhile json_ws (rev s) = rev s"
    by (rule dropWhile_hd; use assms in \<open>simp add: hd_rev\<close>)+
  then show ?thesis by (simp add: json_trim_def)
qed

lemma json_trim_itoa [simp]: "json_trim (itoa n) = itoa n"
  using itoa_plain [of n]
  by (intro json_trim_id) (auto simp: list_all_iff intro!: plain_not_ws)

lemma nat_digits_lit: "json_nat_lit (nat_digits n)"
proof -
  have "list_all (\<lambda>c. digit_val c \<noteq> None) (nat_digits n)"
    using nat_digits_all [of _ n] by (force simp: list_all_iff)
  moreover have "nat_digits 0 = ''0''"
    by code_simp
  ultimately show ?thesis
    using nat_digits_hd [of n] by (cases "n = 0") (simp_all add: json_nat_lit_def)
qed

lemma itoa_hd: "hd (itoa n) = CHR ''-'' \<or> (\<exists>d<10. hd (itoa n) = digit_char d)"
  using nat_digits_all [of "hd (nat_digits (nat n))" "nat n"]
  by (auto simp: itoa_def)

lemma itoa_lit: "json_int_lit (itoa n)"
proof (cases "n < 0")
  case True
  then show ?thesis by (simp add: itoa_def json_int_lit_def nat_digits_lit)
next
  case False
  obtain c cs where nd: "nat_digits (nat n) = c # cs"
    by (cases "nat_digits (nat n)") auto
  then have "c \<noteq> CHR ''-''"
    using nat_digits_not_sign [of "CHR ''-''" "nat n"] by auto
  with False nd nat_digits_lit [of "nat n"] show ?thesis
    by (simp add: itoa_def json_int_lit_def)
qed

lemma itoa_not_null: "hd (itoa n) \<noteq> CHR ''n''" "hd (itoa n) \<noteq> CHR 0x22"
proof -
  have "digit_val CHR ''n'' = None" "digit_val CHR 0x22 = None"
    by (simp_all add: digit_val_def)
  then show "hd (itoa n) \<noteq> CHR ''n''" "hd (itoa n) \<noteq> CHR 0x22"
    using itoa_hd [of n] by (auto dest: digit_char_neq)
qed

lemma json_unquote_plain:
  "list_all plain_char xs \<Longrightarrow> json_unquote (xs @ [CHR 0x22]) = Some xs"
  by (induction xs) (auto simp: json_unquote.simps(2) plain_char_def)

lemma unmarshal_int_itoa:
  "unmarshal_int (itoa n) = (if in_int64 n then Some n else None)"
proof -
  have "itoa n \<noteq> ''null''" using itoa_not_null(1) [of n] by auto
  then show ?thesis by (simp add: unmarshal_int_def itoa_lit atoi_itoa)
qed

lemma unmarshal_string_itoa: "unmarshal_string (itoa n) = None"
  using itoa_not_null [of n] json_trim_itoa [of n]
  by (cases "itoa n") (auto simp: unmarshal_string_def simp del: json_trim_itoa)

definition quoted :: "string \<Rightarrow> string" where
  "quoted s = CHR 0x22 # s @ [CHR 0x22]"

lemma json_trim_quoted [simp]: "json_trim (quoted s) = quoted s"
  by (rule json_trim_id) (simp_all add: quoted_def json_ws_def)

lemma unmarshal_int_quoted: "unmarshal_int (quoted s) = None"
proof -
  have "\<not> json_int_lit (quoted s)"
    by (simp add: quoted_def json_int_lit_def json_nat_lit_def digit_val_def)
  then show ?thesis
    unfolding unmarshal_int_def Let_def json_trim_quoted by (simp add: quoted_def)
qed

lemma unmarshal_string_quoted:
  "list_all plain_char s \<Longrightarrow> unmarshal_string (quoted s) = Some s"
  using json_trim_quoted [of s] by (simp add: unmarshal_string_def json_unquote_plain quoted_def)

text \<open>C39. A decimal literal of any integer, bare or in quotes, is read back as that integer exactly when
  it fits in 64 bits; otherwise the call returns the error of the branch that saw it.\<close>

theorem UnmarshalJSON_decimal:
  "UnmarshalJSON (itoa n) = (if in_int64 n then Inr n else Inl (CannotUnmarshal (itoa n)))
   \<and> UnmarshalJSON (quoted (itoa n)) =
       (if in_int64 n then Inr n else Inl (CannotParse (itoa n) ErrRange))"
  by (simp add: UnmarshalJSON_def unmarshal_int_itoa unmarshal_string_itoa unmarshal_int_quoted
      unmarshal_string_quoted itoa_plain atoi_itoa)

lemma unmarshal_int_range: "unmarshal_int data = Some n \<Longrightarrow> in_int64 n"
  by (auto simp: unmarshal_int_def Let_def in_int64_def int64_min_def int64_max_def
      split: if_splits sum.splits dest: atoi_range [unfolded in_int64_def int64_min_def int64_max_def])

lemma UnmarshalJSON_range: "UnmarshalJSON data = Inr n \<Longrightarrow> in_int64 n"
  by (auto simp: UnmarshalJSON_def split: option.splits sum.splits
      dest: unmarshal_int_range atoi_range)

end
