(* ===== verification/Logger.thy ===== *)
theory Logger
  imports Prelude
begin

text \<open>
  \<^verbatim>\<open>logger.go\<close>: the log levels in the order of the Go constants, the parser of \<^verbatim>\<open>MCP_LOG_LEVEL\<close> and
  the filter of \<open>logAt\<close>.  A level outside the four constants (Go's \<^verbatim>\<open>LogLevel\<close> is an int) is kept as
  \<open>LogOther\<close> so that \<open>String\<close> has its default branch.  Environment strings are ASCII.
\<close>

datatype LogLevel = LogError | LogInfo | LogDebug | LogTrace | LogOther int

fun level_int :: "LogLevel \<Rightarrow> int" where
  "level_int LogError = 0"
| "level_int LogInfo = 1"
| "level_int LogDebug = 2"
| "level_int LogTrace = 3"
| "level_int (LogOther n) = n"

fun level_String :: "LogLevel \<Rightarrow> string" where
  "level_String LogError = ''error''"
| "level_String LogInfo = ''info''"
| "level_String LogDebug = ''debug''"
| "level_String LogTrace = ''trace''"
| "level_String (LogOther _) = ''unknown''"

definition parseLogLevel :: "string \<Rightarrow> LogLevel" where
  "parseLogLevel s = (let t = to_lower (trim_space s) in
     if t = ''error'' then LogError
     else if t = ''info'' \<or> t = '''' then LogInfo
     else if t = ''debug'' then LogDebug
     else if t = ''trace'' then LogTrace
     else LogInfo)"

text \<open>\<open>logAt\<close> appends the formatted line to the log, or nothing.\<close>

definition logAt :: "LogLevel \<Rightarrow> LogLevel \<Rightarrow> string \<Rightarrow> string list \<Rightarrow> string list" where
  "logAt current lvl line log =
     (if level_int current < level_int lvl then log else log @ [line])"

instantiation LogLevel :: preorder
begin

definition less_eq_LogLevel :: "LogLevel \<Rightarrow> LogLevel \<Rightarrow> bool" where
  "less_eq_LogLevel a b \<longleftrightarrow> level_int a \<le> level_int b"

definition less_LogLevel :: "LogLevel \<Rightarrow> LogLevel \<Rightarrow> bool" where
  "less_LogLevel a b \<longleftrightarrow> level_int a < level_int b"

instance
  by standard (auto simp: less_eq_LogLevel_def less_LogLevel_def)

end

lemma parseLogLevel_constant: "parseLogLevel s \<in> {LogError, LogInfo, LogDebug, LogTrace}"
  by (simp add: parseLogLevel_def Let_def)

lemma parse_String:
  "l \<in> {LogError, LogInfo, LogDebug, LogTrace} \<Longrightarrow> parseLogLevel (level_String l) = l"
  by (elim insertE emptyE; hypsubst; code_simp)


lemma logAt_filters: "logAt current lvl line log = log \<or> lvl \<le> current"
  by (auto simp: logAt_def less_eq_LogLevel_def)

end
