(* ===== verification/Messages.thy ===== *)
theory Messages
  imports Prelude
begin

text \<open>
  The messages that cross the interfaces of the program: Go errors (with the wrapping that
  \<^verbatim>\<open>fmt.Errorf("%w")\<close> builds and \<^verbatim>\<open>errors.Is\<close> follows), the requests that the \<^verbatim>\<open>*Request\<close> methods of
  \<^verbatim>\<open>dap.go\<close> put on the wire, and the responses and events of the DAP server.  Of the go-dap types only
  the fields that the sources read or write are kept.
\<close>

subsection \<open>Errors\<close>

datatype err =
    ErrConnectionStale
  | ErrReconnectUnsupported
  | DeadlineExceeded
  | Canceled
  | ErrNew string                \<comment> \<open>errors.New, or Errorf without \<^verbatim>\<open>%w\<close>\<close>
  | ErrWrap string err           \<comment> \<open>Errorf with the text before a final \<^verbatim>\<open>%w\<close>\<close>
  | ErrStaleBecause err          \<comment> \<open>Errorf of \<^verbatim>\<open>"%w: %v"\<close> with ErrConnectionStale first\<close>
  | ErrWrapThen string err string \<comment> \<open>Errorf with text on both sides of \<^verbatim>\<open>%w\<close>\<close>

fun err_text :: "err \<Rightarrow> string" where
  "err_text ErrConnectionStale = ''connection to DAP server is stale, auto-reconnect in progress; try again in a few seconds or call reconnect tool''"
| "err_text ErrReconnectUnsupported = ''backend does not support redial''"
| "err_text DeadlineExceeded = ''context deadline exceeded''"
| "err_text Canceled = ''context canceled''"
| "err_text (ErrNew s) = s"
| "err_text (ErrWrap p e) = p @ err_text e"
| "err_text (ErrStaleBecause e) = err_text ErrConnectionStale @ '': '' @ err_text e"
| "err_text (ErrWrapThen p e q) = p @ err_text e @ q"

text \<open>\<^verbatim>\<open>errors.Is\<close> walks the chain of wrapped errors; text inserted with \<^verbatim>\<open>%v\<close> is not in the chain.\<close>

fun errors_Is :: "err \<Rightarrow> err \<Rightarrow> bool" where
  "errors_Is (ErrWrap p e) t \<longleftrightarrow> ErrWrap p e = t \<or> errors_Is e t"
| "errors_Is (ErrWrapThen p e q) t \<longleftrightarrow> ErrWrapThen p e q = t \<or> errors_Is e t"
| "errors_Is (ErrStaleBecause e) t \<longleftrightarrow> ErrStaleBecause e = t \<or> t = ErrConnectionStale"
| "errors_Is e t \<longleftrightarrow> e = t"

lemma errors_Is_refl [simp]: "errors_Is e e"
  by (cases e) auto

subsection \<open>JSON argument maps\<close>

datatype jval = JStr string | JBool bool | JInt int | JStrs "string list" | JObj "(string \<times> jval) list"
  | JList "jval list"

type_synonym jargs = "(string \<times> jval) list"

subsection \<open>Requests\<close>

datatype command =
    Initialize string
  | Launch jargs
  | Attach jargs
  | SetBreakpoints string "int list"
  | SetFunctionBreakpoints "string list"
  | ConfigurationDone
  | Continue int
  | Next int
  | StepIn int
  | StepOut int
  | Pause int
  | Threads
  | StackTrace int int int
  | Scopes int
  | Variables int
  | Evaluate string int "string option"
  | Disconnect bool
  | ExceptionInfo int
  | SetVariable int string string
  | Restart "jargs option"
  | Terminate
  | StepBack int
  | LoadedSources
  | Modules
  | BreakpointLocations string int
  | Completions string int int
  | Disassemble string int int
  | SetExceptionBreakpoints "string list"
  | DataBreakpointInfo int string
  | SetDataBreakpoints "string list"
  | SourceReq int

subsection \<open>Responses\<close>

record capabilities =
  supportsRestartRequest :: bool
  supportsSetVariable :: bool
  supportsDisassembleRequest :: bool
  supportsLoadedSourcesRequest :: bool
  supportsModulesRequest :: bool

definition no_capabilities :: capabilities where
  "no_capabilities = \<lparr>supportsRestartRequest = False, supportsSetVariable = False,
     supportsDisassembleRequest = False, supportsLoadedSourcesRequest = False,
     supportsModulesRequest = False\<rparr>"

record stackFrame =
  fr_id :: int
  fr_name :: string
  fr_source :: "string option"
  fr_line :: int
  fr_hint :: string

record dapScope =
  sc_name :: string
  sc_ref :: int

record dapVariable =
  v_name :: string
  v_type :: string
  v_value :: string

record dapInstruction =
  in_address :: string
  in_instruction :: string
  in_location :: "string option"
  in_line :: int

record dapBreakpoint =
  bp_id :: int
  bp_verified :: bool
  bp_message :: string
  bp_line :: int

datatype resp_body =
    InitializeR capabilities
  | StackTraceR "stackFrame list"
  | ScopesR "dapScope list"
  | VariablesR "dapVariable list"
  | EvaluateR string string
  | ThreadsR "(int \<times> string) list"
  | LoadedSourcesR "string list"
  | ModulesR "(string \<times> string) list"
  | DisassembleR "dapInstruction list"
  | SetBreakpointsR "dapBreakpoint list"
  | ErrorR
  | OtherR string

record response =
  rs_seq :: int            \<comment> \<open>request\_seq\<close>
  rs_success :: bool
  rs_message :: string
  rs_body :: resp_body

subsection \<open>Events\<close>

datatype dap_event =
    StoppedEvent string int      \<comment> \<open>reason and thread id\<close>
  | TerminatedEvent
  | InitializedEvent
  | ConnectionLostEvent err
  | OtherEvent string

datatype ev_type = StoppedT | TerminatedT | InitializedT | ConnectionLostT | OtherT string

fun ev_typeof :: "dap_event \<Rightarrow> ev_type" where
  "ev_typeof (StoppedEvent _ _) = StoppedT"
| "ev_typeof TerminatedEvent = TerminatedT"
| "ev_typeof InitializedEvent = InitializedT"
| "ev_typeof (ConnectionLostEvent _) = ConnectionLostT"
| "ev_typeof (OtherEvent s) = OtherT s"

datatype dap_msg =
    ResponseMessage response
  | EventMessage dap_event
  | OtherMessage string

end
