(* ===== verification/EventRing.thy ===== *)
theory EventRing
  imports Prelude
begin

text \<open>
  The replay ring of \<^verbatim>\<open>dap.go\<close> (\<open>eventRing\<close>, \<open>push\<close>, \<open>snapshot\<close>): a slice of \<open>cap\<close> slots, the next
  write position \<open>idx\<close> and the number \<open>size\<close> of valid slots.  A slot that was never written holds the
  zero \<open>ringEntry\<close>, modelled as \<open>None\<close>; an index outside the slice panics, modelled as the result
  \<open>None\<close> of the operation.  The locale \<open>replay_buffer\<close> is the interface the event bus relies on: a
  buffer that keeps the last \<open>capacity\<close> entries in arrival order.
\<close>

definition eventBufSize :: nat where
  "eventBufSize = 64"

record 'e eventRing =
  ring_items :: "'e option list"
  ring_idx :: nat
  ring_cap :: nat
  ring_size :: nat

definition newEventRing :: "nat \<Rightarrow> 'e eventRing" where
  "newEventRing n = \<lparr>ring_items = replicate n None, ring_idx = 0, ring_cap = n, ring_size = 0\<rparr>"

definition ring_push :: "'e \<Rightarrow> 'e eventRing \<Rightarrow> 'e eventRing option" where
  "ring_push e r =
     (if ring_idx r < length (ring_items r) then
        Some (r\<lparr>ring_items := (ring_items r)[ring_idx r := Some e],
               ring_idx := (ring_idx r + 1) mod ring_cap r,
               ring_size := (if ring_size r < ring_cap r then ring_size r + 1 else ring_size r)\<rparr>)
      else None)"

text \<open>The loop of \<open>snapshot\<close>: slot \<open>(start + i) mod cap\<close> for \<open>i\<close> below \<open>size\<close>.\<close>

definition ring_snapshot :: "'e eventRing \<Rightarrow> 'e option list" where
  "ring_snapshot r =
     (if ring_size r = 0 then []
      else let start = (ring_idx r + ring_cap r - ring_size r) mod ring_cap r in
        map (\<lambda>i. ring_items r ! ((start + i) mod ring_cap r)) [0..<ring_size r])"

subsection \<open>Invariant\<close>

definition ring_invar :: "'e eventRing \<Rightarrow> bool" where
  "ring_invar r \<longleftrightarrow> 0 < ring_cap r \<and> length (ring_items r) = ring_cap r \<and> ring_idx r < ring_cap r
     \<and> ring_size r \<le> ring_cap r \<and> list_all (\<lambda>x. x \<noteq> None) (ring_snapshot r)"

definition ring_entries :: "'e eventRing \<Rightarrow> 'e list" where
  "ring_entries r = map the (ring_snapshot r)"

lemma ring_snapshot_nth:
  "i < ring_size r \<Longrightarrow>
   ring_snapshot r ! i = ring_items r ! ((ring_idx r + ring_cap r - ring_size r + i) mod ring_cap r)"
  by (simp add: ring_snapshot_def Let_def mod_simps)

lemma length_ring_snapshot [simp]: "length (ring_snapshot r) = ring_size r"
  by (simp add: ring_snapshot_def Let_def)

lemma length_ring_entries [simp]: "length (ring_entries r) = ring_size r"
  by (simp add: ring_entries_def)

lemma newEventRing_invar: "0 < n \<Longrightarrow> ring_invar (newEventRing n)"
  by (simp add: ring_invar_def newEventRing_def ring_snapshot_def)

lemma newEventRing_entries: "ring_entries (newEventRing n) = []"
  by (simp add: ring_entries_def newEventRing_def ring_snapshot_def)

text \<open>Where the read position \<open>(idx + cap - size + i) mod cap\<close> lies before the write position.\<close>

lemma ring_pos:
  fixes idx cap size i :: nat
  assumes "idx < cap" "size \<le> cap" "i < size"
  shows "(idx + cap - size + i) mod cap =
         (if idx + i < size then idx + cap - size + i else idx + i - size)"
proof (cases "idx + i < size")
  case True
  then show ?thesis using assms by (simp add: mod_less)
next
  case False
  then have "idx + cap - size + i = (idx + i - size) + cap" using assms by simp
  then have "(idx + cap - size + i) mod cap = (idx + i - size) mod cap"
    by (metis mod_add_self2)
  moreover have "idx + i - size < cap" using assms by simp
  ultimately show ?thesis using False by simp
qed

lemma ring_pos_idx:
  fixes idx cap size i :: nat
  assumes "idx < cap" "size \<le> cap" "i < size"
  shows "(idx + cap - size + i) mod cap = idx \<longleftrightarrow> size = cap \<and> i = 0"
  unfolding ring_pos [OF assms] using assms by (auto split: if_splits)

subsection \<open>push refines appending and keeping the last entries\<close>

lemma ring_snapshot_push:
  assumes inv: "ring_invar r" and push: "ring_push e r = Some r'"
  shows "ring_snapshot r' = lastn (ring_cap r) (ring_snapshot r @ [Some e])"
proof (rule nth_equalityI)
  from inv have r: "0 < ring_cap r" "length (ring_items r) = ring_cap r"
      "ring_idx r < ring_cap r" "ring_size r \<le> ring_cap r"
    by (simp_all add: ring_invar_def)
  from push have r': "ring_items r' = (ring_items r)[ring_idx r := Some e]"
      "ring_idx r' = (ring_idx r + 1) mod ring_cap r" "ring_cap r' = ring_cap r"
      "ring_size r' = min (ring_cap r) (Suc (ring_size r))"
    using r by (auto simp: ring_push_def split: if_splits)
  then show "length (ring_snapshot r') = length (lastn (ring_cap r) (ring_snapshot r @ [Some e]))"
    by simp
  fix i assume "i < length (ring_snapshot r')"
  then have i: "i < ring_size r'" by simp
  let ?pos = "(ring_idx r + 1 + (ring_cap r - ring_size r') + i) mod ring_cap r"
  have "(ring_idx r' + ring_cap r' - ring_size r' + i) mod ring_cap r' = ?pos"
  proof -
    have "ring_idx r' + ring_cap r' - ring_size r' + i
        = (ring_idx r + 1) mod ring_cap r + ((ring_cap r - ring_size r') + i)"
      using r' by simp
    then show ?thesis
      unfolding r'(3) by (simp only: mod_add_left_eq add.assoc)
  qed
  then have lhs: "ring_snapshot r' ! i = ((ring_items r)[ring_idx r := Some e]) ! ?pos"
    using i r' by (simp add: ring_snapshot_nth)
  show "ring_snapshot r' ! i = lastn (ring_cap r) (ring_snapshot r @ [Some e]) ! i"
  proof (cases "i = ring_size r' - 1")
    case True
    have "ring_idx r + 1 + (ring_cap r - ring_size r') + i = ring_idx r + ring_cap r"
      using True r r' i by auto
    then have "?pos = ring_idx r" using r by (simp only: mod_add_self2 mod_less)
    moreover have "lastn (ring_cap r) (ring_snapshot r @ [Some e]) ! i = Some e"
      using True r r' i by (auto simp: lastn_def nth_append)
    ultimately show ?thesis using lhs r by simp
  next
    case False
    define j where "j = i + (Suc (ring_size r) - ring_size r')"
    have j: "j < ring_size r" using False i r' r by (auto simp: j_def)
    have "ring_idx r + 1 + (ring_cap r - ring_size r') + i = ring_idx r + ring_cap r - ring_size r + j"
      using r r' i False by (auto simp: j_def)
    then have pos: "?pos = (ring_idx r + ring_cap r - ring_size r + j) mod ring_cap r" by simp
    have "?pos \<noteq> ring_idx r"
    proof
      assume "?pos = ring_idx r"
      then have "ring_size r = ring_cap r \<and> j = 0"
        using ring_pos_idx [OF r(3,4) j] pos by simp
      then show False using r' by (auto simp: j_def)
    qed
    then have "ring_snapshot r' ! i = ring_snapshot r ! j"
      using lhs pos j by (simp add: ring_snapshot_nth)
    moreover have "lastn (ring_cap r) (ring_snapshot r @ [Some e]) ! i = ring_snapshot r ! j"
      using i j r' r
      by (auto simp: lastn_def nth_append j_def min_def add.commute split: if_splits)
    ultimately show ?thesis by simp
  qed
qed

lemma ring_push_total: "ring_invar r \<Longrightarrow> \<exists>r'. ring_push e r = Some r'"
  by (simp add: ring_push_def ring_invar_def)

lemma ring_push_cap: "ring_push e r = Some r' \<Longrightarrow> ring_cap r' = ring_cap r"
  by (auto simp: ring_push_def split: if_splits)

lemma ring_push_invar:
  assumes inv: "ring_invar r" and push: "ring_push e r = Some r'"
  shows "ring_invar r'"
proof -
  have "list_all (\<lambda>x. x \<noteq> None) (ring_snapshot r')"
    using inv set_lastn [of "ring_cap r" "ring_snapshot r @ [Some e]"]
    by (auto simp: ring_snapshot_push [OF inv push] ring_invar_def list_all_iff)
  then show ?thesis
    using inv push by (auto simp: ring_invar_def ring_push_def split: if_splits)
qed

lemma map_lastn: "map f (lastn k xs) = lastn k (map f xs)"
  by (simp add: lastn_def drop_map)

lemma ring_entries_push:
  assumes "ring_invar r" and "ring_push e r = Some r'"
  shows "ring_entries r' = lastn (ring_cap r) (ring_entries r @ [e])"
  by (simp add: ring_entries_def ring_snapshot_push [OF assms] map_lastn)

lemma ring_snapshot_entries:
  assumes "ring_invar r" shows "ring_snapshot r = map Some (ring_entries r)"
  using assms by (auto simp: ring_entries_def ring_invar_def list_all_iff intro!: nth_equalityI)

subsection \<open>The interface the event bus uses\<close>

primrec push_seq :: "('e \<Rightarrow> 'r \<Rightarrow> 'r option) \<Rightarrow> 'e list \<Rightarrow> 'r \<Rightarrow> 'r option" where
  "push_seq push [] r = Some r"
| "push_seq push (e # es) r = Option.bind (push e r) (push_seq push es)"

locale replay_buffer =
  fixes push :: "'e \<Rightarrow> 'r \<Rightarrow> 'r option"
    and entries :: "'r \<Rightarrow> 'e list"
    and invar :: "'r \<Rightarrow> bool"
    and capacity :: "'r \<Rightarrow> nat"
  assumes push_total: "invar r \<Longrightarrow> \<exists>r'. push e r = Some r'"
    and push_invar: "invar r \<Longrightarrow> push e r = Some r' \<Longrightarrow> invar r'"
    and push_capacity: "push e r = Some r' \<Longrightarrow> capacity r' = capacity r"
    and push_entries: "invar r \<Longrightarrow> push e r = Some r' \<Longrightarrow>
          entries r' = lastn (capacity r) (entries r @ [e])"
    and entries_bounded: "invar r \<Longrightarrow> length (entries r) \<le> capacity r"
begin

lemma push_seq_entries:
  assumes "invar r"
  shows "\<exists>r'. push_seq push es r = Some r' \<and> invar r' \<and> capacity r' = capacity r
     \<and> entries r' = lastn (capacity r) (entries r @ es)"
  using assms
proof (induction es arbitrary: r)
  case Nil
  then show ?case by (simp add: lastn_short entries_bounded)
next
  case (Cons e es)
  from push_total [OF Cons.prems] obtain s where s: "push e r = Some s" by blast
  from Cons.IH [OF push_invar [OF Cons.prems s]] obtain t where
    t: "push_seq push es s = Some t" "invar t" "capacity t = capacity s"
      "entries t = lastn (capacity s) (entries s @ es)" by blast
  show ?case
    using s t lastn_lastn push_capacity [OF s] push_entries [OF Cons.prems s] by simp
qed

lemma push_keeps_recent:
  assumes "invar r" "push e r = Some r'" "0 < capacity r"
  shows "last (entries r') = e" "entries r' \<noteq> []"
  using push_entries [OF assms(1,2)] assms(3)
  by (auto simp: lastn_def)

end

interpretation ring: replay_buffer ring_push ring_entries ring_invar ring_cap
proof unfold_locales
  show "ring_invar r \<Longrightarrow> length (ring_entries r) \<le> ring_cap r" for r :: "'a eventRing"
    by (simp add: ring_invar_def)
qed (auto intro: ring_push_invar simp: ring_push_total ring_push_cap ring_entries_push)

text \<open>C25. Whatever is pushed into a fresh ring of any positive capacity, no push panics and a snapshot
  returns exactly the most recent entries, oldest first, as many as fit.\<close>

theorem eventRing_keeps_last:
  "\<exists>r. push_seq ring_push es (newEventRing (Suc n)) = Some r
     \<and> ring_snapshot r = map Some (lastn (Suc n) es)"
proof -
  have [simp]: "ring_cap (newEventRing (Suc n) :: 'a eventRing) = Suc n"
    by (simp add: newEventRing_def)
  show ?thesis
    using ring.push_seq_entries [OF newEventRing_invar [of "Suc n"], of es]
    by (auto simp: newEventRing_entries ring_snapshot_entries simp del: length_ring_entries)
qed

end
