(* ===== verification/DapClient.thy ===== *)
theory DapClient
  imports Messages EventRing "HOL-Library.AList"
begin

text \<open>
  The state of \<^verbatim>\<open>DAPClient\<close> (\<^verbatim>\<open>dap.go\<close>) and its operations, one definition per atomic section (the code
  between taking and releasing a mutex, one atomic variable access, or one channel operation).
  Go channels are explicit: a response channel is a slot of the heap \<open>c_chans\<close> with its buffer
  and closed flag, the pending-response map \<open>c_responses\<close> holds slot numbers, a subscription is a
  slot of \<open>c_subs\<close>.  A transport is a number; what has been written to it is logged in
  \<open>c_wire\<close>.  A Go panic (send on or close of a closed channel, slice index out of range) sets
  \<open>c_panic\<close>.
\<close>

subsection \<open>Channels, subscriptions, control locations\<close>

record rchan =
  rc_buf :: "dap_msg list"
  rc_closed :: bool

definition new_rchan :: rchan where
  "new_rchan = \<lparr>rc_buf = [], rc_closed = False\<rparr>"

definition rchan_cap :: nat where
  "rchan_cap = 1"

text \<open>\<open>sub_hand\<close> is the message the bridge goroutine has received and not yet sent on; \<open>sub_done\<close>
  says that the bridge has returned and closed \<open>out\<close>.\<close>

record subscription =
  sub_type :: ev_type
  sub_ch :: "dap_event list"
  sub_out :: "dap_event list"
  sub_hand :: "dap_event option"
  sub_stop :: bool
  sub_done :: bool

datatype pump_pc =
    PNotStarted
  | PTop                        \<comment> \<open>shutdown check at the loop head\<close>
  | PRead                       \<comment> \<open>about to copy \<open>c.reader\<close>\<close>
  | PReading nat                \<comment> \<open>blocked in ReadProtocolMessage on this transport\<close>
  | PRespond response           \<comment> \<open>dispatchResponse, before the registry section\<close>
  | PDeliver nat response       \<comment> \<open>dispatchResponse, about to send on the channel\<close>
  | PPush dap_event             \<comment> \<open>dispatchEvent, before the ring push\<close>
  | PSubs bool dap_event        \<comment> \<open>before copying the subscribers; True in broadcastEvent\<close>
  | PFan bool dap_event "nat list" \<comment> \<open>fanning out to the copied subscribers\<close>
  | PErrCas err                 \<comment> \<open>markStale after a read error: compare-and-swap\<close>
  | PErrSignal err              \<comment> \<open>markStale: channel send\<close>
  | PErrClose err               \<comment> \<open>closeRegistry\<close>
  | PWait                       \<comment> \<open>blocked on pumpResume or ctx\<close>
  | PExit

datatype recon_pc =
    RNotStarted
  | RWait                       \<comment> \<open>select of reconnectLoop\<close>
  | RTop int                    \<comment> \<open>head of doReconnect's loop, with the backoff\<close>
  | RDial int                   \<comment> \<open>in Redial\<close>
  | RGot nat                    \<comment> \<open>Redial succeeded, old transport not yet closed\<close>
  | RCheck nat                  \<comment> \<open>ctx.Err() test after closing the old one\<close>
  | RSwap nat                   \<comment> \<open>replaceConn: under mu\<close>
  | RDrain                      \<comment> \<open>replaceConn: closeRegistry\<close>
  | RResume                     \<comment> \<open>replaceConn: pumpResume\<close>
  | RHook                       \<comment> \<open>in notifySessionReconnected\<close>
  | RMark                       \<comment> \<open>hook failed: markStale compare-and-swap\<close>
  | RMarkSignal                 \<comment> \<open>hook failed: markStale channel send\<close>
  | RClear                      \<comment> \<open>stale.Store(false)\<close>
  | RBackoff int                \<comment> \<open>sleeping\<close>
  | RExitCtx                    \<comment> \<open>returned because ctx is done\<close>
  | RExitNoRedialer             \<comment> \<open>returned because there is no Redialer\<close>

record client =
  c_rwc :: nat
  c_reader :: nat
  c_closed :: "nat list"
  c_seq :: int
  c_redialer :: bool
  c_stale :: bool
  c_reconnCh :: nat
  c_ctx_done :: bool
  c_attempts :: "32 word"
  c_lastErr :: "string option"
  c_hook :: bool
  c_responses :: "(int \<times> nat) list"
  c_chans :: "rchan list"
  c_subscribers :: "(ev_type \<times> nat) list"
  c_subs :: "subscription list"
  c_ring :: "(int \<times> dap_event) eventRing"
  c_pump :: pump_pc
  c_pumpResume :: nat
  c_recon :: recon_pc
  c_signal :: nat              \<comment> \<open>callers between the compare-and-swap and the send of markStale\<close>
  c_panic :: bool
  c_wire :: "(nat \<times> int \<times> command) list"

text \<open>\<open>newDAPClientInternal\<close>, on transport \<open>rwc\<close>.\<close>

definition newDAPClientInternal :: "nat \<Rightarrow> bool \<Rightarrow> client" where
  "newDAPClientInternal rwc redialer = \<lparr>c_rwc = rwc, c_reader = rwc, c_closed = [], c_seq = 1,
     c_redialer = redialer, c_stale = False, c_reconnCh = 0, c_ctx_done = False, c_attempts = 0,
     c_lastErr = None, c_hook = False, c_responses = [], c_chans = [], c_subscribers = [],
     c_subs = [], c_ring = newEventRing eventBufSize, c_pump = PNotStarted, c_pumpResume = 0,
     c_recon = RNotStarted, c_signal = 0, c_panic = False, c_wire = []\<rparr>"

definition newDAPClient :: "nat + err \<Rightarrow> bool \<Rightarrow> string \<Rightarrow> err + client" where
  "newDAPClient dialed redialer addr = (case dialed of
      Inr e \<Rightarrow> Inl (ErrWrap (''connecting to DAP server at '' @ addr @ '': '') e)
    | Inl conn \<Rightarrow> Inr (newDAPClientInternal conn redialer))"

definition newDAPClientFromRWC :: "nat \<Rightarrow> client" where
  "newDAPClientFromRWC rwc = newDAPClientInternal rwc False"

definition SetReinitHook :: "client \<Rightarrow> client" where
  "SetReinitHook c = c\<lparr>c_hook := True\<rparr>"

definition startReadLoop :: "client \<Rightarrow> client" where
  "startReadLoop c = c\<lparr>c_pumpResume := 0, c_pump := PTop\<rparr>"

definition Start :: "client \<Rightarrow> client" where
  "Start c = (startReadLoop c)\<lparr>c_recon := RWait\<rparr>"

text \<open>\<open>Close\<close> up to the point where it waits for readLoop: cancel, then close the transport.\<close>

definition close_conn :: "nat \<Rightarrow> client \<Rightarrow> client" where
  "close_conn n c = c\<lparr>c_closed := List.insert n (c_closed c)\<rparr>"

definition Close :: "client \<Rightarrow> client" where
  "Close c = close_conn (c_rwc c) (c\<lparr>c_ctx_done := True\<rparr>)"

subsection \<open>Sequence numbers and writing\<close>

definition newRequest :: "client \<Rightarrow> int \<times> client" where
  "newRequest c = (c_seq c, c\<lparr>c_seq := c_seq c + 1\<rparr>)"

text \<open>The outcome of \<^verbatim>\<open>dap.WriteProtocolMessage\<close> is an input: \<open>None\<close> or the error it returns.\<close>

definition rawSend :: "err option \<Rightarrow> int \<Rightarrow> command \<Rightarrow> client \<Rightarrow> err option \<times> client" where
  "rawSend w seq cmd c = (case w of
      None \<Rightarrow> (None, c\<lparr>c_wire := c_wire c @ [(c_rwc c, seq, cmd)]\<rparr>)
    | Some e \<Rightarrow> (Some e, c))"

subsection \<open>The stale flag\<close>

definition stale_cas :: "client \<Rightarrow> bool \<times> client" where
  "stale_cas c = (if c_stale c then (False, c) else (True, c\<lparr>c_stale := True\<rparr>))"

definition reconn_signal :: "client \<Rightarrow> client" where
  "reconn_signal c = (if c_reconnCh c < 1 then c\<lparr>c_reconnCh := c_reconnCh c + 1\<rparr> else c)"

definition markStale :: "client \<Rightarrow> client" where
  "markStale c = (let (won, c') = stale_cas c in if won then reconn_signal c' else c')"

text \<open>The reader of the connection; what it returned is an input.\<close>

definition readMessage :: "err + dap_msg \<Rightarrow> client \<Rightarrow> (err + dap_msg) \<times> client" where
  "readMessage read c = (read, case read of Inl e \<Rightarrow> markStale c | Inr m \<Rightarrow> c)"

text \<open>\<open>send\<close>: fast failure on a stale connection, otherwise write and mark stale on an error.\<close>

definition send :: "err option \<Rightarrow> int \<Rightarrow> command \<Rightarrow> client \<Rightarrow> err option \<times> client" where
  "send w seq cmd c =
     (if c_stale c then (Some ErrConnectionStale, c)
      else case rawSend w seq cmd c of
          (None, c') \<Rightarrow> (None, c')
        | (Some e, c') \<Rightarrow> (Some e, markStale c'))"

subsection \<open>The response registry\<close>

definition registerResponseIfAbsent :: "int \<Rightarrow> client \<Rightarrow> bool \<times> client" where
  "registerResponseIfAbsent seq c =
     (if map_of (c_responses c) seq \<noteq> None then (False, c)
      else (True, c\<lparr>c_responses := AList.update seq (length (c_chans c)) (c_responses c),
                    c_chans := c_chans c @ [new_rchan]\<rparr>))"

definition unregisterResponse :: "int \<Rightarrow> client \<Rightarrow> client" where
  "unregisterResponse seq c = c\<lparr>c_responses := AList.delete seq (c_responses c)\<rparr>"

definition close_rchan :: "nat \<Rightarrow> client \<Rightarrow> client" where
  "close_rchan a c =
     (if rc_closed (c_chans c ! a) then c\<lparr>c_panic := True\<rparr>
      else c\<lparr>c_chans := (c_chans c)[a := (c_chans c ! a)\<lparr>rc_closed := True\<rparr>]\<rparr>)"

definition closeRegistry :: "client \<Rightarrow> client" where
  "closeRegistry c = (fold (\<lambda>(seq, a). close_rchan a) (c_responses c) c)\<lparr>c_responses := []\<rparr>"

text \<open>The registry section of \<open>dispatchResponse\<close>: look the channel up and remove the entry.\<close>

definition take_response :: "int \<Rightarrow> client \<Rightarrow> nat option \<times> client" where
  "take_response seq c = (case map_of (c_responses c) seq of
      None \<Rightarrow> (None, c)
    | Some a \<Rightarrow> (Some a, c\<lparr>c_responses := AList.delete seq (c_responses c)\<rparr>))"

text \<open>\<open>ch <- r\<close> on a buffered channel: panics when closed, \<open>None\<close> when it would block.\<close>

definition chan_send :: "nat \<Rightarrow> dap_msg \<Rightarrow> client \<Rightarrow> client option" where
  "chan_send a m c =
     (let ch = c_chans c ! a in
      if rc_closed ch then Some (c\<lparr>c_panic := True\<rparr>)
      else if length (rc_buf ch) < rchan_cap
        then Some (c\<lparr>c_chans := (c_chans c)[a := ch\<lparr>rc_buf := rc_buf ch @ [m]\<rparr>]\<rparr>)
      else None)"

definition dispatchResponse :: "response \<Rightarrow> client \<Rightarrow> client option" where
  "dispatchResponse r c = (case take_response (rs_seq r) c of
      (None, c') \<Rightarrow> Some c'
    | (Some a, c') \<Rightarrow> chan_send a (ResponseMessage r) c')"

text \<open>Two steps of \<open>AwaitResponse\<close>: the lookup, and one receive from the channel once it is ready
  (\<open>None\<close> while it would block).\<close>

definition await_lookup :: "int \<Rightarrow> client \<Rightarrow> nat option" where
  "await_lookup seq c = map_of (c_responses c) seq"

definition await_receive :: "nat \<Rightarrow> client \<Rightarrow> ((err + dap_msg) \<times> client) option" where
  "await_receive a c = (let ch = c_chans c ! a in case rc_buf ch of
      m # ms \<Rightarrow> Some (Inr m, c\<lparr>c_chans := (c_chans c)[a := ch\<lparr>rc_buf := ms\<rparr>]\<rparr>)
    | [] \<Rightarrow> if rc_closed ch then Some (Inl ErrConnectionStale, c) else None)"

end
