(* ===== verification/EventBus.thy ===== *)
theory EventBus
  imports DapClient
begin

text \<open>
  The event bus of \<^verbatim>\<open>dap.go\<close>: \<open>dispatchEvent\<close>, \<open>broadcastEvent\<close>, \<open>Subscribe\<close> with its replay and its
  bridge goroutine, and the cancel function.  \<open>Subscribe\<close> and \<open>dispatchEvent\<close> are given as their
  atomic sections, because events may arrive between them, and as the composition that runs them
  back to back.
\<close>

subsection \<open>Publishing\<close>

definition push_ring :: "int \<Rightarrow> dap_event \<Rightarrow> client \<Rightarrow> client" where
  "push_ring now e c = (case ring_push (now, e) (c_ring c) of
      Some r \<Rightarrow> c\<lparr>c_ring := r\<rparr>
    | None \<Rightarrow> c\<lparr>c_panic := True\<rparr>)"

definition copy_subs :: "ev_type \<Rightarrow> client \<Rightarrow> nat list" where
  "copy_subs t c = map snd (filter (\<lambda>x. fst x = t) (c_subscribers c))"

definition upd_sub :: "nat \<Rightarrow> (subscription \<Rightarrow> subscription) \<Rightarrow> client \<Rightarrow> client" where
  "upd_sub i f c = c\<lparr>c_subs := (c_subs c)[i := f (c_subs c ! i)]\<rparr>"

definition offer :: "dap_event \<Rightarrow> subscription \<Rightarrow> subscription" where
  "offer e s = (if length (sub_ch s) < eventBufSize then s\<lparr>sub_ch := sub_ch s @ [e]\<rparr> else s)"

definition fan_out :: "dap_event \<Rightarrow> nat \<Rightarrow> client \<Rightarrow> client" where
  "fan_out e i c = (if sub_stop (c_subs c ! i) then c else upd_sub i (offer e) c)"

definition broadcastEvent :: "dap_event \<Rightarrow> client \<Rightarrow> client" where
  "broadcastEvent e c = fold (fan_out e) (copy_subs (ev_typeof e) c) c"

definition dispatchEvent :: "int \<Rightarrow> dap_event \<Rightarrow> client \<Rightarrow> client" where
  "dispatchEvent now e c =
     (let c' = push_ring now e c in fold (fan_out e) (copy_subs (ev_typeof e) c') c')"

subsection \<open>Subscribing\<close>

definition new_subscription :: "ev_type \<Rightarrow> subscription" where
  "new_subscription t = \<lparr>sub_type = t, sub_ch = [], sub_out = [], sub_hand = None,
     sub_stop = False, sub_done = False\<rparr>"

definition sub_snapshot :: "client \<Rightarrow> (int \<times> dap_event) option list" where
  "sub_snapshot c = ring_snapshot (c_ring c)"

definition sub_register :: "ev_type \<Rightarrow> client \<Rightarrow> nat \<times> client" where
  "sub_register t c = (length (c_subs c),
     c\<lparr>c_subs := c_subs c @ [new_subscription t],
       c_subscribers := c_subscribers c @ [(t, length (c_subs c))]\<rparr>)"

text \<open>One entry of the replay loop: too old, of another type, or offered to the buffer.\<close>

definition replay_entry :: "int \<Rightarrow> (int \<times> dap_event) option \<Rightarrow> subscription \<Rightarrow> subscription" where
  "replay_entry since x s = (case x of
      None \<Rightarrow> s
    | Some (t, e) \<Rightarrow> if t < since then s
                     else if ev_typeof e \<noteq> sub_type s then s
                     else offer e s)"

definition sub_replay :: "int \<Rightarrow> (int \<times> dap_event) option list \<Rightarrow> nat \<Rightarrow> client \<Rightarrow> client" where
  "sub_replay since entries i c = upd_sub i (fold (replay_entry since) entries) c"

definition Subscribe :: "ev_type \<Rightarrow> int \<Rightarrow> client \<Rightarrow> nat \<times> client" where
  "Subscribe t since c =
     (let entries = sub_snapshot c; (i, c1) = sub_register t c
      in (i, sub_replay since entries i c1))"

text \<open>The cancel function: remove the entry with this id from the list, then close \<open>stop\<close>; the
  second call does nothing (\<open>cancelOnce\<close>).\<close>

definition sub_remove :: "nat \<Rightarrow> client \<Rightarrow> client" where
  "sub_remove i c = c\<lparr>c_subscribers :=
     (case List.extract (\<lambda>x. fst x = sub_type (c_subs c ! i) \<and> snd x = i) (c_subscribers c) of
        None \<Rightarrow> c_subscribers c
      | Some (xs, _, ys) \<Rightarrow> xs @ ys)\<rparr>"

definition sub_close_stop :: "nat \<Rightarrow> client \<Rightarrow> client" where
  "sub_close_stop i c = upd_sub i (\<lambda>s. s\<lparr>sub_stop := True\<rparr>) c"

definition sub_cancel :: "nat \<Rightarrow> client \<Rightarrow> client" where
  "sub_cancel i c = (if sub_stop (c_subs c ! i) then c else sub_close_stop i (sub_remove i c))"

subsection \<open>The bridge goroutine\<close>

text \<open>One step of the bridge.  \<open>prefer_stop\<close> is the choice Go makes when both cases of the select are
  ready.  A bridge that holds a message waits until \<open>out\<close> has room.\<close>

definition drain :: "subscription \<Rightarrow> subscription" where
  "drain s = s\<lparr>sub_out := sub_out s @ take (eventBufSize - length (sub_out s)) (sub_ch s),
     sub_ch := [], sub_done := True\<rparr>"

definition bridge :: "bool \<Rightarrow> subscription \<Rightarrow> subscription" where
  "bridge prefer_stop s =
     (if sub_done s then s
      else case sub_hand s of
          Some e \<Rightarrow> if length (sub_out s) < eventBufSize
                    then s\<lparr>sub_out := sub_out s @ [e], sub_hand := None\<rparr> else s
        | None \<Rightarrow>
            if sub_stop s \<and> (prefer_stop \<or> sub_ch s = []) then drain s
            else case sub_ch s of
                [] \<Rightarrow> s
              | e # es \<Rightarrow> s\<lparr>sub_ch := es, sub_hand := Some e\<rparr>)"

definition bridge_step :: "bool \<Rightarrow> nat \<Rightarrow> client \<Rightarrow> client" where
  "bridge_step prefer_stop i c = upd_sub i (bridge prefer_stop) c"

text \<open>Receiving from the channel that \<open>Subscribe\<close> returned: \<open>None\<close> while it blocks, \<open>Some None\<close> when
  it is closed and empty.\<close>

definition sub_receive :: "nat \<Rightarrow> client \<Rightarrow> (dap_event option \<times> client) option" where
  "sub_receive i c = (case sub_out (c_subs c ! i) of
      e # es \<Rightarrow> Some (Some e, upd_sub i (\<lambda>s. s\<lparr>sub_out := es\<rparr>) c)
    | [] \<Rightarrow> if sub_done (c_subs c ! i) then Some (None, c) else None)"

subsection \<open>Replay delivers exactly the retained events of the type\<close>

definition retained :: "ev_type \<Rightarrow> int \<Rightarrow> client \<Rightarrow> dap_event list" where
  "retained t since c = map snd (filter (\<lambda>(tm, e). since \<le> tm \<and> ev_typeof e = t)
     (ring_entries (c_ring c)))"

lemma sub_type_offer [simp]: "sub_type (offer e s) = sub_type s"
  by (simp add: offer_def)

lemma replay_fold:
  assumes "length (sub_ch s) + length xs \<le> eventBufSize"
  shows "fold (replay_entry since) (map Some xs) s = s\<lparr>sub_ch := sub_ch s
     @ map snd (filter (\<lambda>(tm, e). since \<le> tm \<and> ev_typeof e = sub_type s) xs)\<rparr>"
  using assms
proof (induction xs arbitrary: s)
  case Nil
  then show ?case by simp
next
  case (Cons x xs)
  obtain tm e where x: "x = (tm, e)" by force
  from Cons.prems have "length (sub_ch s) < eventBufSize" by simp
  with Cons show ?case
    by (auto simp: x replay_entry_def offer_def)
qed

text \<open>C22. A subscription with a starting time delivers, in arrival order and with nothing dropped, exactly
  the events of its type that the ring still holds and that are not older than that time.\<close>

theorem Subscribe_replays_retained:
  assumes "ring_invar (c_ring c)" and "ring_cap (c_ring c) = eventBufSize"
    and "Subscribe t since c = (i, c')"
  shows "sub_ch (c_subs c' ! i) = retained t since c \<and> copy_subs t c' = copy_subs t c @ [i]"
proof -
  have "length (ring_entries (c_ring c)) \<le> eventBufSize"
    using ring.entries_bounded [OF assms(1)] assms(2) by simp
  then have "fold (replay_entry since) (map Some (ring_entries (c_ring c))) (new_subscription t)
      = (new_subscription t)\<lparr>sub_ch := retained t since c\<rparr>"
    by (subst replay_fold) (simp_all add: new_subscription_def retained_def)
  then show ?thesis
    using assms(3) ring_snapshot_entries [OF assms(1)]
    by (auto simp: Subscribe_def sub_snapshot_def sub_register_def sub_replay_def upd_sub_def
        copy_subs_def Let_def)
qed

theorem Subscribe_replays_retained_witness:
  "(let c = push_ring 7 TerminatedEvent (push_ring 5 (StoppedEvent ''step'' 1) (newDAPClientInternal 0 False));
        (i, c') = Subscribe StoppedT 3 c in
      sub_ch (c_subs c' ! i) = [StoppedEvent ''step'' 1])"
proof -
  let ?c = "push_ring 7 TerminatedEvent (push_ring 5 (StoppedEvent ''step'' 1) (newDAPClientInternal 0 False))"
  have h: "ring_invar (c_ring ?c)" "ring_cap (c_ring ?c) = eventBufSize"
    "retained StoppedT 3 ?c = [StoppedEvent ''step'' 1]" by code_simp+
  obtain i c' where s: "Subscribe StoppedT 3 ?c = (i, c')" by force
  from Subscribe_replays_retained [OF h(1,2) s] h(3) show ?thesis by (simp add: s Let_def)
qed

end
