(* ===== verification/ClientSystem.thy ===== *)
theory ClientSystem
  imports EventBus
begin

text \<open>
  The goroutines of \<^verbatim>\<open>DAPClient\<close>: \<open>readLoop\<close> (\<open>pump_step\<close>), \<open>reconnectLoop\<close> with \<open>doReconnect\<close> and
  \<open>notifySessionReconnected\<close> (\<open>recon_step\<close>), the bridges, and any number of callers.  Each step is one
  atomic section, the network and the scheduler are inputs, and \<open>sys_step\<close> interleaves them freely;
  the invariants at the end hold in every reachable state of that system.
\<close>

subsection \<open>readLoop\<close>

datatype pump_in = InMsg dap_msg | InErr err | InGo

definition pump_goto :: "pump_pc \<Rightarrow> client \<Rightarrow> client" where
  "pump_goto pc c = c\<lparr>c_pump := pc\<rparr>"

fun route :: "dap_msg \<Rightarrow> pump_pc" where
  "route (ResponseMessage r) = PRespond r"
| "route (EventMessage e) = PPush e"
| "route (OtherMessage s) = PTop"

definition pump_step :: "pump_in \<Rightarrow> bool \<Rightarrow> int \<Rightarrow> client \<Rightarrow> client" where
  "pump_step inp pick now c = (case c_pump c of
      PNotStarted \<Rightarrow> c
    | PTop \<Rightarrow> if c_ctx_done c then pump_goto PExit c else pump_goto PRead c
    | PRead \<Rightarrow> pump_goto (PReading (c_reader c)) c
    | PReading n \<Rightarrow> (case inp of
          InMsg m \<Rightarrow> pump_goto (route m) c
        | InErr e \<Rightarrow> if c_ctx_done c then pump_goto PExit c else pump_goto (PErrCas e) c
        | InGo \<Rightarrow> c)
    | PRespond r \<Rightarrow> (case take_response (rs_seq r) c of
          (None, c') \<Rightarrow> pump_goto PTop c'
        | (Some a, c') \<Rightarrow> pump_goto (PDeliver a r) c')
    | PDeliver a r \<Rightarrow> (case chan_send a (ResponseMessage r) c of
          Some c' \<Rightarrow> pump_goto PTop c'
        | None \<Rightarrow> c)
    | PPush e \<Rightarrow> pump_goto (PSubs False e) (push_ring now e c)
    | PSubs b e \<Rightarrow> pump_goto (PFan b e (copy_subs (ev_typeof e) c)) c
    | PFan b e is \<Rightarrow> (case is of
          [] \<Rightarrow> pump_goto (if b then PWait else PTop) c
        | i # js \<Rightarrow> pump_goto (PFan b e js) (fan_out e i c))
    | PErrCas e \<Rightarrow> (case stale_cas c of
          (won, c') \<Rightarrow> pump_goto (if won then PErrSignal e else PErrClose e) c')
    | PErrSignal e \<Rightarrow> pump_goto (PErrClose e) (reconn_signal c)
    | PErrClose e \<Rightarrow> pump_goto (PSubs True (ConnectionLostEvent e)) (closeRegistry c)
    | PWait \<Rightarrow>
        if c_ctx_done c \<and> (pick \<or> c_pumpResume c = 0) then pump_goto PExit c
        else if 0 < c_pumpResume c
          then pump_goto PTop (c\<lparr>c_pumpResume := c_pumpResume c - 1\<rparr>)
        else c
    | PExit \<Rightarrow> c)"

subsection \<open>reconnectLoop\<close>

datatype recon_in = DialOk nat | DialNil | DialErr err | HookOk | HookErr err | RGo

definition recon_goto :: "recon_pc \<Rightarrow> client \<Rightarrow> client" where
  "recon_goto pc c = c\<lparr>c_recon := pc\<rparr>"

definition next_backoff :: "int \<Rightarrow> int \<Rightarrow> int" where
  "next_backoff maxB b = (let b2 = wrap64 (b * 2) in if maxB < b2 then maxB else b2)"

definition swap_conn :: "nat \<Rightarrow> client \<Rightarrow> client" where
  "swap_conn n c = c\<lparr>c_rwc := n, c_reader := n\<rparr>"

definition resume_pump :: "client \<Rightarrow> client" where
  "resume_pump c = (if c_pumpResume c < 1 then c\<lparr>c_pumpResume := c_pumpResume c + 1\<rparr> else c)"

text \<open>\<open>replaceConn\<close> run without interruption; \<open>recon_step\<close> performs its three sections one by one.\<close>

definition replaceConn :: "nat \<Rightarrow> client \<Rightarrow> client" where
  "replaceConn n c = resume_pump (closeRegistry (swap_conn n c))"

definition nil_conn_text :: string where
  "nil_conn_text = ''Redial returned nil connection without error''"

definition dial_failed :: "int \<Rightarrow> err \<Rightarrow> client \<Rightarrow> client" where
  "dial_failed b e c = recon_goto (RBackoff b) (c\<lparr>c_lastErr := Some (err_text e)\<rparr>)"

definition recon_step :: "int \<Rightarrow> int \<Rightarrow> recon_in \<Rightarrow> bool \<Rightarrow> client \<Rightarrow> client" where
  "recon_step base maxB inp pick c = (case c_recon c of
      RNotStarted \<Rightarrow> c
    | RWait \<Rightarrow>
        if c_ctx_done c \<and> (pick \<or> c_reconnCh c = 0) then recon_goto RExitCtx c
        else if 0 < c_reconnCh c then
          recon_goto (if c_redialer c then RTop base else RExitNoRedialer)
            (c\<lparr>c_reconnCh := c_reconnCh c - 1\<rparr>)
        else c
    | RTop b \<Rightarrow>
        if c_ctx_done c then recon_goto RWait c
        else recon_goto (RDial b) (c\<lparr>c_attempts := c_attempts c + 1\<rparr>)
    | RDial b \<Rightarrow> (case inp of
          DialOk n \<Rightarrow> recon_goto (RGot n) c
        | DialNil \<Rightarrow> dial_failed b (ErrNew nil_conn_text) c
        | DialErr e \<Rightarrow> dial_failed b e c
        | _ \<Rightarrow> c)
    | RGot n \<Rightarrow> recon_goto (RCheck n) (close_conn (c_rwc c) c)
    | RCheck n \<Rightarrow>
        if c_ctx_done c then recon_goto RWait (close_conn n c) else recon_goto (RSwap n) c
    | RSwap n \<Rightarrow> recon_goto RDrain (swap_conn n c)
    | RDrain \<Rightarrow> recon_goto RResume (closeRegistry c)
    | RResume \<Rightarrow> recon_goto RHook ((resume_pump c)\<lparr>c_lastErr := Some []\<rparr>)
    | RHook \<Rightarrow>
        if c_hook c then (case inp of
            HookOk \<Rightarrow> recon_goto RClear c
          | HookErr e \<Rightarrow> recon_goto RMark c
          | _ \<Rightarrow> c)
        else recon_goto RClear c
    | RMark \<Rightarrow> (case stale_cas c of
          (won, c') \<Rightarrow> recon_goto (if won then RMarkSignal else RClear) c')
    | RMarkSignal \<Rightarrow> recon_goto RClear (reconn_signal c)
    | RClear \<Rightarrow> recon_goto RWait (c\<lparr>c_stale := False\<rparr>)
    | RBackoff b \<Rightarrow>
        if c_ctx_done c \<and> pick then recon_goto RWait c
        else recon_goto (RTop (next_backoff maxB b)) c
    | RExitCtx \<Rightarrow> c
    | RExitNoRedialer \<Rightarrow> c)"

subsection \<open>All goroutines together\<close>

inductive sys_step :: "client \<Rightarrow> client \<Rightarrow> bool" where
  sys_start: "c_pump c = PNotStarted \<Longrightarrow> c_recon c = RNotStarted \<Longrightarrow> sys_step c (Start c)"
| sys_pump: "sys_step c (pump_step inp pick now c)"
| sys_recon: "sys_step c (recon_step base maxB inp' pick c)"
| sys_bridge: "i < length (c_subs c) \<Longrightarrow> sys_step c (bridge_step pick i c)"
| sys_newRequest: "sys_step c (snd (newRequest c))"
| sys_register: "1 \<le> seq \<Longrightarrow> seq < c_seq c \<Longrightarrow> sys_step c (snd (registerResponseIfAbsent seq c))"
| sys_unregister: "sys_step c (unregisterResponse seq c)"
| sys_write: "sys_step c (snd (rawSend w seq cmd c))"
| sys_mark_cas: "stale_cas c = (won, c') \<Longrightarrow>
    sys_step c (if won then c'\<lparr>c_signal := c_signal c' + 1\<rparr> else c')"
| sys_mark_signal: "0 < c_signal c \<Longrightarrow> sys_step c ((reconn_signal c)\<lparr>c_signal := c_signal c - 1\<rparr>)"
| sys_receive: "a < length (c_chans c) \<Longrightarrow> await_receive a c = Some (r, c') \<Longrightarrow> sys_step c c'"
| sys_sub_register: "sys_step c (snd (sub_register t c))"
| sys_sub_replay: "i < length (c_subs c) \<Longrightarrow> sys_step c (sub_replay since entries i c)"
| sys_sub_remove: "i < length (c_subs c) \<Longrightarrow> sys_step c (sub_remove i c)"
| sys_sub_stop: "i < length (c_subs c) \<Longrightarrow> sys_step c (sub_close_stop i c)"
| sys_sub_receive: "i < length (c_subs c) \<Longrightarrow> sub_receive i c = Some (e, c') \<Longrightarrow> sys_step c c'"
| sys_set_hook: "sys_step c (SetReinitHook c)"
| sys_cancel: "sys_step c (c\<lparr>c_ctx_done := True\<rparr>)"
| sys_close: "sys_step c (close_conn n c)"

inductive reachable :: "client \<Rightarrow> bool" where
  reach_init: "reachable (newDAPClientInternal rwc redialer)"
| reach_step: "reachable c \<Longrightarrow> sys_step c c' \<Longrightarrow> reachable c'"

end
