(* ===== verification/ClientInvariants.thy ===== *)
theory ClientInvariants
  imports ClientSystem
begin

text \<open>
  What holds in every reachable state of the client's goroutines.  \<open>stale_inv\<close>: the stale flag is set
  exactly while one wake-up of the reconnect loop is queued, about to be sent, or being served, so no
  wake-up is lost and none is sent twice.  \<open>reg_inv\<close>: every registered response channel is open and
  empty, so a delivery never blocks and never meets a closed channel.  \<open>bus_inv\<close>: subscriptions only
  carry events of their type, within their buffers.
\<close>

subsection \<open>Frame facts\<close>

named_theorems client_frame \<open>fields an operation leaves alone\<close>

lemma fold_frame: "(\<And>x c. f (g x c) = f c) \<Longrightarrow> f (fold g xs c) = f c"
  by (induction xs arbitrary: c) auto

lemma close_rchan_frame [client_frame]:
  "c_stale (close_rchan a c) = c_stale c" "c_reconnCh (close_rchan a c) = c_reconnCh c"
  "c_signal (close_rchan a c) = c_signal c" "c_ctx_done (close_rchan a c) = c_ctx_done c"
  "c_recon (close_rchan a c) = c_recon c" "c_pump (close_rchan a c) = c_pump c"
  "c_seq (close_rchan a c) = c_seq c" "c_ring (close_rchan a c) = c_ring c"
  "c_responses (close_rchan a c) = c_responses c" "c_rwc (close_rchan a c) = c_rwc c"
  "c_subs (close_rchan a c) = c_subs c" "c_subscribers (close_rchan a c) = c_subscribers c"
  "c_pumpResume (close_rchan a c) = c_pumpResume c" "c_attempts (close_rchan a c) = c_attempts c"
  "c_wire (close_rchan a c) = c_wire c" "c_redialer (close_rchan a c) = c_redialer c"
  "c_lastErr (close_rchan a c) = c_lastErr c" "c_hook (close_rchan a c) = c_hook c"
  "c_reader (close_rchan a c) = c_reader c" "c_closed (close_rchan a c) = c_closed c"
  "length (c_chans (close_rchan a c)) = length (c_chans c)"
  by (simp_all add: close_rchan_def)

lemma closeRegistry_frame [client_frame]:
  "c_stale (closeRegistry c) = c_stale c" "c_reconnCh (closeRegistry c) = c_reconnCh c"
  "c_signal (closeRegistry c) = c_signal c" "c_ctx_done (closeRegistry c) = c_ctx_done c"
  "c_recon (closeRegistry c) = c_recon c" "c_pump (closeRegistry c) = c_pump c"
  "c_seq (closeRegistry c) = c_seq c" "c_ring (closeRegistry c) = c_ring c"
  "c_responses (closeRegistry c) = []" "c_rwc (closeRegistry c) = c_rwc c"
  "c_subs (closeRegistry c) = c_subs c" "c_subscribers (closeRegistry c) = c_subscribers c"
  "c_pumpResume (closeRegistry c) = c_pumpResume c" "c_attempts (closeRegistry c) = c_attempts c"
  "c_wire (closeRegistry c) = c_wire c" "c_redialer (closeRegistry c) = c_redialer c"
  "c_lastErr (closeRegistry c) = c_lastErr c" "c_hook (closeRegistry c) = c_hook c"
  "c_reader (closeRegistry c) = c_reader c" "c_closed (closeRegistry c) = c_closed c"
  "length (c_chans (closeRegistry c)) = length (c_chans c)"
  by (simp_all add: closeRegistry_def split_def fold_frame client_frame
      fold_frame [where f = "\<lambda>c. length (c_chans c)"])

lemma fan_out_frame [client_frame]:
  "c_stale (fan_out e i c) = c_stale c" "c_reconnCh (fan_out e i c) = c_reconnCh c"
  "c_signal (fan_out e i c) = c_signal c" "c_ctx_done (fan_out e i c) = c_ctx_done c"
  "c_recon (fan_out e i c) = c_recon c" "c_pump (fan_out e i c) = c_pump c"
  "c_seq (fan_out e i c) = c_seq c" "c_ring (fan_out e i c) = c_ring c"
  "c_responses (fan_out e i c) = c_responses c" "c_chans (fan_out e i c) = c_chans c"
  "c_panic (fan_out e i c) = c_panic c" "c_subscribers (fan_out e i c) = c_subscribers c"
  "length (c_subs (fan_out e i c)) = length (c_subs c)"
  by (simp_all add: fan_out_def upd_sub_def)

subsection \<open>The stale flag and the wake-ups of reconnectLoop\<close>

definition recon_active :: "client \<Rightarrow> bool" where
  "recon_active c \<longleftrightarrow> c_recon c \<notin> {RNotStarted, RWait, RExitCtx}"

definition pump_signalling :: "client \<Rightarrow> bool" where
  "pump_signalling c \<longleftrightarrow> (case c_pump c of PErrSignal _ \<Rightarrow> True | _ \<Rightarrow> False)"

text \<open>How many wake-ups of the reconnect loop are on their way or being served.\<close>

definition wakeups :: "client \<Rightarrow> nat" where
  "wakeups c = c_reconnCh c + c_signal c + of_bool (pump_signalling c) + of_bool (recon_active c)"

definition stale_inv :: "client \<Rightarrow> bool" where
  "stale_inv c \<longleftrightarrow> c_recon c \<noteq> RMarkSignal \<and> wakeups c \<le> of_bool (c_stale c)
     \<and> (\<not> c_ctx_done c \<longrightarrow> wakeups c = of_bool (c_stale c))"

lemma stale_inv_cong:
  assumes "c_recon c' = c_recon c" "pump_signalling c' = pump_signalling c"
    "c_reconnCh c' = c_reconnCh c" "c_signal c' = c_signal c"
    "c_ctx_done c' = c_ctx_done c" "c_stale c' = c_stale c"
  shows "stale_inv c' = stale_inv c"
  using assms by (simp add: stale_inv_def wakeups_def recon_active_def)

fun quiet_pc :: "pump_pc \<Rightarrow> bool" where
  "quiet_pc (PErrSignal e) = False"
| "quiet_pc _ = True"

lemma pump_signalling_iff: "pump_signalling c \<longleftrightarrow> \<not> quiet_pc (c_pump c)"
  by (cases "c_pump c") (simp_all add: pump_signalling_def)

lemma stale_inv_goto: "quiet_pc pc \<Longrightarrow> quiet_pc (c_pump c) \<Longrightarrow> stale_inv (pump_goto pc c) = stale_inv c"
  by (rule stale_inv_cong) (simp_all add: pump_goto_def pump_signalling_iff)

lemma route_quiet: "quiet_pc (route m)"
  by (cases m) simp_all

lemma push_ring_frame [client_frame]:
  "c_stale (push_ring now e c) = c_stale c" "c_reconnCh (push_ring now e c) = c_reconnCh c"
  "c_signal (push_ring now e c) = c_signal c" "c_ctx_done (push_ring now e c) = c_ctx_done c"
  "c_recon (push_ring now e c) = c_recon c" "c_pump (push_ring now e c) = c_pump c"
  "c_seq (push_ring now e c) = c_seq c" "c_responses (push_ring now e c) = c_responses c"
  "c_chans (push_ring now e c) = c_chans c" "c_subs (push_ring now e c) = c_subs c"
  "c_subscribers (push_ring now e c) = c_subscribers c"
  by (simp_all add: push_ring_def split: option.split)

lemma chan_send_frame [client_frame]:
  assumes "chan_send a m c = Some c'"
  shows "c_stale c' = c_stale c" "c_reconnCh c' = c_reconnCh c" "c_signal c' = c_signal c"
    "c_ctx_done c' = c_ctx_done c" "c_recon c' = c_recon c" "c_pump c' = c_pump c"
    "c_seq c' = c_seq c" "c_responses c' = c_responses c" "c_ring c' = c_ring c"
    "c_subs c' = c_subs c" "c_subscribers c' = c_subscribers c" "length (c_chans c') = length (c_chans c)"
  using assms by (auto simp: chan_send_def Let_def split: if_splits)

lemma take_response_frame [client_frame]:
  assumes "take_response seq c = (x, c')"
  shows "c_stale c' = c_stale c" "c_reconnCh c' = c_reconnCh c" "c_signal c' = c_signal c"
    "c_ctx_done c' = c_ctx_done c" "c_recon c' = c_recon c" "c_pump c' = c_pump c"
    "c_seq c' = c_seq c" "c_chans c' = c_chans c" "c_ring c' = c_ring c" "c_panic c' = c_panic c"
    "c_subs c' = c_subs c" "c_subscribers c' = c_subscribers c"
  using assms by (auto simp: take_response_def split: option.splits)

lemma stale_inv_neutral:
  "stale_inv (closeRegistry c) = stale_inv c"
  "stale_inv (fan_out e i c) = stale_inv c"
  "stale_inv (push_ring now e c) = stale_inv c"
  by (rule stale_inv_cong; simp add: client_frame pump_signalling_iff)+

lemma pump_step_stale_inv:
  assumes inv: "stale_inv c"
  shows "stale_inv (pump_step inp pick now c)"
proof (cases "c_pump c")
  case (PRespond r)
  obtain x c' where t: "take_response (rs_seq r) c = (x, c')" by force
  have "stale_inv c' = stale_inv c"
    by (rule stale_inv_cong) (simp_all add: take_response_frame [OF t] pump_signalling_iff)
  then show ?thesis
    using inv PRespond t
    by (simp add: pump_step_def stale_inv_goto take_response_frame [OF t] split: option.split)
next
  case (PDeliver a r)
  show ?thesis
  proof (cases "chan_send a (ResponseMessage r) c")
    case None
    then show ?thesis using inv PDeliver by (simp add: pump_step_def)
  next
    case (Some c')
    have "stale_inv c' = stale_inv c"
      by (rule stale_inv_cong) (simp_all add: chan_send_frame [OF Some] pump_signalling_iff)
    then show ?thesis
      using inv PDeliver Some
      by (simp add: pump_step_def stale_inv_goto chan_send_frame [OF Some])
  qed
next
  case (PErrCas e)
  then show ?thesis
    using inv by (cases "c_stale c") (simp_all add: pump_step_def stale_cas_def pump_goto_def
        stale_inv_def wakeups_def recon_active_def pump_signalling_iff)
next
  case (PErrSignal e)
  then show ?thesis
    using inv by (auto simp: pump_step_def reconn_signal_def pump_goto_def stale_inv_def wakeups_def
        recon_active_def pump_signalling_iff split: if_splits)
next
  case (PErrClose e)
  then show ?thesis
    using inv by (simp add: pump_step_def stale_inv_goto stale_inv_neutral client_frame)
next
  case PWait
  have "stale_inv (c\<lparr>c_pumpResume := n\<rparr>) = stale_inv c" for n
    by (rule stale_inv_cong) (simp_all add: pump_signalling_iff)
  then show ?thesis
    using inv PWait by (simp add: pump_step_def stale_inv_goto)
qed (use inv in \<open>simp_all add: pump_step_def stale_inv_goto stale_inv_neutral client_frame route_quiet
       split: pump_in.split list.split\<close>)

fun idle_pc :: "recon_pc \<Rightarrow> bool" where
  "idle_pc RNotStarted = True"
| "idle_pc RWait = True"
| "idle_pc RExitCtx = True"
| "idle_pc _ = False"

lemma recon_active_iff: "recon_active c \<longleftrightarrow> \<not> idle_pc (c_recon c)"
  by (cases "c_recon c") (simp_all add: recon_active_def)

lemma stale_inv_active:
  assumes "stale_inv c" "\<not> idle_pc (c_recon c)"
  shows "c_stale c" "c_reconnCh c = 0" "c_signal c = 0" "\<not> pump_signalling c"
  using assms by (cases "c_stale c"; simp add: stale_inv_def wakeups_def recon_active_iff)+

lemma stale_inv_activeI:
  assumes "c_stale c" "c_reconnCh c = 0" "c_signal c = 0" "\<not> pump_signalling c"
    "\<not> idle_pc (c_recon c)" "c_recon c \<noteq> RMarkSignal"
  shows "stale_inv c"
  using assms by (simp add: stale_inv_def wakeups_def recon_active_iff)

lemma recon_step_stale_inv:
  assumes inv: "stale_inv c"
  shows "stale_inv (recon_step base maxB inp pick c)"
proof (cases "idle_pc (c_recon c)")
  case True
  show ?thesis
  proof (cases "c_recon c = RWait")
    case wait: True
    then show ?thesis
      using inv
      by (auto simp: recon_step_def recon_goto_def stale_inv_def wakeups_def recon_active_iff
          pump_signalling_iff)
  next
    case False
    with True inv show ?thesis by (cases "c_recon c") (simp_all add: recon_step_def)
  qed
next
  case False
  note act = stale_inv_active [OF inv False]
  have nomark: "c_recon c \<noteq> RMarkSignal" using inv by (simp add: stale_inv_def)
  let ?c' = "recon_step base maxB inp pick c"
  show ?thesis
  proof (cases "idle_pc (c_recon ?c')")
    case True
    have "c_ctx_done c \<or> c_recon c = RClear"
      using True False by (cases "c_recon c")
        (auto simp: recon_step_def recon_goto_def stale_cas_def dial_failed_def split: if_splits recon_in.splits)
    then show ?thesis
      using act True nomark False
      by (cases "c_recon c")
         (auto simp: recon_step_def recon_goto_def stale_cas_def dial_failed_def close_conn_def
           stale_inv_def wakeups_def recon_active_iff pump_signalling_iff split: if_splits recon_in.splits)
  next
    case act': False
    have "c_recon ?c' \<noteq> RMarkSignal"
      using act(1) nomark by (cases "c_recon c")
        (auto simp: recon_step_def recon_goto_def stale_cas_def dial_failed_def split: recon_in.split)
    moreover have "c_reconnCh ?c' = 0 \<and> c_signal ?c' = 0 \<and> \<not> pump_signalling ?c' \<and> c_stale ?c'"
      using act nomark act' False by (cases "c_recon c")
        (auto simp: recon_step_def recon_goto_def stale_cas_def dial_failed_def pump_signalling_iff
          close_conn_def swap_conn_def resume_pump_def client_frame split: recon_in.splits)
    ultimately show ?thesis using act' by (intro stale_inv_activeI) simp_all
  qed
qed


lemma sys_step_stale_inv: "sys_step c c' \<Longrightarrow> stale_inv c \<Longrightarrow> stale_inv c'"
proof (induction rule: sys_step.induct)
  case (sys_start c)
  then show ?case
    by (simp add: Start_def startReadLoop_def stale_inv_def wakeups_def recon_active_iff pump_signalling_iff)
next
  case (sys_pump c inp pick now)
  then show ?case by (rule pump_step_stale_inv)
next
  case (sys_recon c base maxB inp' pick)
  then show ?case by (rule recon_step_stale_inv)
next
  case (sys_mark_cas c won c')
  then show ?case
    by (cases "c_stale c") (auto simp: stale_cas_def stale_inv_def wakeups_def recon_active_iff
        pump_signalling_iff)
next
  case (sys_mark_signal c)
  then show ?case
    by (cases "c_stale c") (auto simp: reconn_signal_def stale_inv_def wakeups_def recon_active_iff
        pump_signalling_iff of_bool_def split: if_splits)
next
  case (sys_receive a c r c')
  have "stale_inv c' = stale_inv c"
    by (rule stale_inv_cong) (use sys_receive in \<open>auto simp: await_receive_def Let_def
        pump_signalling_iff split: list.splits if_splits\<close>)
  then show ?case using sys_receive by simp
next
  case (sys_sub_receive i c e c')
  have "stale_inv c' = stale_inv c"
    by (rule stale_inv_cong) (use sys_sub_receive in \<open>auto simp: sub_receive_def upd_sub_def
        pump_signalling_iff split: list.splits if_splits\<close>)
  then show ?case using sys_sub_receive by simp
next
  case (sys_cancel c)
  then show ?case
    by (simp add: stale_inv_def wakeups_def recon_active_iff pump_signalling_iff)
qed (subst stale_inv_cong; simp add: bridge_step_def upd_sub_def newRequest_def
       registerResponseIfAbsent_def unregisterResponse_def rawSend_def sub_register_def sub_replay_def
       sub_remove_def sub_close_stop_def SetReinitHook_def close_conn_def pump_signalling_iff
       split: option.split)+

lemma init_stale_inv: "stale_inv (newDAPClientInternal rwc redialer)"
  by (simp add: newDAPClientInternal_def stale_inv_def wakeups_def recon_active_iff pump_signalling_iff)

lemma reachable_stale_inv: "reachable c \<Longrightarrow> stale_inv c"
  by (induction rule: reachable.induct) (auto intro: init_stale_inv sys_step_stale_inv)

subsection \<open>The response registry\<close>

definition fresh_chan :: "client \<Rightarrow> nat \<Rightarrow> bool" where
  "fresh_chan c a \<longleftrightarrow> a < length (c_chans c) \<and> c_chans c ! a = new_rchan"

fun deliver_addr :: "pump_pc \<Rightarrow> nat option" where
  "deliver_addr (PDeliver a r) = Some a"
| "deliver_addr _ = None"

definition reg_inv :: "client \<Rightarrow> bool" where
  "reg_inv c \<longleftrightarrow> distinct (map fst (c_responses c)) \<and> distinct (map snd (c_responses c))
     \<and> (\<forall>x \<in> set (c_responses c). fresh_chan c (snd x) \<and> 1 \<le> fst x \<and> fst x < c_seq c)
     \<and> (\<forall>a. deliver_addr (c_pump c) = Some a \<longrightarrow>
          fresh_chan c a \<and> a \<notin> snd ` set (c_responses c))
     \<and> \<not> c_panic c"

lemma reg_invD:
  assumes "reg_inv c"
  shows "distinct (map fst (c_responses c))" "distinct (map snd (c_responses c))"
    "x \<in> set (c_responses c) \<Longrightarrow> fresh_chan c (snd x) \<and> 1 \<le> fst x \<and> fst x < c_seq c"
    "deliver_addr (c_pump c) = Some a \<Longrightarrow> fresh_chan c a \<and> a \<notin> snd ` set (c_responses c)"
    "\<not> c_panic c"
  using assms unfolding reg_inv_def by blast+

lemma reg_inv_cong:
  assumes inv: "reg_inv c" and eq: "c_responses c' = c_responses c" "c_chans c' = c_chans c"
      "c_seq c \<le> c_seq c'" "c_panic c' = c_panic c"
    and pc: "deliver_addr (c_pump c') = deliver_addr (c_pump c) \<or> deliver_addr (c_pump c') = None"
  shows "reg_inv c'"
  unfolding reg_inv_def
proof (intro conjI ballI allI impI)
  fix x assume "x \<in> set (c_responses c')"
  then have "x \<in> set (c_responses c)" by (simp add: eq)
  from reg_invD(3) [OF inv this]
  show "fresh_chan c' (snd x)" "1 \<le> fst x" "fst x < c_seq c'"
    using eq by (simp_all add: fresh_chan_def)
next
  fix a assume "deliver_addr (c_pump c') = Some a"
  then have "deliver_addr (c_pump c) = Some a" using pc by auto
  from reg_invD(4) [OF inv this]
  show "fresh_chan c' a" "a \<notin> snd ` set (c_responses c')"
    by (simp_all add: fresh_chan_def eq)
qed (use reg_invD [OF inv] eq in simp_all)

lemma deliver_addr_route [simp]: "deliver_addr (route m) = None"
  by (cases m) simp_all

lemma alist_update_absent: "map_of xs k = None \<Longrightarrow> AList.update k v xs = xs @ [(k, v)]"
  by (induction xs) (auto split: if_splits)

lemma set_alist_delete: "set (AList.delete k xs) = {x \<in> set xs. fst x \<noteq> k}"
  by (auto simp: AList.delete_eq)

lemma distinct_map_filter_snd: "distinct (map snd xs) \<Longrightarrow> distinct (map snd (AList.delete k xs))"
  by (simp add: AList.delete_eq distinct_map_filter)

lemma fresh_chan_append: "fresh_chan c a \<Longrightarrow> c_chans c' = c_chans c @ [ch] \<Longrightarrow> fresh_chan c' a"
  by (simp add: fresh_chan_def nth_append)

lemma reg_inv_register:
  assumes inv: "reg_inv c" and seq: "1 \<le> seq" "seq < c_seq c"
  shows "reg_inv (snd (registerResponseIfAbsent seq c))"
proof (cases "map_of (c_responses c) seq")
  case None
  let ?c' = "snd (registerResponseIfAbsent seq c)"
  have c': "?c' = c\<lparr>c_responses := c_responses c @ [(seq, length (c_chans c))],
      c_chans := c_chans c @ [new_rchan]\<rparr>"
    using None by (simp add: registerResponseIfAbsent_def alist_update_absent)
  have old: "fresh_chan c a \<Longrightarrow> fresh_chan ?c' a" for a
    by (rule fresh_chan_append) (simp_all add: c')
  have lt: "fresh_chan c a \<Longrightarrow> a < length (c_chans c)" for a by (simp add: fresh_chan_def)
  have new: "fresh_chan ?c' (length (c_chans c))" by (simp add: c' fresh_chan_def)
  show ?thesis
    unfolding reg_inv_def
  proof (intro conjI ballI allI impI)
    show "distinct (map fst (c_responses ?c'))"
      using reg_invD(1) [OF inv] None by (simp add: c' map_of_eq_None_iff)
    show "distinct (map snd (c_responses ?c'))"
      using reg_invD(2,3) [OF inv] lt by (fastforce simp: c')
    show "\<not> c_panic ?c'" using reg_invD(5) [OF inv] by (simp add: c')
  next
    fix x assume "x \<in> set (c_responses ?c')"
    then have "x \<in> set (c_responses c) \<or> x = (seq, length (c_chans c))" by (auto simp: c')
    then have "fresh_chan ?c' (snd x) \<and> 1 \<le> fst x \<and> fst x < c_seq c"
    proof
      assume "x \<in> set (c_responses c)"
      from reg_invD(3) [OF inv this] old show ?thesis by simp
    qed (use new seq in simp)
    then show "fresh_chan ?c' (snd x)" "1 \<le> fst x" "fst x < c_seq ?c'" by (simp_all add: c')
  next
    fix a assume "deliver_addr (c_pump ?c') = Some a"
    then have "deliver_addr (c_pump c) = Some a" by (simp add: c')
    from reg_invD(4) [OF inv this] show "fresh_chan ?c' a" "a \<notin> snd ` set (c_responses ?c')"
      using old lt by (auto simp: c')
  qed
qed (use inv in \<open>simp add: registerResponseIfAbsent_def\<close>)

lemma reg_inv_delete:
  assumes "reg_inv c"
  shows "reg_inv (c\<lparr>c_responses := AList.delete seq (c_responses c)\<rparr>)"
  using assms
  by (auto simp: reg_inv_def set_alist_delete fresh_chan_def distinct_map_filter_snd
      AList.distinct_delete)

lemma close_all:
  assumes "distinct (map snd xs)" "\<forall>x \<in> set xs. fresh_chan c (snd x)"
  shows "c_panic (fold (\<lambda>(s, a). close_rchan a) xs c) = c_panic c
    \<and> (\<forall>a < length (c_chans c). c_chans (fold (\<lambda>(s, a). close_rchan a) xs c) ! a =
         (if a \<in> snd ` set xs then new_rchan\<lparr>rc_closed := True\<rparr> else c_chans c ! a))"
  using assms
proof (induction xs arbitrary: c)
  case Nil
  then show ?case by simp
next
  case (Cons x xs)
  obtain s a where x: "x = (s, a)" by force
  have fa: "fresh_chan c a" using Cons.prems(2) x by simp
  let ?c = "close_rchan a c"
  have c: "c_chans ?c = (c_chans c)[a := new_rchan\<lparr>rc_closed := True\<rparr>]" "c_panic ?c = c_panic c"
    using fa by (simp_all add: close_rchan_def fresh_chan_def new_rchan_def)
  have "\<forall>y \<in> set xs. fresh_chan ?c (snd y)"
    using Cons.prems x by (force simp: fresh_chan_def c nth_list_update)
  from Cons.IH [OF _ this] Cons.prems(1) show ?case
    using fa by (auto simp: x c nth_list_update fresh_chan_def)
qed

lemma closeRegistry_chans:
  assumes "reg_inv c"
  shows "c_panic (closeRegistry c) = c_panic c"
    "a < length (c_chans c) \<Longrightarrow> c_chans (closeRegistry c) ! a =
       (if a \<in> snd ` set (c_responses c) then new_rchan\<lparr>rc_closed := True\<rparr> else c_chans c ! a)"
  using close_all [of "c_responses c" c] assms by (auto simp: closeRegistry_def reg_inv_def)

lemma reg_inv_closeRegistry: "reg_inv c \<Longrightarrow> reg_inv (closeRegistry c)"
  using closeRegistry_chans [of c]
  by (auto simp: reg_inv_def client_frame fresh_chan_def)


lemma take_response_Some:
  "take_response seq c = (Some a, c') \<Longrightarrow>
   (seq, a) \<in> set (c_responses c) \<and> c' = c\<lparr>c_responses := AList.delete seq (c_responses c)\<rparr>"
  by (auto simp: take_response_def split: option.splits dest: map_of_SomeD)

lemma distinct_snd_delete:
  assumes "distinct (map snd xs)" "distinct (map fst xs)" "(k, a) \<in> set xs"
  shows "a \<notin> snd ` set (AList.delete k xs)"
  using assms by (fastforce simp: set_alist_delete distinct_map inj_on_def)

lemma reg_inv_goto:
  "reg_inv c \<Longrightarrow> deliver_addr pc = None \<Longrightarrow> reg_inv (pump_goto pc c)"
  by (rule reg_inv_cong) (simp_all add: pump_goto_def)

lemma fresh_chan_upd: "fresh_chan c b \<Longrightarrow> a \<noteq> b \<Longrightarrow> c_chans c' = (c_chans c)[a := x] \<Longrightarrow> fresh_chan c' b"
  by (simp add: fresh_chan_def)

text \<open>A channel that is not registered may change freely.\<close>

lemma reg_inv_upd_chan:
  assumes inv: "reg_inv c" and a: "a \<notin> snd ` set (c_responses c)"
    and pc: "deliver_addr pc = None \<or> (deliver_addr pc = deliver_addr (c_pump c) \<and> deliver_addr pc \<noteq> Some a)"
  shows "reg_inv (c\<lparr>c_chans := (c_chans c)[a := ch], c_pump := pc\<rparr>)"
  unfolding reg_inv_def
proof (intro conjI ballI allI impI)
  let ?c = "c\<lparr>c_chans := (c_chans c)[a := ch], c_pump := pc\<rparr>"
  fix x assume "x \<in> set (c_responses ?c)"
  then have x: "x \<in> set (c_responses c)" by simp
  then have "a \<noteq> snd x" using a by auto
  with reg_invD(3) [OF inv x] show "fresh_chan ?c (snd x)" "1 \<le> fst x" "fst x < c_seq ?c"
    by (simp_all add: fresh_chan_def)
next
  let ?c = "c\<lparr>c_chans := (c_chans c)[a := ch], c_pump := pc\<rparr>"
  fix b assume "deliver_addr (c_pump ?c) = Some b"
  then have "deliver_addr (c_pump c) = Some b" "a \<noteq> b" using pc by auto
  with reg_invD(4) [OF inv this(1)] show "fresh_chan ?c b" "b \<notin> snd ` set (c_responses ?c)"
    by (simp_all add: fresh_chan_def)
qed (use reg_invD [OF inv] in simp_all)

definition ring_ok :: "client \<Rightarrow> bool" where
  "ring_ok c \<longleftrightarrow> ring_invar (c_ring c) \<and> ring_cap (c_ring c) = eventBufSize"

lemma push_ring_ok:
  assumes "ring_ok c"
  shows "ring_ok (push_ring now e c)" "c_panic (push_ring now e c) = c_panic c"
proof -
  obtain r where r: "ring_push (now, e) (c_ring c) = Some r"
    using assms ring.push_total [of "c_ring c" "(now, e)"] by (auto simp: ring_ok_def)
  then show "c_panic (push_ring now e c) = c_panic c" by (simp add: push_ring_def)
  show "ring_ok (push_ring now e c)"
    using assms r ring.push_invar [OF _ r] ring.push_capacity [OF r]
    by (simp add: ring_ok_def push_ring_def)
qed

lemma pump_step_reg_inv:
  assumes inv: "reg_inv c" and ring: "ring_ok c"
  shows "reg_inv (pump_step inp pick now c)"
proof (cases "c_pump c")
  case (PRespond r)
  obtain x c' where t: "take_response (rs_seq r) c = (x, c')" by force
  show ?thesis
  proof (cases x)
    case None
    then have "c' = c" using t by (auto simp: take_response_def split: option.splits)
    then show ?thesis using inv t PRespond None by (simp add: pump_step_def reg_inv_goto)
  next
    case (Some a)
    have ta: "(rs_seq r, a) \<in> set (c_responses c)"
        "c' = c\<lparr>c_responses := AList.delete (rs_seq r) (c_responses c)\<rparr>"
      using take_response_Some t Some by blast+
    have inv': "reg_inv c'" using reg_inv_delete [OF inv] ta(2) by simp
    have "fresh_chan c a" using reg_invD(3) [OF inv ta(1)] by simp
    then have fa: "fresh_chan (pump_goto (PDeliver a r) c') a"
      by (simp add: pump_goto_def ta(2) fresh_chan_def)
    have "a \<notin> snd ` set (c_responses c')"
      using distinct_snd_delete [OF reg_invD(2,1) [OF inv] ta(1)] by (simp add: ta(2))
    with fa have "reg_inv (pump_goto (PDeliver a r) c')"
      using inv' unfolding reg_inv_def by (simp add: pump_goto_def fresh_chan_def)
    then show ?thesis using t PRespond Some by (simp add: pump_step_def)
  qed
next
  case (PDeliver a r)
  then have a: "fresh_chan c a" "a \<notin> snd ` set (c_responses c)"
    using reg_invD(4) [OF inv] by simp_all
  then obtain ch where "pump_step inp pick now c = c\<lparr>c_chans := (c_chans c)[a := ch], c_pump := PTop\<rparr>"
    using PDeliver
    by (simp add: pump_step_def chan_send_def Let_def fresh_chan_def new_rchan_def rchan_cap_def
        pump_goto_def)
  then show ?thesis using reg_inv_upd_chan [OF inv a(2), of PTop] by simp
next
  case (PPush e)
  have "reg_inv (push_ring now e c)"
    using push_ring_ok(2) [OF ring] by (intro reg_inv_cong [OF inv]) (simp_all add: client_frame)
  then show ?thesis using PPush by (simp add: pump_step_def reg_inv_goto)
next
  case (PFan b e js)
  have "reg_inv (fan_out e i c)" for i
    by (rule reg_inv_cong [OF inv]) (simp_all add: client_frame)
  then show ?thesis using PFan inv by (simp add: pump_step_def reg_inv_goto split: list.split)
next
  case (PErrClose e)
  then show ?thesis
    using inv by (simp add: pump_step_def reg_inv_goto reg_inv_closeRegistry)
next
  case (PErrCas e)
  have "reg_inv (c\<lparr>c_stale := True\<rparr>)" by (rule reg_inv_cong [OF inv]) simp_all
  then show ?thesis using PErrCas inv by (simp add: pump_step_def stale_cas_def reg_inv_goto)
next
  case (PErrSignal e)
  have "reg_inv (reconn_signal c)" by (rule reg_inv_cong [OF inv]) (simp_all add: reconn_signal_def)
  then show ?thesis using PErrSignal by (simp add: pump_step_def reg_inv_goto)
next
  case PWait
  have "reg_inv (c\<lparr>c_pumpResume := n\<rparr>)" for n by (rule reg_inv_cong [OF inv]) simp_all
  then show ?thesis using PWait inv by (simp add: pump_step_def reg_inv_goto)
qed (use inv in \<open>simp_all add: pump_step_def reg_inv_goto split: pump_in.split\<close>)

lemma recon_step_reg_inv:
  assumes inv: "reg_inv c"
  shows "reg_inv (recon_step base maxB inp pick c)"
proof (cases "c_recon c = RDrain")
  case True
  have "reg_inv (recon_goto RResume (closeRegistry c))"
    by (rule reg_inv_cong [OF reg_inv_closeRegistry [OF inv]]) (simp_all add: recon_goto_def)
  with True show ?thesis by (simp add: recon_step_def)
next
  case False
  then show ?thesis
    by (intro reg_inv_cong [OF inv]; cases "c_recon c")
       (auto simp: recon_step_def recon_goto_def close_conn_def dial_failed_def swap_conn_def
          resume_pump_def stale_cas_def reconn_signal_def split: recon_in.split)
qed


lemma await_receive_reg_inv:
  assumes inv: "reg_inv c" and r: "await_receive a c = Some (r, c')"
  shows "reg_inv c'"
proof (cases "rc_buf (c_chans c ! a)")
  case Nil
  then show ?thesis using inv r by (auto simp: await_receive_def Let_def split: if_splits)
next
  case (Cons m ms)
  then have c': "c' = c\<lparr>c_chans := (c_chans c)[a := (c_chans c ! a)\<lparr>rc_buf := ms\<rparr>], c_pump := c_pump c\<rparr>"
    using r by (auto simp: await_receive_def Let_def)
  have nf: "\<not> fresh_chan c a" using Cons by (auto simp: fresh_chan_def new_rchan_def)
  then have "a \<notin> snd ` set (c_responses c)" using reg_invD(3) [OF inv] by auto
  moreover have "deliver_addr (c_pump c) \<noteq> Some a" using reg_invD(4) [OF inv] nf by auto
  ultimately show ?thesis unfolding c' by (intro reg_inv_upd_chan [OF inv]) auto
qed

lemma sub_receive_frame [client_frame]:
  assumes "sub_receive i c = Some (e, c')"
  shows "c_responses c' = c_responses c" "c_chans c' = c_chans c" "c_seq c' = c_seq c"
    "c_panic c' = c_panic c" "c_pump c' = c_pump c" "c_ring c' = c_ring c"
  using assms by (auto simp: sub_receive_def upd_sub_def split: list.splits if_splits)

lemma sys_step_reg_inv:
  "sys_step c c' \<Longrightarrow> reg_inv c \<Longrightarrow> ring_ok c \<Longrightarrow> reg_inv c'"
proof (induction rule: sys_step.induct)
  case (sys_pump c inp pick now)
  then show ?case by (intro pump_step_reg_inv)
next
  case (sys_recon c base maxB inp' pick)
  then show ?case by (intro recon_step_reg_inv)
next
  case (sys_register seq c)
  then show ?case by (intro reg_inv_register)
next
  case (sys_unregister c seq)
  then show ?case unfolding unregisterResponse_def by (intro reg_inv_delete)
next
  case (sys_receive a c r c')
  then show ?case using await_receive_reg_inv by blast
next
  case (sys_sub_receive i c e c')
  then show ?case by (intro reg_inv_cong [of c c']) (simp_all add: sub_receive_frame)
next
  case (sys_mark_cas c won c')
  show ?case
    by (rule reg_inv_cong [OF sys_mark_cas(2)]; use sys_mark_cas(1) in \<open>auto simp: stale_cas_def split: if_splits\<close>)
qed (erule reg_inv_cong; simp add: bridge_step_def upd_sub_def newRequest_def Start_def startReadLoop_def
       rawSend_def sub_register_def sub_replay_def sub_remove_def sub_close_stop_def SetReinitHook_def
       close_conn_def reconn_signal_def split: option.split)+

lemma pump_step_ring_ok: "ring_ok c \<Longrightarrow> ring_ok (pump_step inp pick now c)"
proof (cases "c_pump c")
  case (PRespond r)
  obtain x c' where t: "take_response (rs_seq r) c = (x, c')" by force
  assume "ring_ok c"
  then show ?thesis using PRespond t
    by (simp add: pump_step_def ring_ok_def pump_goto_def take_response_frame [OF t] split: option.split)
next
  case (PDeliver a r)
  assume "ring_ok c"
  then show ?thesis using PDeliver
    by (auto simp: pump_step_def ring_ok_def pump_goto_def chan_send_frame split: option.split)
next
  case (PPush e)
  assume "ring_ok c"
  then show ?thesis using PPush push_ring_ok(1) [of c now e]
    by (simp add: pump_step_def ring_ok_def pump_goto_def)
qed (simp_all add: pump_step_def ring_ok_def pump_goto_def client_frame stale_cas_def reconn_signal_def
      split: pump_in.split list.split)

lemma recon_step_ring: "c_ring (recon_step base maxB inp pick c) = c_ring c"
  by (cases "c_recon c")
     (auto simp: recon_step_def recon_goto_def close_conn_def dial_failed_def swap_conn_def
        resume_pump_def stale_cas_def reconn_signal_def client_frame split: recon_in.split)

lemma sys_step_ring_ok: "sys_step c c' \<Longrightarrow> ring_ok c \<Longrightarrow> ring_ok c'"
proof (induction rule: sys_step.induct)
  case (sys_pump c inp pick now)
  then show ?case by (intro pump_step_ring_ok)
next
  case (sys_receive a c r c')
  then show ?case by (auto simp: ring_ok_def await_receive_def Let_def split: list.splits if_splits)
next
  case (sys_mark_cas c won c')
  then show ?case by (auto simp: ring_ok_def stale_cas_def split: if_splits)
qed (simp_all add: ring_ok_def recon_step_ring sub_receive_frame bridge_step_def upd_sub_def
       newRequest_def Start_def startReadLoop_def rawSend_def sub_register_def sub_replay_def
       sub_remove_def sub_close_stop_def SetReinitHook_def close_conn_def reconn_signal_def
       registerResponseIfAbsent_def unregisterResponse_def split: option.split)

lemma reachable_ring_ok: "reachable c \<Longrightarrow> ring_ok c"
proof (induction rule: reachable.induct)
  case (reach_init rwc redialer)
  then show ?case
    using newEventRing_invar [of eventBufSize]
    by (simp add: ring_ok_def newDAPClientInternal_def eventBufSize_def newEventRing_def)
qed (auto intro: sys_step_ring_ok)

lemma reachable_reg_inv: "reachable c \<Longrightarrow> reg_inv c"
proof (induction rule: reachable.induct)
  case (reach_init rwc redialer)
  then show ?case by (simp add: reg_inv_def newDAPClientInternal_def)
qed (auto intro: sys_step_reg_inv reachable_ring_ok)

subsection \<open>The event bus\<close>

definition sub_queue :: "subscription \<Rightarrow> dap_event list" where
  "sub_queue s = sub_out s @ (case sub_hand s of None \<Rightarrow> [] | Some e \<Rightarrow> [e]) @ sub_ch s"

definition sub_ok :: "subscription \<Rightarrow> bool" where
  "sub_ok s \<longleftrightarrow> length (sub_ch s) \<le> eventBufSize \<and> length (sub_out s) \<le> eventBufSize
     \<and> (\<forall>e \<in> set (sub_queue s). ev_typeof e = sub_type s)"

fun fan_targets :: "pump_pc \<Rightarrow> (ev_type \<times> nat) list" where
  "fan_targets (PFan b e js) = map (\<lambda>j. (ev_typeof e, j)) js"
| "fan_targets _ = []"

definition points_to :: "client \<Rightarrow> ev_type \<times> nat \<Rightarrow> bool" where
  "points_to c x \<longleftrightarrow> snd x < length (c_subs c) \<and> sub_type (c_subs c ! snd x) = fst x"

definition bus_inv :: "client \<Rightarrow> bool" where
  "bus_inv c \<longleftrightarrow> (\<forall>x \<in> set (c_subscribers c) \<union> set (fan_targets (c_pump c)). points_to c x)
     \<and> (\<forall>s \<in> set (c_subs c). sub_ok s)"

lemma bridge_type [simp]: "sub_type (bridge p s) = sub_type s"
  by (simp add: bridge_def drain_def split: option.split list.split)

text \<open>Without a stop the bridge only moves messages; with one it hands over what fits.\<close>

lemma bridge_queue: "\<not> sub_stop s \<Longrightarrow> sub_queue (bridge p s) = sub_queue s"
  by (auto simp: sub_queue_def bridge_def split: option.split list.split)

lemma bridge_queue_subset: "set (sub_queue (bridge p s)) \<subseteq> set (sub_queue s)"
  by (auto simp: sub_queue_def bridge_def drain_def split: option.split list.split dest: in_set_takeD)

lemma bridge_ok: "sub_ok s \<Longrightarrow> sub_ok (bridge p s)"
  unfolding sub_ok_def
proof (intro conjI; elim conjE)
  assume len: "length (sub_ch s) \<le> eventBufSize" "length (sub_out s) \<le> eventBufSize"
  then show "length (sub_ch (bridge p s)) \<le> eventBufSize"
    by (auto simp: bridge_def drain_def split: option.split list.split)
  have "length (sub_out (drain s)) \<le> eventBufSize" using len by (simp add: drain_def)
  then show "length (sub_out (bridge p s)) \<le> eventBufSize"
    using len by (auto simp: bridge_def split: option.split list.split)
next
  assume "\<forall>e\<in>set (sub_queue s). ev_typeof e = sub_type s"
  then show "\<forall>e\<in>set (sub_queue (bridge p s)). ev_typeof e = sub_type (bridge p s)"
    using bridge_queue_subset [of p s] by auto
qed

lemma offer_ok: "sub_ok s \<Longrightarrow> ev_typeof e = sub_type s \<Longrightarrow> sub_ok (offer e s)"
  by (auto simp: sub_ok_def offer_def sub_queue_def split: option.splits)

lemma replay_ok: "sub_ok s \<Longrightarrow> sub_ok (fold (replay_entry since) es s)"
proof (induction es arbitrary: s)
  case (Cons x es)
  have "sub_ok (replay_entry since x s)"
    using Cons.prems by (auto simp: replay_entry_def offer_ok split: option.split)
  then show ?case using Cons.IH by simp
qed simp

lemma replay_type [simp]: "sub_type (fold (replay_entry since) es s) = sub_type s"
proof (induction es arbitrary: s)
  case (Cons x es)
  have "sub_type (replay_entry since x s) = sub_type s"
    by (simp add: replay_entry_def split: option.split)
  with Cons show ?case by simp
qed simp

lemma points_to_upd:
  assumes "points_to c x" "\<And>s. sub_type (f s) = sub_type s"
  shows "points_to (upd_sub i f c) x"
  using assms by (cases "snd x = i") (auto simp: points_to_def upd_sub_def)

lemma bus_inv_upd:
  assumes inv: "bus_inv c" and ty: "\<And>s. sub_type (f s) = sub_type s"
    and i: "i < length (c_subs c)" and ok: "sub_ok (c_subs c ! i) \<Longrightarrow> sub_ok (f (c_subs c ! i))"
  shows "bus_inv (upd_sub i f c)"
proof -
  have "sub_ok (f (c_subs c ! i))" using inv i ok by (simp add: bus_inv_def)
  then have "\<forall>s \<in> set (c_subs (upd_sub i f c)). sub_ok s"
    using inv by (auto simp: bus_inv_def upd_sub_def dest!: subsetD [OF set_update_subset_insert])
  moreover have "\<forall>x \<in> set (c_subscribers c) \<union> set (fan_targets (c_pump c)). points_to (upd_sub i f c) x"
    using inv ty by (auto simp: bus_inv_def intro: points_to_upd)
  ultimately show ?thesis by (auto simp: bus_inv_def upd_sub_def)
qed

lemma bus_inv_cong:
  assumes inv: "bus_inv c" and "c_subs c' = c_subs c" "set (c_subscribers c') \<subseteq> set (c_subscribers c)"
    "set (fan_targets (c_pump c')) \<subseteq> set (fan_targets (c_pump c)) \<union> set (c_subscribers c)"
  shows "bus_inv c'"
  using assms unfolding bus_inv_def points_to_def by (metis (no_types, lifting) Un_iff subset_iff)

lemma fan_targets_copy: "set (fan_targets (PFan b e (copy_subs (ev_typeof e) c))) \<subseteq> set (c_subscribers c)"
  by (auto simp: copy_subs_def)

lemma fan_out_bus_inv:
  assumes inv: "bus_inv c" and pt: "points_to c (ev_typeof e, i)"
  shows "bus_inv (fan_out e i c)"
proof (cases "sub_stop (c_subs c ! i)")
  case False
  then show ?thesis
    using pt bus_inv_upd [OF inv, of "offer e" i] by (simp add: fan_out_def points_to_def offer_ok)
qed (use inv in \<open>simp add: fan_out_def\<close>)

lemma fan_targets_route [simp]: "fan_targets (route m) = []"
  by (cases m) simp_all

lemma pump_step_bus_inv:
  assumes inv: "bus_inv c"
  shows "bus_inv (pump_step inp pick now c)"
proof (cases "c_pump c")
  case (PRespond r)
  obtain x c' where t: "take_response (rs_seq r) c = (x, c')" by force
  show ?thesis
    by (rule bus_inv_cong [OF inv]; use PRespond t in
      \<open>simp add: pump_step_def pump_goto_def take_response_frame [OF t] split: option.split\<close>)
next
  case (PDeliver a r)
  show ?thesis
    by (rule bus_inv_cong [OF inv]; use PDeliver in
      \<open>auto simp: pump_step_def pump_goto_def chan_send_frame split: option.split\<close>)
next
  case (PSubs b e)
  show ?thesis
    by (rule bus_inv_cong [OF inv]; use PSubs fan_targets_copy [of b e c] in
      \<open>simp add: pump_step_def pump_goto_def\<close>)
next
  case (PFan b e js)
  show ?thesis
  proof (cases js)
    case (Cons j ks)
    have "points_to c (ev_typeof e, j)" using inv PFan Cons by (simp add: bus_inv_def)
    then have "bus_inv (fan_out e j c)" by (rule fan_out_bus_inv [OF inv])
    then have "bus_inv (pump_goto (PFan b e ks) (fan_out e j c))"
      by (rule bus_inv_cong) (auto simp: pump_goto_def client_frame PFan Cons)
    then show ?thesis using PFan Cons by (simp add: pump_step_def)
  qed (rule bus_inv_cong [OF inv]; use PFan in \<open>simp add: pump_step_def pump_goto_def\<close>)
qed (rule bus_inv_cong [OF inv]; simp add: pump_step_def pump_goto_def client_frame stale_cas_def
       reconn_signal_def split: pump_in.split)+

lemma recon_step_bus: "c_subs (recon_step base maxB inp pick c) = c_subs c"
  "c_subscribers (recon_step base maxB inp pick c) = c_subscribers c"
  "c_pump (recon_step base maxB inp pick c) = c_pump c"
  by (cases "c_recon c";
      auto simp: recon_step_def recon_goto_def close_conn_def dial_failed_def swap_conn_def
        resume_pump_def stale_cas_def reconn_signal_def client_frame split: recon_in.split)+


lemma points_to_register: "points_to c x \<Longrightarrow> points_to (snd (sub_register t c)) x"
  by (auto simp: points_to_def sub_register_def nth_append)

lemma bus_inv_new_sub:
  assumes inv: "bus_inv c"
  shows "bus_inv (snd (sub_register t c))"
proof -
  let ?c = "snd (sub_register t c)"
  have "points_to ?c (t, length (c_subs c))"
    by (simp add: points_to_def sub_register_def new_subscription_def)
  moreover have "sub_ok (new_subscription t)"
    by (simp add: new_subscription_def sub_ok_def sub_queue_def)
  ultimately show ?thesis
    using inv points_to_register [of c _ t] by (auto simp: bus_inv_def sub_register_def)
qed

lemma extract_subset: "List.extract P xs = Some (ys, y, zs) \<Longrightarrow> set (ys @ zs) \<subseteq> set xs"
  by (auto simp: extract_Some_iff)

lemma sub_receive_ok:
  assumes "bus_inv c" "i < length (c_subs c)" "sub_receive i c = Some (e, c')"
  shows "bus_inv c'"
proof (cases "sub_out (c_subs c ! i)")
  case Nil
  with assms show ?thesis by (auto simp: sub_receive_def split: if_splits)
next
  case (Cons x xs)
  with assms have c': "c' = upd_sub i (\<lambda>s. s\<lparr>sub_out := xs\<rparr>) c" by (simp add: sub_receive_def)
  show ?thesis unfolding c'
    by (rule bus_inv_upd [OF assms(1) _ assms(2)]) (auto simp: sub_ok_def sub_queue_def Cons)
qed

lemma sys_step_bus_inv: "sys_step c c' \<Longrightarrow> bus_inv c \<Longrightarrow> bus_inv c'"
proof (induction rule: sys_step.induct)
  case (sys_pump c inp pick now)
  then show ?case by (rule pump_step_bus_inv)
next
  case (sys_bridge i c pick)
  then show ?case unfolding bridge_step_def by (intro bus_inv_upd) (simp_all add: bridge_ok)
next
  case (sys_sub_register c t)
  then show ?case by (rule bus_inv_new_sub)
next
  case (sys_sub_replay i c since entries)
  then show ?case unfolding sub_replay_def by (intro bus_inv_upd) (simp_all add: replay_ok)
next
  case (sys_sub_stop i c)
  then show ?case unfolding sub_close_stop_def
    by (intro bus_inv_upd) (simp_all add: sub_ok_def sub_queue_def)
next
  case (sys_sub_receive i c e c')
  then show ?case using sub_receive_ok by blast
next
  case (sys_sub_remove i c)
  show ?case
    by (rule bus_inv_cong [OF sys_sub_remove(2)])
       (auto simp: sub_remove_def dest!: extract_subset split: option.split)
next
  case (sys_receive a c r c')
  show ?case
    by (rule bus_inv_cong [OF sys_receive(3)]; use sys_receive(2) in
      \<open>auto simp: await_receive_def Let_def split: list.splits if_splits\<close>)
next
  case (sys_mark_cas c won c')
  show ?case
    by (rule bus_inv_cong [OF sys_mark_cas(2)]; use sys_mark_cas(1) in
      \<open>auto simp: stale_cas_def split: if_splits\<close>)
qed (erule bus_inv_cong; simp add: recon_step_bus newRequest_def Start_def startReadLoop_def rawSend_def
       SetReinitHook_def close_conn_def reconn_signal_def registerResponseIfAbsent_def
       unregisterResponse_def split: option.split)+

lemma reachable_bus_inv: "reachable c \<Longrightarrow> bus_inv c"
proof (induction rule: reachable.induct)
  case (reach_init rwc redialer)
  then show ?case by (simp add: bus_inv_def newDAPClientInternal_def)
qed (auto intro: sys_step_bus_inv)

subsection \<open>Sequence numbers\<close>

lemma pump_step_seq: "c_seq (pump_step inp pick now c) = c_seq c"
proof (cases "c_pump c")
  case (PRespond r)
  obtain x c' where t: "take_response (rs_seq r) c = (x, c')" by force
  then show ?thesis using PRespond
    by (simp add: pump_step_def pump_goto_def take_response_frame [OF t] split: option.split)
next
  case (PDeliver a r)
  then show ?thesis
    by (auto simp: pump_step_def pump_goto_def chan_send_frame split: option.split)
qed (simp_all add: pump_step_def pump_goto_def client_frame stale_cas_def reconn_signal_def
      split: pump_in.split list.split)

lemma recon_step_seq: "c_seq (recon_step base maxB inp pick c) = c_seq c"
  by (cases "c_recon c")
     (auto simp: recon_step_def recon_goto_def close_conn_def dial_failed_def swap_conn_def
        resume_pump_def stale_cas_def reconn_signal_def client_frame split: recon_in.split)

lemma sys_step_seq: "sys_step c c' \<Longrightarrow> c_seq c \<le> c_seq c'"
proof (induction rule: sys_step.induct)
  case (sys_receive a c r c')
  then show ?case by (auto simp: await_receive_def Let_def split: list.splits if_splits)
next
  case (sys_mark_cas c won c')
  then show ?case by (auto simp: stale_cas_def split: if_splits)
qed (simp_all add: pump_step_seq recon_step_seq sub_receive_frame bridge_step_def upd_sub_def
       newRequest_def Start_def startReadLoop_def rawSend_def sub_register_def sub_replay_def
       sub_remove_def sub_close_stop_def SetReinitHook_def close_conn_def reconn_signal_def
       registerResponseIfAbsent_def unregisterResponse_def split: option.split)

lemma sys_steps_seq: "sys_step\<^sup>*\<^sup>* c c' \<Longrightarrow> c_seq c \<le> c_seq c'"
  by (induction rule: rtranclp_induct) (auto dest: sys_step_seq)

lemma sys_steps_reachable: "sys_step\<^sup>*\<^sup>* c c' \<Longrightarrow> reachable c \<Longrightarrow> reachable c'"
  by (induction rule: rtranclp_induct) (auto intro: reach_step)

subsection \<open>Closing is final\<close>

lemma pump_step_ctx_done: "c_ctx_done (pump_step inp pick now c) = c_ctx_done c"
proof (cases "c_pump c")
  case (PRespond r)
  obtain x c' where t: "take_response (rs_seq r) c = (x, c')" by force
  then show ?thesis using PRespond
    by (simp add: pump_step_def pump_goto_def take_response_frame [OF t] split: option.split)
next
  case (PDeliver a r)
  then show ?thesis
    by (auto simp: pump_step_def pump_goto_def chan_send_frame split: option.split)
qed (simp_all add: pump_step_def pump_goto_def client_frame stale_cas_def reconn_signal_def
      split: pump_in.split list.split)

lemma recon_step_ctx_done: "c_ctx_done (recon_step base maxB inp pick c) = c_ctx_done c"
  by (cases "c_recon c")
     (auto simp: recon_step_def recon_goto_def close_conn_def dial_failed_def swap_conn_def
        resume_pump_def stale_cas_def reconn_signal_def client_frame split: recon_in.split)

lemma sys_step_ctx_done: "sys_step c c' \<Longrightarrow> c_ctx_done c \<Longrightarrow> c_ctx_done c'"
proof (induction rule: sys_step.induct)
  case (sys_receive a c r c')
  then show ?case by (auto simp: await_receive_def Let_def split: list.splits if_splits)
next
  case (sys_sub_receive i c e c')
  then show ?case by (auto simp: sub_receive_def upd_sub_def split: list.splits if_splits)
next
  case (sys_mark_cas c won c')
  then show ?case by (auto simp: stale_cas_def split: if_splits)
qed (simp_all add: pump_step_ctx_done recon_step_ctx_done sub_receive_frame bridge_step_def upd_sub_def
       newRequest_def Start_def startReadLoop_def rawSend_def sub_register_def sub_replay_def
       sub_remove_def sub_close_stop_def SetReinitHook_def close_conn_def reconn_signal_def
       registerResponseIfAbsent_def unregisterResponse_def split: option.split)

lemma sys_steps_ctx_done: "sys_step\<^sup>*\<^sup>* c c' \<Longrightarrow> c_ctx_done c \<Longrightarrow> c_ctx_done c'"
  by (induction rule: rtranclp_induct) (auto dest: sys_step_ctx_done)

end
