(* ===== verification/ClientProperties.thy ===== *)
theory ClientProperties
  imports ClientInvariants
begin

text \<open>
  What the goroutines of \<^verbatim>\<open>DAPClient\<close> guarantee together, and where they do not: delivery of responses,
  the wake-up protocol of the stale flag, sequence numbers, the reconnect loop with its backoff, the
  subscriptions as queues, and the races between \<open>readLoop\<close>, \<open>reconnectLoop\<close> and the callers.  Every
  property speaks of the reachable states of \<open>sys_step\<close>; the runs used as witnesses are reachable.
\<close>

subsection \<open>Concrete runs\<close>

text \<open>A started client with a hook and a Redialer, and the same client after allocating and registering
  its first request; \<open>run_pump\<close> and \<open>run_recon\<close> feed a goroutine a list of inputs.\<close>

definition run_pump :: "pump_in list \<Rightarrow> client \<Rightarrow> client" where
  "run_pump ins c = fold (\<lambda>i. pump_step i False 0) ins c"

definition run_recon :: "int \<Rightarrow> int \<Rightarrow> recon_in list \<Rightarrow> client \<Rightarrow> client" where
  "run_recon base maxB ins c = fold (\<lambda>i. recon_step base maxB i False) ins c"

definition demo_start :: client where
  "demo_start = Start (SetReinitHook (newDAPClientInternal 0 True))"

definition demo_request :: client where
  "demo_request = snd (registerResponseIfAbsent 1 (snd (newRequest demo_start)))"

definition demo_response :: response where
  "demo_response = \<lparr>rs_seq = 1, rs_success = True, rs_message = [], rs_body = OtherR ''threads''\<rparr>"

lemma reachable_run_pump: "reachable c \<Longrightarrow> reachable (run_pump ins c)"
  unfolding run_pump_def
  by (induction ins arbitrary: c) (auto intro: reach_step sys_pump)

lemma reachable_run_recon: "reachable c \<Longrightarrow> reachable (run_recon base maxB ins c)"
  unfolding run_recon_def
  by (induction ins arbitrary: c) (auto intro: reach_step sys_recon)

lemma reachable_demo_start: "reachable demo_start"
  unfolding demo_start_def
  by (rule reach_step [OF reach_step [OF reach_init sys_set_hook] sys_start])
     (simp_all add: SetReinitHook_def newDAPClientInternal_def)

lemma reachable_demo_request: "reachable demo_request"
  unfolding demo_request_def
  by (rule reach_step [OF reach_step [OF reachable_demo_start sys_newRequest] sys_register])
     (simp_all add: demo_start_def Start_def startReadLoop_def SetReinitHook_def newRequest_def
       newDAPClientInternal_def)

text \<open>\<open>markStale\<close> is its two sections in a row.\<close>

lemma reachable_markStale:
  assumes "reachable c" "c_signal c = 0" shows "reachable (markStale c)"
proof (cases "c_stale c")
  case True
  with assms show ?thesis by (simp add: markStale_def stale_cas_def)
next
  case False
  let ?d = "c\<lparr>c_stale := True, c_signal := 1\<rparr>"
  have "sys_step c ?d"
    using sys_mark_cas [of c True "c\<lparr>c_stale := True\<rparr>"] False assms(2) by (simp add: stale_cas_def)
  moreover have "sys_step ?d ((reconn_signal ?d)\<lparr>c_signal := 0\<rparr>)"
    using sys_mark_signal [of ?d] by simp
  moreover have "(reconn_signal ?d)\<lparr>c_signal := 0\<rparr> = markStale c"
    using False assms(2) by (cases c) (simp add: markStale_def stale_cas_def reconn_signal_def)
  ultimately show ?thesis using assms(1) by (metis reach_step)
qed

definition demo_hook :: client where
  "demo_hook = run_recon 1 30 [RGo, RGo, DialOk 1, RGo, RGo, RGo, RGo, RGo] (markStale demo_start)"

lemma reachable_demo_hook: "reachable demo_hook"
  unfolding demo_hook_def
  by (intro reachable_run_recon reachable_markStale reachable_demo_start)
     (simp add: demo_start_def Start_def startReadLoop_def SetReinitHook_def newDAPClientInternal_def)

subsection \<open>Properties of the interleaved system\<close>

text \<open>C1. In every reachable state of the client's goroutines no Go panic has happened, and when readLoop is
  about to hand a response over, the send on the response channel goes through at once and does not panic.\<close>

theorem delivery_never_blocks_or_panics:
  assumes "reachable c"
  shows "\<not> c_panic c \<and> (\<forall>a r. c_pump c = PDeliver a r \<longrightarrow>
    (\<exists>c'. chan_send a (ResponseMessage r) c = Some c' \<and> \<not> c_panic c'
       \<and> await_receive a c' \<noteq> None))"
proof (intro conjI allI impI)
  note inv = reachable_reg_inv [OF assms]
  show "\<not> c_panic c" by (rule reg_invD(5) [OF inv])
  fix a r assume "c_pump c = PDeliver a r"
  then have "fresh_chan c a" using reg_invD(4) [OF inv, of a] by simp
  then show "\<exists>c'. chan_send a (ResponseMessage r) c = Some c' \<and> \<not> c_panic c'
       \<and> await_receive a c' \<noteq> None"
    using reg_invD(5) [OF inv]
    by (simp add: chan_send_def Let_def fresh_chan_def new_rchan_def rchan_cap_def await_receive_def)
qed

theorem delivery_never_blocks_or_panics_witness:
  "(let c = run_pump [InGo, InGo, InMsg (ResponseMessage demo_response), InGo] demo_request in
    c_pump c = PDeliver 0 demo_response \<and> \<not> c_panic c
    \<and> (\<exists>c'. chan_send 0 (ResponseMessage demo_response) c = Some c' \<and> \<not> c_panic c'))"
proof -
  let ?c = "run_pump [InGo, InGo, InMsg (ResponseMessage demo_response), InGo] demo_request"
  have "c_pump ?c = PDeliver 0 demo_response" by code_simp
  with delivery_never_blocks_or_panics [OF reachable_run_pump [OF reachable_demo_request]]
  show ?thesis unfolding Let_def by blast
qed



text \<open>C16. When the re-initialisation hook fails after a reconnect, the retry mark finds the flag already set and
  does nothing, and the next step clears the flag: the loop ends up waiting with no wake-up pending.\<close>

theorem failed_reinit_is_not_retried:
  assumes "reachable c" and "c_recon c = RHook" and "c_hook c"
    and "c1 = recon_step b m (HookErr e) p c" and "c2 = recon_step b m RGo p c1"
    and "c3 = recon_step b m RGo p c2"
  shows "c_recon c3 = RWait \<and> \<not> c_stale c3 \<and> wakeups c3 = 0"
proof -
  have "\<not> idle_pc (c_recon c)" using assms(2) by simp
  note act = stale_inv_active [OF reachable_stale_inv [OF assms(1)] this]
  have c1: "c1 = c\<lparr>c_recon := RMark\<rparr>" using assms by (simp add: recon_step_def recon_goto_def)
  have c2: "c2 = c\<lparr>c_recon := RClear\<rparr>"
    using act(1) unfolding assms(5) c1 by (simp add: recon_step_def recon_goto_def stale_cas_def)
  have "c3 = c\<lparr>c_recon := RWait, c_stale := False\<rparr>"
    unfolding assms(6) c2 by (simp add: recon_step_def recon_goto_def)
  then show ?thesis using act by (simp add: wakeups_def pump_signalling_iff recon_active_iff)
qed

theorem failed_reinit_is_not_retried_witness:
  "c_recon demo_hook = RHook \<and>
   c_recon (run_recon 1 30 [HookErr DeadlineExceeded, RGo, RGo] demo_hook) = RWait \<and>
   \<not> c_stale (run_recon 1 30 [HookErr DeadlineExceeded, RGo, RGo] demo_hook)"
proof -
  have h: "c_recon demo_hook = RHook" "c_hook demo_hook" by code_simp+
  from failed_reinit_is_not_retried [OF reachable_demo_hook h refl refl refl,
      where e = DeadlineExceeded and p = False and b = 1 and m = 30]
  show ?thesis using h(1) by (simp add: run_recon_def)
qed



text \<open>C21. Closing the registry releases every waiter: each channel that was registered now reports
  ErrConnectionStale at once, no panic occurs, and nothing stays registered.\<close>

theorem closeRegistry_releases_waiters:
  assumes "reachable c" and "await_lookup seq c = Some a"
  shows "await_receive a (closeRegistry c) = Some (Inl ErrConnectionStale, closeRegistry c)
    \<and> await_lookup seq (closeRegistry c) = None \<and> \<not> c_panic (closeRegistry c)"
proof -
  note inv = reachable_reg_inv [OF assms(1)]
  have mem: "(seq, a) \<in> set (c_responses c)" using assms(2) by (auto simp: await_lookup_def dest: map_of_SomeD)
  then have "a < length (c_chans c)" using reg_invD(3) [OF inv] by (fastforce simp: fresh_chan_def)
  moreover have "a \<in> snd ` set (c_responses c)" using mem by force
  ultimately have "c_chans (closeRegistry c) ! a = new_rchan\<lparr>rc_closed := True\<rparr>"
    using closeRegistry_chans(2) [OF inv] by simp
  then show ?thesis
    using closeRegistry_chans(1) [OF inv] reg_invD(5) [OF inv]
    by (simp add: await_receive_def await_lookup_def new_rchan_def client_frame)
qed

theorem closeRegistry_releases_waiters_witness:
  "await_lookup 1 demo_request = Some 0
   \<and> await_receive 0 (closeRegistry demo_request) = Some (Inl ErrConnectionStale, closeRegistry demo_request)"
proof -
  have h: "await_lookup 1 demo_request = Some 0" by code_simp
  from closeRegistry_releases_waiters [OF reachable_demo_request h] h show ?thesis by blast
qed

text \<open>C24. Subscriptions are type-safe and bounded: every event a subscription holds, or has ready for its
  reader, is of the subscribed type, and neither buffer exceeds its capacity.\<close>

theorem subscriptions_typed_and_bounded:
  assumes "reachable c" and "s \<in> set (c_subs c)"
  shows "(\<forall>e \<in> set (sub_out s) \<union> set (sub_ch s). ev_typeof e = sub_type s)
    \<and> length (sub_ch s) \<le> 64 \<and> length (sub_out s) \<le> 64"
  using reachable_bus_inv [OF assms(1)] assms(2)
  by (auto simp: bus_inv_def sub_ok_def sub_queue_def eventBufSize_def)


theorem subscriptions_typed_and_bounded_witness:
  "(let c = snd (sub_register StoppedT demo_start) in
    c_subs c = [new_subscription StoppedT] \<and> length (sub_ch (new_subscription StoppedT)) \<le> 64)"
proof -
  let ?c = "snd (sub_register StoppedT demo_start)"
  have r: "reachable ?c" by (rule reach_step [OF reachable_demo_start sys_sub_register])
  have s: "c_subs ?c = [new_subscription StoppedT]" by code_simp
  from subscriptions_typed_and_bounded [OF r, of "new_subscription StoppedT"] s show ?thesis
    unfolding Let_def by (metis list.set_intros(1))
qed

subsection \<open>Reconnecting\<close>

lemma next_backoff_double:
  assumes "0 < b" "b \<le> maxB" "maxB < 2 ^ 62"
  shows "next_backoff maxB b = min (2 * b) maxB"
proof -
  have "in_int64 (b * 2)"
    using assms by (simp add: in_int64_def int64_min_def int64_max_def)
  then show ?thesis by (simp add: next_backoff_def wrap64_id Let_def min_def)
qed

definition dial_failures :: "err list \<Rightarrow> recon_in list" where
  "dial_failures es = concat (map (\<lambda>e. [RGo, DialErr e, RGo]) es)"

lemma run_recon_append: "run_recon base maxB (xs @ ys) c = run_recon base maxB ys (run_recon base maxB xs c)"
  by (simp add: run_recon_def)

lemma one_dial_failure:
  assumes "c_recon c = RTop b" "\<not> c_ctx_done c"
  shows "run_recon base maxB [RGo, DialErr e, RGo] c = c\<lparr>c_recon := RTop (next_backoff maxB b),
     c_attempts := c_attempts c + 1, c_lastErr := Some (err_text e)\<rparr>"
  using assms by (simp add: run_recon_def recon_step_def recon_goto_def dial_failed_def)

text \<open>C17. Exponential backoff: after any number of failed redials the wait has doubled that often and is capped,
  one attempt has been counted per failure, the last error is reported, and the client is still stale.\<close>

theorem backoff_doubles_to_cap:
  assumes "c_recon c = RTop b" and "\<not> c_ctx_done c" and "0 < b" and "b \<le> maxB" and "maxB < 2 ^ 62"
    and "c' = run_recon base maxB (dial_failures es) c"
  shows "c_recon c' = RTop (min (b * 2 ^ length es) maxB)
    \<and> c_attempts c' = c_attempts c + of_nat (length es)
    \<and> c_lastErr c' = (if es = [] then c_lastErr c else Some (err_text (last es)))
    \<and> c_stale c' = c_stale c \<and> c_rwc c' = c_rwc c"
  using assms
proof (induction es arbitrary: c b c')
  case Nil
  then show ?case by (simp add: dial_failures_def run_recon_def)
next
  case (Cons e es)
  let ?d = "run_recon base maxB [RGo, DialErr e, RGo] c"
  note d = one_dial_failure [OF Cons.prems(1,2), of base maxB e]
  have b': "next_backoff maxB b = min (2 * b) maxB"
    by (rule next_backoff_double) (use Cons.prems in simp_all)
  have c': "c' = run_recon base maxB (dial_failures es) ?d"
    using Cons.prems(6) by (simp add: dial_failures_def flip: run_recon_append)
  have IH: "c_recon c' = RTop (min (min (2 * b) maxB * 2 ^ length es) maxB)
    \<and> c_attempts c' = c_attempts ?d + of_nat (length es)
    \<and> c_lastErr c' = (if es = [] then c_lastErr ?d else Some (err_text (last es)))
    \<and> c_stale c' = c_stale ?d \<and> c_rwc c' = c_rwc ?d"
    by (rule Cons.IH [OF _ _ _ _ Cons.prems(5) c']) (use Cons.prems in \<open>simp_all add: d b'\<close>)
  have "min (min (2 * b) maxB * 2 ^ length es) maxB = min (2 * b * 2 ^ length es) maxB"
  proof (cases "2 * b \<le> maxB")
    case False
    have "maxB * 1 \<le> maxB * 2 ^ length es" using Cons.prems by (intro mult_left_mono) simp_all
    moreover have "maxB * 2 ^ length es \<le> 2 * b * 2 ^ length es"
      using False by (intro mult_right_mono) simp_all
    ultimately have "maxB \<le> 2 * b * 2 ^ length es" by linarith
    then show ?thesis using False \<open>maxB * 1 \<le> _\<close> by (simp add: min_def)
  qed simp
  with IH show ?case by (simp add: d ac_simps)
qed

theorem backoff_doubles_to_cap_witness:
  "c_recon (run_recon 1 30 (dial_failures [DeadlineExceeded, Canceled, Canceled])
      (run_recon 1 30 [RGo] (markStale demo_start))) = RTop 8"
proof -
  let ?c = "run_recon 1 30 [RGo] (markStale demo_start)"
  have h: "c_recon ?c = RTop 1" "\<not> c_ctx_done ?c" by code_simp+
  have n: "(0::int) < 1" "(1::int) \<le> 30" "(30::int) < 2 ^ 62" by simp_all
  note run = backoff_doubles_to_cap [OF h n refl, of 1 "[DeadlineExceeded, Canceled, Canceled]"]
  have "RTop (min (1 * 2 ^ length [DeadlineExceeded, Canceled, Canceled]) 30) = RTop 8" by simp
  with run [THEN conjunct1] show ?thesis by (rule trans)
qed

text \<open>The bookkeeping of the control location commutes with the sections of a reconnect.\<close>

lemma goto_simps:
  "c_recon (recon_goto pc c) = pc" "recon_goto pc (recon_goto pc' c) = recon_goto pc c"
  "c_ctx_done (recon_goto pc c) = c_ctx_done c" "c_rwc (recon_goto pc c) = c_rwc c"
  "c_hook (recon_goto pc c) = c_hook c"
  "close_conn n (recon_goto pc c) = recon_goto pc (close_conn n c)"
  "swap_conn n (recon_goto pc c) = recon_goto pc (swap_conn n c)"
  "resume_pump (recon_goto pc c) = recon_goto pc (resume_pump c)"
  "(recon_goto pc c)\<lparr>c_lastErr := e\<rparr> = recon_goto pc (c\<lparr>c_lastErr := e\<rparr>)"
  "(recon_goto pc c)\<lparr>c_stale := b\<rparr> = recon_goto pc (c\<lparr>c_stale := b\<rparr>)"
  by (cases c, simp add: recon_goto_def close_conn_def swap_conn_def resume_pump_def)+

lemma closeRegistry_goto: "closeRegistry (recon_goto pc c) = recon_goto pc (closeRegistry c)"
proof -
  have "fold (\<lambda>(seq, a). close_rchan a) xs (recon_goto pc d)
      = recon_goto pc (fold (\<lambda>(seq, a). close_rchan a) xs d)" for xs :: "(int \<times> nat) list" and d
  proof (induction xs arbitrary: d)
    case (Cons x xs)
    have "close_rchan (snd x) (recon_goto pc d) = recon_goto pc (close_rchan (snd x) d)"
      by (cases d) (simp add: close_rchan_def recon_goto_def)
    with Cons show ?case by (simp add: case_prod_beta)
  qed simp
  moreover have "c_responses (recon_goto pc c) = c_responses c"
    "\<And>d. (recon_goto pc d)\<lparr>c_responses := []\<rparr> = recon_goto pc (d\<lparr>c_responses := []\<rparr>)"
    by (simp_all add: recon_goto_def)
  ultimately show ?thesis by (simp only: closeRegistry_def)
qed

lemma recon_moves:
  "\<not> c_ctx_done c \<Longrightarrow> c_recon c = RDial b \<Longrightarrow> recon_step base m (DialOk n) p c = recon_goto (RGot n) c"
  "recon_step base m i p (recon_goto (RGot n) c) = recon_goto (RCheck n) (close_conn (c_rwc c) c)"
  "\<not> c_ctx_done c \<Longrightarrow> recon_step base m i p (recon_goto (RCheck n) c) = recon_goto (RSwap n) c"
  "recon_step base m i p (recon_goto (RSwap n) c) = recon_goto RDrain (swap_conn n c)"
  "recon_step base m i p (recon_goto RDrain c) = recon_goto RResume (closeRegistry c)"
  "recon_step base m i p (recon_goto RResume c) = recon_goto RHook ((resume_pump c)\<lparr>c_lastErr := Some []\<rparr>)"
  "c_hook c \<Longrightarrow> recon_step base m HookOk p (recon_goto RHook c) = recon_goto RClear c"
  "recon_step base m i p (recon_goto RClear c) = recon_goto RWait (c\<lparr>c_stale := False\<rparr>)"
  by (simp_all add: recon_step_def goto_simps closeRegistry_goto)

lemma conn_frame:
  "c_ctx_done (close_conn n c) = c_ctx_done c" "c_hook (close_conn n c) = c_hook c"
  "c_hook (swap_conn n c) = c_hook c" "c_hook (resume_pump c) = c_hook c"
  by (simp_all add: close_conn_def swap_conn_def resume_pump_def)

lemma reconnect_run_eq:
  assumes "c_recon c = RDial b" "\<not> c_ctx_done c" "c_hook c"
  shows "run_recon base maxB [DialOk n, RGo, RGo, RGo, RGo, RGo, HookOk, RGo] c =
     recon_goto RWait ((resume_pump (closeRegistry (swap_conn n (close_conn (c_rwc c) c))))
       \<lparr>c_lastErr := Some [], c_stale := False\<rparr>)"
  using assms by (simp add: run_recon_def recon_moves conn_frame client_frame)



subsection \<open>Races\<close>

text \<open>C27. A response that readLoop dispatches before AwaitResponse has looked its channel up is lost: the registry
  entry is gone, and the waiter finds nothing to wait on although the response sits in a channel.\<close>

theorem early_response_is_lost:
  assumes "reachable c" and "await_lookup seq c = Some a" and "rs_seq r = seq"
  shows "\<exists>c'. dispatchResponse r c = Some c' \<and> rc_buf (c_chans c' ! a) = [ResponseMessage r]
    \<and> await_lookup seq c' = None"
proof -
  note inv = reachable_reg_inv [OF assms(1)]
  have "(seq, a) \<in> set (c_responses c)" using assms(2) by (auto simp: await_lookup_def dest: map_of_SomeD)
  then have "fresh_chan c a" using reg_invD(3) [OF inv] by fastforce
  then show ?thesis
    using assms(2,3)
    by (auto simp: dispatchResponse_def take_response_def await_lookup_def chan_send_def Let_def
        fresh_chan_def new_rchan_def rchan_cap_def delete_conv)
qed

theorem early_response_is_lost_witness:
  "\<exists>c'. dispatchResponse demo_response demo_request = Some c'
    \<and> rc_buf (c_chans c' ! 0) = [ResponseMessage demo_response] \<and> await_lookup 1 c' = None"
proof -
  have h: "await_lookup 1 demo_request = Some 0" "rs_seq demo_response = 1" by code_simp+
  show ?thesis by (rule early_response_is_lost [OF reachable_demo_request h])
qed

text \<open>C28. Subscribe takes its snapshot before it registers.  An event that readLoop pushes and fans out between
  the two is in the ring, but the new subscription gets only what the ring held at the snapshot.\<close>

theorem event_in_subscribe_gap_is_lost:
  assumes "reachable c" and "c1 = dispatchEvent now e c" and "sub_register t c1 = (i, c2)"
    and "c3 = sub_replay since (sub_snapshot c) i c2"
  shows "sub_ch (c_subs c3 ! i) = retained t since c \<and> last (ring_entries (c_ring c3)) = (now, e)"
proof -
  have ring: "ring_invar (c_ring c)" "ring_cap (c_ring c) = eventBufSize"
    using reachable_ring_ok [OF assms(1)] by (simp_all add: ring_ok_def)
  have frame: "c_ring (fold (fan_out e) xs d) = c_ring d" for xs d
    by (induction xs arbitrary: d) (simp_all add: fan_out_def upd_sub_def)
  obtain r where r: "ring_push (now, e) (c_ring c) = Some r" using ring_push_total [OF ring(1)] by blast
  have last: "last (ring_entries r) = (now, e)"
    using ring.push_keeps_recent [OF ring(1) r] ring(2) by (simp add: eventBufSize_def)
  have "c_ring c1 = r" by (simp add: assms(2) dispatchEvent_def Let_def frame push_ring_def r)
  then have "c_ring c3 = r"
    using assms(3,4) by (auto simp: sub_register_def sub_replay_def upd_sub_def)
  moreover have "length (ring_entries (c_ring c)) \<le> eventBufSize"
    using ring.entries_bounded [OF ring(1)] ring(2) by simp
  then have "fold (replay_entry since) (map Some (ring_entries (c_ring c))) (new_subscription t)
      = (new_subscription t)\<lparr>sub_ch := retained t since c\<rparr>"
    by (subst replay_fold) (simp_all add: new_subscription_def retained_def)
  then have "sub_ch (c_subs c3 ! i) = retained t since c"
    using assms(3,4) ring_snapshot_entries [OF ring(1)]
    by (auto simp: sub_snapshot_def sub_register_def sub_replay_def upd_sub_def)
  ultimately show ?thesis by (simp add: last)
qed

theorem event_in_subscribe_gap_is_lost_witness:
  "(let c1 = dispatchEvent 5 (StoppedEvent ''breakpoint'' 1) demo_start;
        c3 = sub_replay 0 (sub_snapshot demo_start) 0 (snd (sub_register StoppedT c1)) in
     sub_ch (c_subs c3 ! 0) = [] \<and> last (ring_entries (c_ring c3)) = (5, StoppedEvent ''breakpoint'' 1))"
proof -
  let ?c1 = "dispatchEvent 5 (StoppedEvent ''breakpoint'' 1) demo_start"
  have r: "sub_register StoppedT ?c1 = (0, snd (sub_register StoppedT ?c1))" by code_simp
  have "retained StoppedT 0 demo_start = []" by code_simp
  with event_in_subscribe_gap_is_lost [OF reachable_demo_start refl r refl, of 0]
  show ?thesis by (simp add: Let_def)
qed

text \<open>C26. A read error of the old transport that readLoop handles only after the reconnect loop has installed the
  new one closes the registry again: the requests of the running re-initialisation, already written to the new
  transport, are failed with ErrConnectionStale.\<close>

theorem late_read_error_kills_reinit:
  assumes "reachable c" and "c_pump c = PReading n" and "c_recon c = RHook" and "\<not> c_ctx_done c"
    and "await_lookup seq c = Some a"
    and "c' = run_pump [InErr e, InGo, InGo] c"
  shows "await_receive a c' = Some (Inl ErrConnectionStale, c') \<and> await_lookup seq c' = None
    \<and> c_pump c' = PSubs True (ConnectionLostEvent e) \<and> c_rwc c' = c_rwc c \<and> c_recon c' = RHook"
proof -
  have "\<not> idle_pc (c_recon c)" using assms(3) by simp
  note act = stale_inv_active [OF reachable_stale_inv [OF assms(1)] this]
  let ?d = "c\<lparr>c_pump := PErrClose e\<rparr>"
  have inv: "reg_inv ?d"
    by (rule reg_inv_cong [OF reachable_reg_inv [OF assms(1)]]) simp_all
  have e: "c' = pump_goto (PSubs True (ConnectionLostEvent e)) (closeRegistry ?d)"
    using assms(2,4) act(1) by (simp add: assms(6) run_pump_def pump_step_def pump_goto_def stale_cas_def)
  have mem: "(seq, a) \<in> set (c_responses ?d)" using assms(5) by (auto simp: await_lookup_def dest: map_of_SomeD)
  then have "a < length (c_chans ?d)" using reg_invD(3) [OF inv] by (fastforce simp: fresh_chan_def)
  moreover have "a \<in> snd ` set (c_responses ?d)" using mem by force
  ultimately have "c_chans (closeRegistry ?d) ! a = new_rchan\<lparr>rc_closed := True\<rparr>"
    using closeRegistry_chans(2) [OF inv] by simp
  then show ?thesis
    using assms(3) by (simp add: e pump_goto_def await_receive_def await_lookup_def new_rchan_def client_frame)
qed

definition demo_reinit :: client where
  "demo_reinit = snd (registerResponseIfAbsent 1 (snd (newRequest
     (run_recon 1 30 [RGo, RGo, DialOk 1, RGo, RGo, RGo, RGo, RGo]
        (markStale (run_pump [InGo, InGo] demo_start))))))"

lemma reachable_demo_reinit: "reachable demo_reinit"
proof -
  let ?c = "run_pump [InGo, InGo] demo_start"
  have s: "c_signal ?c = 0" by code_simp
  let ?d = "run_recon 1 30 [RGo, RGo, DialOk 1, RGo, RGo, RGo, RGo, RGo] (markStale ?c)"
  have "reachable ?d" by (intro reachable_run_recon reachable_markStale s reachable_run_pump reachable_demo_start)
  then have "reachable (snd (newRequest ?d))" by (rule reach_step) (rule sys_newRequest)
  moreover have "1 < c_seq (snd (newRequest ?d))" by code_simp
  ultimately show ?thesis
    unfolding demo_reinit_def by (meson reach_step sys_register order_refl)
qed

theorem late_read_error_kills_reinit_witness:
  "c_rwc demo_reinit = 1 \<and> await_lookup 1 demo_reinit = Some 0
   \<and> await_lookup 1 (run_pump [InErr Canceled, InGo, InGo] demo_reinit) = None"
proof -
  have h: "c_pump demo_reinit = PReading 0" "c_recon demo_reinit = RHook" "\<not> c_ctx_done demo_reinit"
    "await_lookup 1 demo_reinit = Some 0" and k: "c_rwc demo_reinit = 1" by code_simp+
  from late_read_error_kills_reinit [OF reachable_demo_reinit h refl, of Canceled] h k show ?thesis by blast
qed

subsection \<open>One subscription as a queue\<close>

text \<open>The life of an open subscription between its publisher, its bridge and its reader: what was
  accepted, what was delivered.\<close>

datatype sub_op = OpOffer dap_event | OpBridge bool | OpTake

fun sub_run :: "sub_op list \<Rightarrow> subscription \<Rightarrow> dap_event list \<times> dap_event list \<times> subscription" where
  "sub_run [] s = ([], [], s)"
| "sub_run (OpOffer e # ops) s =
     (let (acc, del, s') = sub_run ops (offer e s)
      in (if length (sub_ch s) < eventBufSize then e # acc else acc, del, s'))"
| "sub_run (OpBridge p # ops) s = sub_run ops (bridge p s)"
| "sub_run (OpTake # ops) s =
     (case sub_out s of
        [] \<Rightarrow> sub_run ops s
      | e # es \<Rightarrow> (let (acc, del, s') = sub_run ops (s\<lparr>sub_out := es\<rparr>) in (acc, e # del, s')))"

lemma bridge_stop [simp]: "sub_stop (bridge p s) = sub_stop s"
  by (simp add: bridge_def drain_def split: option.split list.split)

text \<open>C23. An open subscription is a lossless FIFO for what its buffer accepted: whatever the interleaving of
  publisher, bridge and reader, what was delivered followed by what is still queued is what was queued before
  followed by what was accepted.\<close>

theorem subscription_is_fifo:
  assumes "\<not> sub_stop s" and "sub_run ops s = (accepted, delivered, s')"
  shows "sub_queue s @ accepted = delivered @ sub_queue s'"
  using assms
proof (induction ops s arbitrary: accepted delivered rule: sub_run.induct)
  case (1 s)
  then show ?case by simp
next
  case (2 e ops s)
  obtain acc where r: "sub_run ops (offer e s) = (acc, delivered, s')"
    "accepted = (if length (sub_ch s) < eventBufSize then e # acc else acc)"
    using "2.prems"(2) by (auto split: prod.splits)
  have "sub_queue (offer e s) @ acc = delivered @ sub_queue s'"
    by (rule "2.IH") (use "2.prems"(1) r(1) in \<open>simp_all add: offer_def\<close>)
  then show ?case by (cases "sub_hand s") (auto simp: r(2) offer_def sub_queue_def)
next
  case (3 p ops s)
  then show ?case by (simp add: bridge_queue)
next
  case (4 ops s)
  show ?case
  proof (cases "sub_out s")
    case Nil
    with 4 show ?thesis by simp
  next
    case (Cons e es)
    with "4.prems"(2) obtain del where r: "sub_run ops (s\<lparr>sub_out := es\<rparr>) = (accepted, del, s')"
      "delivered = e # del" by (auto split: prod.splits)
    have "sub_queue (s\<lparr>sub_out := es\<rparr>) @ accepted = del @ sub_queue s'"
      by (rule "4.IH"(2) [OF Cons]) (use "4.prems"(1) r(1) in simp_all)
    then show ?thesis by (simp add: r(2) sub_queue_def Cons)
  qed
qed

theorem subscription_is_fifo_witness:
  "sub_run [OpOffer TerminatedEvent, OpBridge False, OpOffer TerminatedEvent, OpBridge False, OpTake]
      (new_subscription TerminatedT)
    = ([TerminatedEvent, TerminatedEvent], [TerminatedEvent],
       (new_subscription TerminatedT)\<lparr>sub_ch := [TerminatedEvent]\<rparr>)
   \<and> sub_queue (new_subscription TerminatedT) @ [TerminatedEvent, TerminatedEvent]
     = [TerminatedEvent] @ sub_queue ((new_subscription TerminatedT)\<lparr>sub_ch := [TerminatedEvent]\<rparr>)"
proof -
  have h: "\<not> sub_stop (new_subscription TerminatedT)"
    "sub_run [OpOffer TerminatedEvent, OpBridge False, OpOffer TerminatedEvent, OpBridge False, OpTake]
      (new_subscription TerminatedT)
    = ([TerminatedEvent, TerminatedEvent], [TerminatedEvent],
       (new_subscription TerminatedT)\<lparr>sub_ch := [TerminatedEvent]\<rparr>)" by code_simp+
  with subscription_is_fifo [OF h] show ?thesis by blast
qed

text \<open>A bridge that holds a message while its output is full does not see the stop.\<close>

lemma full_bridge_ignores_stop:
  "sub_hand s = Some e \<Longrightarrow> eventBufSize \<le> length (sub_out s) \<Longrightarrow> bridge p (s\<lparr>sub_stop := True\<rparr>) = s\<lparr>sub_stop := True\<rparr>"
  by (simp add: bridge_def)

subsection \<open>Responses reach the request they answer\<close>

definition bufs :: "client \<Rightarrow> dap_msg list list" where
  "bufs c = map rc_buf (c_chans c)"

fun deliver_to :: "pump_pc \<Rightarrow> (nat \<times> int) option" where
  "deliver_to (PDeliver a r) = Some (a, rs_seq r)"
| "deliver_to _ = None"

text \<open>\<open>os\<close> says for which request each response channel was made.\<close>

definition routed :: "int list \<Rightarrow> client \<Rightarrow> bool" where
  "routed os c \<longleftrightarrow> length os = length (bufs c)
     \<and> (\<forall>x \<in> set (c_responses c). snd x < length os \<and> os ! snd x = fst x)
     \<and> (\<forall>a < length os. \<forall>m \<in> set (bufs c ! a). \<exists>r. m = ResponseMessage r \<and> rs_seq r = os ! a)
     \<and> (\<forall>a s. deliver_to (c_pump c) = Some (a, s) \<longrightarrow> a < length os \<and> os ! a = s)"

lemma routed_cong:
  assumes "routed os c" "set (c_responses c') \<subseteq> set (c_responses c)" "bufs c' = bufs c"
    "deliver_to (c_pump c') = deliver_to (c_pump c) \<or> deliver_to (c_pump c') = None"
  shows "routed os c'"
  unfolding routed_def
proof (intro conjI ballI)
  fix x assume "x \<in> set (c_responses c')"
  then have "x \<in> set (c_responses c)" using assms(2) by blast
  then show "snd x < length os" "os ! snd x = fst x" using assms(1) unfolding routed_def by blast+
qed (use assms(1,3,4) in \<open>auto simp: routed_def\<close>)

lemma bufs_close: "bufs (close_rchan a c) = bufs c"
proof (rule nth_equalityI)
  fix i assume "i < length (bufs (close_rchan a c))"
  then have "i < length (c_chans c)" by (simp add: bufs_def client_frame)
  then show "bufs (close_rchan a c) ! i = bufs c ! i"
    by (cases "i = a") (auto simp: bufs_def close_rchan_def)
qed (simp add: bufs_def close_rchan_def)

lemma bufs_closeRegistry: "bufs (closeRegistry c) = bufs c"
proof -
  have "bufs (fold (\<lambda>(seq, a). close_rchan a) xs d) = bufs d" for xs :: "(int \<times> nat) list" and d
    by (induction xs arbitrary: d) (simp_all add: case_prod_beta bufs_close)
  then show ?thesis by (simp add: closeRegistry_def bufs_def)
qed

lemma bufs_cong: "c_chans c' = c_chans c \<Longrightarrow> bufs c' = bufs c"
  by (simp add: bufs_def)

lemma bufs_goto: "bufs (c\<lparr>c_recon := pc\<rparr>) = bufs c"
  by (simp add: bufs_def)

lemma bufs_update: "bufs (c\<lparr>c_chans := (c_chans c)[a := ch]\<rparr>) = (bufs c)[a := rc_buf ch]"
  by (simp add: bufs_def map_update)

lemma deliver_to_route [simp]: "deliver_to (route m) = None"
  by (cases m) simp_all

lemma routed_goto: "routed os c \<Longrightarrow> deliver_to pc = None \<Longrightarrow> routed os (pump_goto pc c)"
  by (rule routed_cong) (simp_all add: pump_goto_def bufs_def)

lemma fan_out_chans [simp]: "bufs (fan_out e i c) = bufs c" "c_responses (fan_out e i c) = c_responses c"
  "c_pump (fan_out e i c) = c_pump c"
  by (simp_all add: bufs_def client_frame)

lemma push_ring_chans [simp]: "bufs (push_ring now e c) = bufs c"
  by (simp add: bufs_def client_frame)

lemma routed_take:
  assumes "routed os c" "take_response s c = (Some a, c')"
  shows "a < length os \<and> os ! a = s \<and> routed os c'"
proof -
  have "map_of (c_responses c) s = Some a" and c': "c' = c\<lparr>c_responses := AList.delete s (c_responses c)\<rparr>"
    using assms(2) by (auto simp: take_response_def split: option.splits)
  then have "(s, a) \<in> set (c_responses c)" by (auto dest: map_of_SomeD)
  moreover have "routed os c'"
    by (rule routed_cong [OF assms(1)]) (auto simp: c' set_alist_delete bufs_def)
  ultimately show ?thesis using assms(1) by (auto simp: routed_def)
qed

lemma routed_send:
  assumes "routed os c" "c_pump c = PDeliver a r" "chan_send a (ResponseMessage r) c = Some c'"
  shows "routed os c'"
proof -
  have own: "a < length os" "os ! a = rs_seq r" using assms(1,2) by (simp_all add: routed_def)
  have len: "length (bufs c) = length os" using assms(1) by (simp add: routed_def)
  have c': "c_responses c' = c_responses c" "c_pump c' = c_pump c"
    using chan_send_frame [OF assms(3)] by simp_all
  have "bufs c' = bufs c \<or> bufs c' = (bufs c)[a := bufs c ! a @ [ResponseMessage r]]"
    using assms(3) own(1) len by (auto simp: chan_send_def Let_def bufs_def map_update split: if_splits)
  then show ?thesis
  proof
    assume "bufs c' = bufs c" then show ?thesis by (intro routed_cong [OF assms(1)]) (simp_all add: c')
  next
    assume b: "bufs c' = (bufs c)[a := bufs c ! a @ [ResponseMessage r]]"
    show ?thesis
      using assms(1) own len unfolding routed_def b c' by (auto simp: nth_list_update)
  qed
qed

lemma pump_step_routed:
  assumes inv: "routed os c"
  shows "routed os (pump_step inp pick now c)"
proof (cases "c_pump c")
  case (PRespond r)
  obtain x c' where t: "take_response (rs_seq r) c = (x, c')" by force
  show ?thesis
  proof (cases x)
    case None
    then have "c' = c" using t by (auto simp: take_response_def split: option.splits)
    with None t PRespond inv show ?thesis by (simp add: pump_step_def routed_goto)
  next
    case (Some a)
    from routed_take [OF inv] t Some have "a < length os \<and> os ! a = rs_seq r \<and> routed os c'" by simp
    then have "routed os (pump_goto (PDeliver a r) c')" by (auto simp: routed_def pump_goto_def bufs_def)
    with Some t PRespond show ?thesis by (simp add: pump_step_def)
  qed
next
  case (PDeliver a r)
  show ?thesis
  proof (cases "chan_send a (ResponseMessage r) c")
    case None then show ?thesis using PDeliver inv by (simp add: pump_step_def)
  next
    case (Some c')
    with routed_send [OF inv PDeliver Some] PDeliver show ?thesis by (simp add: pump_step_def routed_goto)
  qed
next
  case (PErrClose e)
  have "routed os (closeRegistry c)"
    by (rule routed_cong [OF inv]) (simp_all add: bufs_closeRegistry client_frame)
  with PErrClose show ?thesis by (simp add: pump_step_def routed_goto)
next
  case (PPush e)
  have "routed os (push_ring now e c)" by (rule routed_cong [OF inv]) (simp_all add: client_frame)
  with PPush show ?thesis by (simp add: pump_step_def routed_goto)
next
  case (PFan b e "is")
  have "routed os (fan_out e i c)" for i by (rule routed_cong [OF inv]) simp_all
  with PFan inv show ?thesis by (simp add: pump_step_def routed_goto split: list.split)
next
  case (PErrCas e)
  have "routed os (snd (stale_cas c))" by (rule routed_cong [OF inv]) (simp_all add: stale_cas_def bufs_def)
  with PErrCas show ?thesis by (simp add: pump_step_def case_prod_beta routed_goto)
next
  case (PErrSignal e)
  have "routed os (reconn_signal c)" by (rule routed_cong [OF inv]) (simp_all add: reconn_signal_def bufs_def)
  with PErrSignal show ?thesis by (simp add: pump_step_def routed_goto)
next
  case PWait
  have "routed os (c\<lparr>c_pumpResume := n\<rparr>)" for n by (rule routed_cong [OF inv]) (simp_all add: bufs_def)
  with PWait inv show ?thesis by (simp add: pump_step_def routed_goto)
qed (use inv in \<open>simp_all add: pump_step_def routed_goto split: pump_in.split\<close>)

lemma recon_step_frame:
  assumes "c_recon c \<noteq> RDrain"
  shows "c_responses (recon_step base maxB inp pick c) = c_responses c"
    "c_chans (recon_step base maxB inp pick c) = c_chans c"
    "c_pump (recon_step base maxB inp pick c) = c_pump c"
  using assms
  by (cases "c_recon c"; auto simp: recon_step_def recon_goto_def close_conn_def dial_failed_def swap_conn_def
       resume_pump_def stale_cas_def reconn_signal_def split: recon_in.split)+

lemma recon_step_routed:
  assumes inv: "routed os c"
  shows "routed os (recon_step base maxB inp pick c)"
proof (cases "c_recon c")
  case RDrain
  have "routed os (recon_goto RResume (closeRegistry c))"
    by (rule routed_cong [OF inv])
       (simp_all add: recon_goto_def client_frame bufs_goto bufs_closeRegistry)
  with RDrain show ?thesis by (simp add: recon_step_def)
qed (rule routed_cong [OF inv]; simp add: recon_step_frame bufs_def)+

lemma sys_step_routed: "sys_step c c' \<Longrightarrow> routed os c \<Longrightarrow> \<exists>ext. routed (os @ ext) c'"
proof (induction rule: sys_step.induct)
  case (sys_register seq c)
  show ?case
  proof (cases "map_of (c_responses c) seq = None")
    case False
    then show ?thesis using sys_register
      by (intro exI [of _ "[]"]) (simp add: registerResponseIfAbsent_def)
  next
    case True
    let ?c = "snd (registerResponseIfAbsent seq c)"
    have b: "bufs ?c = bufs c @ [[]]" "c_pump ?c = c_pump c"
      "c_responses ?c = c_responses c @ [(seq, length (bufs c))]"
      using True by (simp_all add: registerResponseIfAbsent_def bufs_def new_rchan_def alist_update_absent)
    have "routed (os @ [seq]) ?c"
      using sys_register.prems unfolding routed_def b by (fastforce simp: nth_append less_Suc_eq)
    then show ?thesis by blast
  qed
next
  case (sys_receive a c r c')
  have c': "c_responses c' = c_responses c" "c_pump c' = c_pump c"
    using sys_receive.hyps by (auto simp: await_receive_def Let_def split: list.splits if_splits)
  have "\<exists>ms. bufs c' = (bufs c)[a := ms] \<and> set ms \<subseteq> set (bufs c ! a)"
  proof (cases "rc_buf (c_chans c ! a)")
    case Nil
    with sys_receive.hyps have "c' = c" by (auto simp: await_receive_def Let_def split: if_splits)
    then show ?thesis by (intro exI [of _ "bufs c ! a"]) simp
  next
    case (Cons m ms)
    with sys_receive.hyps show ?thesis
      by (intro exI [of _ ms]) (auto simp: await_receive_def Let_def bufs_def map_update)
  qed
  then obtain ms where ms: "bufs c' = (bufs c)[a := ms]" "set ms \<subseteq> set (bufs c ! a)" by blast
  have sub: "set (bufs c' ! b) \<subseteq> set (bufs c ! b)" for b
    using ms by (cases "b = a"; cases "a < length (bufs c)") (auto simp: list_update_beyond)
  have "routed (os @ []) c'"
    using sys_receive.prems sub by (fastforce simp: routed_def c' ms(1))
  then show ?case by blast
next
  case (sys_pump c inp pick now)
  then show ?case using pump_step_routed by (metis append_Nil2)
next
  case (sys_recon c base maxB inp' pick)
  then show ?case using recon_step_routed by (metis append_Nil2)
next
  case (sys_mark_cas c won c')
  then have "routed os (if won then c'\<lparr>c_signal := c_signal c' + 1\<rparr> else c')"
    by (intro routed_cong [OF sys_mark_cas.prems]) (auto simp: stale_cas_def bufs_def split: if_splits)
  then show ?case by (metis append_Nil2)
next
  case (sys_sub_receive i c e c')
  then have "routed os c'"
    by (intro routed_cong [OF sys_sub_receive.prems])
       (auto simp: sub_receive_def upd_sub_def bufs_def split: list.splits if_splits)
  then show ?case by (metis append_Nil2)
next
  case (sys_start c)
  then have "routed os (Start c)"
    by (intro routed_cong [OF sys_start.prems]) (auto simp: Start_def startReadLoop_def bufs_def)
  then show ?case by (metis append_Nil2)
qed (intro exI [of _ "[]"]; simp; rule routed_cong; assumption?;
     auto simp: bridge_step_def upd_sub_def newRequest_def rawSend_def sub_register_def sub_replay_def
       sub_remove_def sub_close_stop_def SetReinitHook_def close_conn_def reconn_signal_def
       unregisterResponse_def set_alist_delete bufs_def split: option.split)+

lemma sys_steps_routed: "sys_step\<^sup>*\<^sup>* c c' \<Longrightarrow> routed os c \<Longrightarrow> \<exists>ext. routed (os @ ext) c'"
proof (induction rule: rtranclp_induct)
  case base
  then show ?case by (intro exI [of _ "[]"]) simp
next
  case (step y z)
  then show ?case using sys_step_routed by (metis append.assoc)
qed

lemma reachable_routed: "reachable c \<Longrightarrow> \<exists>os. routed os c"
proof (induction rule: reachable.induct)
  case (reach_init rwc redialer)
  have "routed [] (newDAPClientInternal rwc redialer)"
    by (simp add: routed_def newDAPClientInternal_def bufs_def)
  then show ?case by blast
next
  case (reach_step c c')
  then show ?case using sys_step_routed by blast
qed

text \<open>A caller that looked up the channel of its request and later receives from it, whatever happened in
  between, gets the response to that very request.\<close>

lemma response_matches:
  assumes "reachable c" and "await_lookup seq c = Some a" and "sys_step\<^sup>*\<^sup>* c c'"
    and "await_receive a c' = Some (Inr msg, c'')"
  shows "\<exists>r. msg = ResponseMessage r \<and> rs_seq r = seq"
proof -
  obtain os where os: "routed os c" using reachable_routed [OF assms(1)] by blast
  have "(seq, a) \<in> set (c_responses c)" using assms(2) by (auto simp: await_lookup_def dest: map_of_SomeD)
  then have a: "a < length os" "os ! a = seq" using os by (auto simp: routed_def)
  obtain ext where ext: "routed (os @ ext) c'" using sys_steps_routed [OF assms(3) os] by blast
  then have len: "a < length (c_chans c')" using a(1) by (simp add: routed_def bufs_def)
  have "msg \<in> set (bufs c' ! a)"
    using assms(4) len by (auto simp: await_receive_def Let_def bufs_def split: list.splits if_splits)
  moreover have "a < length (os @ ext)" "(os @ ext) ! a = seq" using a by (simp_all add: nth_append)
  ultimately show ?thesis using ext unfolding routed_def by metis
qed

end
