(* ===== verification/Backend.thy ===== *)
theory Backend
  imports Messages
begin

text \<open>
  The debugger back ends of \<^verbatim>\<open>backend.go\<close> and \<^verbatim>\<open>connect_backend.go\<close>: how a DAP server is started or found,
  and the argument maps of the launch, core and attach requests.  The interface \<^verbatim>\<open>DebuggerBackend\<close> is a
  locale; what the operating system and the network answer are inputs.  Go maps are association lists.
\<close>

subsection \<open>Outcomes of starting a server\<close>

text \<open>What \<^verbatim>\<open>os/exec\<close> answers, and the bytes the process prints before its output ends with an error
  (\<^verbatim>\<open>io.EOF\<close> included).\<close>

record exec_env =
  ex_stdin :: "err option"
  ex_stdout :: "err option"
  ex_start :: "err option"
  ex_output :: string
  ex_eof :: err
  ex_cwd :: string

text \<open>A successful \<open>Spawn\<close> says whether there is a process and gives the listen address; a failure says
  whether a process had been started and was killed again.\<close>

datatype spawned = Spawned bool string | SpawnFailed bool err

datatype backend = Delve | Gdb string | Connect string int

subsection \<open>delveBackend\<close>

text \<open>\<^verbatim>\<open>ReadString\<close> up to a newline: the line with its newline and the rest, \<open>None\<close> when the output ends first.\<close>

fun read_line :: "string \<Rightarrow> (string \<times> string) option" where
  "read_line [] = None"
| "read_line (c # cs) = (if c = CHR 0x0A then Some ([c], cs)
     else map_option (\<lambda>(l, r). (c # l, r)) (read_line cs))"

lemma read_line_shorter: "read_line s = Some (l, r) \<Longrightarrow> length r < length s"
  by (induction s arbitrary: l r) (auto split: if_splits)

lemma read_line_append: "CHR 0x0A \<notin> set l \<Longrightarrow> read_line (l @ CHR 0x0A # r) = Some (l @ [CHR 0x0A], r)"
  by (induction l) auto

definition listen_prefix :: string where
  "listen_prefix = ''DAP server listening at''"

definition parse_listen :: "string \<Rightarrow> string" where
  "parse_listen s = (let parts = split_n2 s '': '' in
     if length parts = 2 then trim_space (parts ! 1) else [])"

text \<open>The loop over the lines of the process: \<open>None\<close> when the output ends before the announcement.\<close>

function await_listen :: "string \<Rightarrow> string option" where
  "await_listen out = (case read_line out of
      None \<Rightarrow> None
    | Some (s, rest) \<Rightarrow> if has_prefix s listen_prefix then Some (parse_listen s) else await_listen rest)"
  by pat_completeness auto
termination by (relation "measure length") (auto dest: read_line_shorter)

declare await_listen.simps [simp del]

definition delve_Spawn :: "exec_env \<Rightarrow> spawned" where
  "delve_Spawn ex = (case ex_stdout ex of
      Some e \<Rightarrow> SpawnFailed False e
    | None \<Rightarrow> (case ex_start ex of
        Some e \<Rightarrow> SpawnFailed False e
      | None \<Rightarrow> (case await_listen (ex_output ex) of
          None \<Rightarrow> SpawnFailed True (ex_eof ex)
        | Some addr \<Rightarrow>
            if addr = [] then SpawnFailed True (ErrNew ''failed to parse DAP server listen address'')
            else Spawned True addr)))"

definition delve_LaunchArgs :: "string \<Rightarrow> string \<Rightarrow> bool \<Rightarrow> string list \<Rightarrow> err + jargs" where
  "delve_LaunchArgs mode programPath stopOnEntry programArgs =
     (let mk = (\<lambda>dlvMode. [(''request'', JStr ''launch''), (''mode'', JStr dlvMode),
                   (''program'', JStr programPath), (''stopOnEntry'', JBool stopOnEntry)]
                 @ (if programArgs \<noteq> [] then [(''args'', JStrs programArgs)] else []))
      in if mode = ''source'' then Inr (mk ''debug'')
         else if mode = ''binary'' then Inr (mk ''exec'')
         else Inl (ErrNew (''unsupported launch mode for delve: '' @ mode)))"

definition delve_CoreArgs :: "string \<Rightarrow> string \<Rightarrow> err + jargs" where
  "delve_CoreArgs programPath coreFilePath = Inr [(''request'', JStr ''launch''), (''mode'', JStr ''core''),
     (''program'', JStr programPath), (''coreFilePath'', JStr coreFilePath)]"

definition delve_AttachArgs :: "int \<Rightarrow> err + jargs" where
  "delve_AttachArgs processID = Inr [(''request'', JStr ''attach''), (''mode'', JStr ''local''),
     (''processId'', JInt processID)]"

subsection \<open>gdbBackend\<close>

definition gdb_binary :: "string \<Rightarrow> string" where
  "gdb_binary path = (if path = [] then ''gdb'' else path)"

definition gdb_Spawn :: "exec_env \<Rightarrow> spawned" where
  "gdb_Spawn ex = (case ex_stdin ex of
      Some e \<Rightarrow> SpawnFailed False (ErrWrap ''failed to create stdin pipe: '' e)
    | None \<Rightarrow> (case ex_stdout ex of
        Some e \<Rightarrow> SpawnFailed False (ErrWrap ''failed to create stdout pipe: '' e)
      | None \<Rightarrow> (case ex_start ex of
          Some e \<Rightarrow> SpawnFailed False (ErrWrapThen ''failed to start gdb: '' e '' (is GDB 14+ installed?)'')
        | None \<Rightarrow> Spawned True [])))"

definition gdb_LaunchArgs :: "string \<Rightarrow> string \<Rightarrow> string \<Rightarrow> bool \<Rightarrow> string list \<Rightarrow> err + jargs" where
  "gdb_LaunchArgs cwd mode programPath stopOnEntry programArgs =
     (if mode = ''source''
      then Inl (ErrNew ''GDB does not support 'source' mode. Compile your program with debug symbols (gcc -g -O0) and use 'binary' mode instead'')
      else Inr ([(''program'', JStr programPath), (''cwd'', JStr cwd),
                 (''stopAtBeginningOfMainSubprogram'', JBool stopOnEntry)]
               @ (if programArgs \<noteq> [] then [(''args'', JStrs programArgs)] else [])))"

definition gdb_CoreArgs :: "string \<Rightarrow> string \<Rightarrow> err + jargs" where
  "gdb_CoreArgs programPath coreFilePath = Inr [(''program'', JStr programPath), (''coreFile'', JStr coreFilePath)]"

definition gdb_AttachArgs :: "int \<Rightarrow> err + jargs" where
  "gdb_AttachArgs processID = Inr [(''pid'', JInt processID)]"

subsection \<open>ConnectBackend\<close>

definition connect_Spawn :: "string \<Rightarrow> spawned" where
  "connect_Spawn addr = (if addr = [] then SpawnFailed False (ErrNew ''ConnectBackend: Addr is empty'')
     else Spawned False addr)"

definition connect_LaunchArgs :: "err + jargs" where
  "connect_LaunchArgs = Inl (ErrNew (''ConnectBackend: launch mode not supported; use attach mode with remote DAP server that was started with 'dlv --headless ... exec /binary --continue'' @ [CHR 0x27]))"

definition connect_CoreArgs :: "err + jargs" where
  "connect_CoreArgs = Inl (ErrNew ''ConnectBackend: core mode not supported'')"

definition connect_AttachArgs :: "int \<Rightarrow> err + jargs" where
  "connect_AttachArgs processID = Inr [(''request'', JStr ''attach''), (''mode'', JStr ''remote'')]"

definition redial_timeout :: "int \<Rightarrow> int" where
  "redial_timeout dialTimeout = (if dialTimeout = 0 then 5 * 10 ^ 9 else dialTimeout)"

text \<open>\<open>Redial\<close>, with the network as a parameter: timeout and address to a transport or an error.\<close>

definition Redial :: "(int \<Rightarrow> string \<Rightarrow> nat + err) \<Rightarrow> string \<Rightarrow> int \<Rightarrow> nat + err" where
  "Redial dial addr dialTimeout = (case dial (redial_timeout dialTimeout) addr of
      Inr e \<Rightarrow> Inr (ErrWrap ''ConnectBackend.Redial: '' e)
    | Inl conn \<Rightarrow> Inl conn)"

subsection \<open>The interface\<close>

fun Spawn :: "backend \<Rightarrow> exec_env \<Rightarrow> spawned" where
  "Spawn Delve ex = delve_Spawn ex"
| "Spawn (Gdb p) ex = gdb_Spawn ex"
| "Spawn (Connect addr t) ex = connect_Spawn addr"

fun TransportMode :: "backend \<Rightarrow> string" where
  "TransportMode (Gdb p) = ''stdio''"
| "TransportMode _ = ''tcp''"

fun AdapterID :: "backend \<Rightarrow> string" where
  "AdapterID (Gdb p) = ''gdb''"
| "AdapterID _ = ''go''"

fun LaunchArgs :: "backend \<Rightarrow> string \<Rightarrow> string \<Rightarrow> string \<Rightarrow> bool \<Rightarrow> string list \<Rightarrow> err + jargs" where
  "LaunchArgs Delve cwd mode prog stop args = delve_LaunchArgs mode prog stop args"
| "LaunchArgs (Gdb p) cwd mode prog stop args = gdb_LaunchArgs cwd mode prog stop args"
| "LaunchArgs (Connect a t) cwd mode prog stop args = connect_LaunchArgs"

fun CoreArgs :: "backend \<Rightarrow> string \<Rightarrow> string \<Rightarrow> err + jargs" where
  "CoreArgs Delve prog core = delve_CoreArgs prog core"
| "CoreArgs (Gdb p) prog core = gdb_CoreArgs prog core"
| "CoreArgs (Connect a t) prog core = connect_CoreArgs"

fun AttachArgs :: "backend \<Rightarrow> int \<Rightarrow> err + jargs" where
  "AttachArgs Delve pid = delve_AttachArgs pid"
| "AttachArgs (Gdb p) pid = gdb_AttachArgs pid"
| "AttachArgs (Connect a t) pid = connect_AttachArgs pid"

text \<open>Only \<^verbatim>\<open>ConnectBackend\<close> implements \<^verbatim>\<open>Redialer\<close>.\<close>

fun is_redialer :: "backend \<Rightarrow> bool" where
  "is_redialer (Connect a t) = True"
| "is_redialer _ = False"

subsection \<open>What every back end promises to the debug tool\<close>

text \<open>The contract: the transport is one of the two the client can open, a server that was started is
  reachable through it (by an address on tcp, by the process pipes on stdio), and the arguments of an
  operation do not repeat a key.\<close>

locale debugger_backend =
  fixes transport :: "'b \<Rightarrow> string"
    and spawn :: "'b \<Rightarrow> 'x \<Rightarrow> spawned"
    and launch :: "'b \<Rightarrow> string \<Rightarrow> string \<Rightarrow> string \<Rightarrow> bool \<Rightarrow> string list \<Rightarrow> err + jargs"
    and attach :: "'b \<Rightarrow> int \<Rightarrow> err + jargs"
  assumes transport_known: "transport b = ''tcp'' \<or> transport b = ''stdio''"
    and tcp_address: "transport b = ''tcp'' \<Longrightarrow> spawn b x = Spawned p addr \<Longrightarrow> addr \<noteq> []"
    and stdio_process: "transport b = ''stdio'' \<Longrightarrow> spawn b x = Spawned p addr \<Longrightarrow> p"
    and launch_keys: "launch b cwd mode prog stop args = Inr kvs \<Longrightarrow> distinct (map fst kvs)"
    and attach_keys: "attach b pid = Inr kvs \<Longrightarrow> distinct (map fst kvs)"
begin

text \<open>The two ways in which the debug tool connects cover every back end.\<close>

lemma reachable_server:
  assumes "spawn b x = Spawned p addr"
  shows "(transport b = ''tcp'' \<and> addr \<noteq> []) \<or> (transport b = ''stdio'' \<and> p)"
  using assms transport_known tcp_address stdio_process by blast

lemma launch_map:
  assumes "launch b cwd mode prog stop args = Inr kvs" and "(k, v) \<in> set kvs"
  shows "map_of kvs k = Some v"
  using launch_keys [OF assms(1)] assms(2) by (rule map_of_is_SomeI)

end

interpretation backends: debugger_backend TransportMode Spawn LaunchArgs AttachArgs
proof unfold_locales
  fix b :: backend and x p addr
  show "TransportMode b = ''tcp'' \<or> TransportMode b = ''stdio''" by (cases b) simp_all
  show "TransportMode b = ''tcp'' \<Longrightarrow> Spawn b x = Spawned p addr \<Longrightarrow> addr \<noteq> []"
    by (cases b) (auto simp: delve_Spawn_def connect_Spawn_def split: option.splits if_splits)
  show "TransportMode b = ''stdio'' \<Longrightarrow> Spawn b x = Spawned p addr \<Longrightarrow> p"
    by (cases b) (auto simp: gdb_Spawn_def split: option.splits)
next
  fix b cwd mode prog stop args kvs
  show "LaunchArgs b cwd mode prog stop args = Inr kvs \<Longrightarrow> distinct (map fst kvs)"
    by (cases b) (auto simp: delve_LaunchArgs_def gdb_LaunchArgs_def connect_LaunchArgs_def Let_def
        split: if_splits)
next
  fix b pid kvs
  show "AttachArgs b pid = Inr kvs \<Longrightarrow> distinct (map fst kvs)"
    by (cases b) (auto simp: delve_AttachArgs_def gdb_AttachArgs_def connect_AttachArgs_def)
qed

text \<open>A back end that reports a started server can be connected to: on tcp there is an address to dial, on
  stdio a process whose pipes carry the protocol; no other transport exists.\<close>

theorem spawned_server_is_reachable:
  assumes "Spawn b ex = Spawned proc addr"
  shows "(TransportMode b = ''tcp'' \<and> addr \<noteq> []) \<or> (TransportMode b = ''stdio'' \<and> proc)"
  using assms by (rule backends.reachable_server)

lemma lines_before:
  assumes "\<forall>l \<in> set ls. CHR 0x0A \<notin> set l \<and> \<not> has_prefix (l @ [CHR 0x0A]) listen_prefix"
  shows "await_listen (concat (map (\<lambda>l. l @ [CHR 0x0A]) ls) @ rest) = await_listen rest"
  using assms
proof (induction ls)
  case (Cons l ls)
  have "read_line (l @ CHR 0x0A # (concat (map (\<lambda>l. l @ [CHR 0x0A]) ls) @ rest))
      = Some (l @ [CHR 0x0A], concat (map (\<lambda>l. l @ [CHR 0x0A]) ls) @ rest)"
    by (rule read_line_append) (use Cons.prems in simp)
  then show ?case using Cons by (subst await_listen.simps) simp
qed simp

lemma trim_space_snoc:
  assumes "s \<noteq> []" "\<not> is_space (hd s)" "\<not> is_space (last s)" "is_space c"
  shows "trim_space (s @ [c]) = s"
proof -
  have "dropWhile is_space (s @ [c]) = s @ [c]"
    by (rule dropWhile_hd) (use assms in simp)
  moreover have "dropWhile is_space (rev s) = rev s"
    by (rule dropWhile_hd) (use assms in \<open>simp add: hd_rev\<close>)
  ultimately show ?thesis using assms(4) by (simp add: trim_space_def)
qed

lemma parse_announcement:
  assumes "addr \<noteq> []" "\<not> is_space (hd addr)" "\<not> is_space (last addr)"
  shows "parse_listen (listen_prefix @ '': '' @ addr @ [CHR 0x0A]) = addr"
proof -
  have "split_n2 (listen_prefix @ '': '' @ addr @ [CHR 0x0A]) '': '' = [listen_prefix, addr @ [CHR 0x0A]]"
    by (simp add: split_n2_def listen_prefix_def has_prefix_def)
  moreover have "trim_space (addr @ [CHR 0x0A]) = addr"
    by (rule trim_space_snoc) (use assms in \<open>simp_all add: is_space_def\<close>)
  ultimately show ?thesis by (simp add: parse_listen_def)
qed

text \<open>C35. Starting Delve succeeds with exactly the address it announces, whatever lines it prints before.\<close>

theorem delve_Spawn_finds_address:
  assumes "ex_stdout ex = None" and "ex_start ex = None"
    and "\<forall>l \<in> set ls. CHR 0x0A \<notin> set l \<and> \<not> has_prefix (l @ [CHR 0x0A]) listen_prefix"
    and "addr \<noteq> []" and "CHR 0x0A \<notin> set addr" and "\<not> is_space (hd addr)" and "\<not> is_space (last addr)"
    and "ex_output ex = concat (map (\<lambda>l. l @ [CHR 0x0A]) ls) @ listen_prefix @ '': '' @ addr @ CHR 0x0A # rest"
  shows "delve_Spawn ex = Spawned True addr"
proof -
  let ?line = "listen_prefix @ '': '' @ addr"
  have nl: "CHR 0x0A \<notin> set ?line" using assms(5) by (simp add: listen_prefix_def)
  have "read_line (?line @ CHR 0x0A # rest) = Some (?line @ [CHR 0x0A], rest)"
    by (rule read_line_append [OF nl])
  then have "await_listen (?line @ CHR 0x0A # rest) = Some (parse_listen (?line @ [CHR 0x0A]))"
    by (subst await_listen.simps) simp
  then have "await_listen (ex_output ex) = Some addr"
    using lines_before [OF assms(3), of "?line @ CHR 0x0A # rest"] parse_announcement [OF assms(4,6,7)]
    by (simp add: assms(8))
  then show ?thesis using assms(1,2,4) by (simp add: delve_Spawn_def)
qed

definition demo_exec :: exec_env where
  "demo_exec = \<lparr>ex_stdin = None, ex_stdout = None, ex_start = None,
     ex_output = ''API server'' @ [CHR 0x0A] @ ''DAP server listening at: 127.0.0.1:4711'' @ [CHR 0x0A],
     ex_eof = ErrNew ''EOF'', ex_cwd = ''/work''\<rparr>"

theorem delve_Spawn_finds_address_witness: "delve_Spawn demo_exec = Spawned True ''127.0.0.1:4711''"
  by (rule delve_Spawn_finds_address [where ls = "[''API server'']" and rest = "[]"]) code_simp+

theorem spawned_server_is_reachable_witness:
  "TransportMode (Connect ''localhost:24010'' 0) = ''tcp'' \<and> Spawn (Connect ''localhost:24010'' 0) demo_exec = Spawned False ''localhost:24010''"
proof -
  have s: "Spawn (Connect ''localhost:24010'' 0) demo_exec = Spawned False ''localhost:24010''" by code_simp
  from spawned_server_is_reachable [OF s] s show ?thesis by simp
qed

text \<open>The launch modes each back end accepts: Delve takes \<open>source\<close> and \<open>binary\<close> and renames them, GDB
  everything but \<open>source\<close>, the remote back end nothing; program arguments are passed only when there are some.\<close>

theorem LaunchArgs_modes:
  "(\<exists>kvs. LaunchArgs Delve cwd mode prog stop args = Inr kvs) = (mode \<in> {''source'', ''binary''})
   \<and> (\<exists>kvs. LaunchArgs (Gdb p) cwd mode prog stop args = Inr kvs) = (mode \<noteq> ''source'')
   \<and> \<not> (\<exists>kvs. LaunchArgs (Connect a t) cwd mode prog stop args = Inr kvs)
   \<and> map_of (case LaunchArgs Delve cwd ''source'' prog stop args of Inr kvs \<Rightarrow> kvs | Inl e \<Rightarrow> []) ''mode'' = Some (JStr ''debug'')
   \<and> map_of (case LaunchArgs Delve cwd ''binary'' prog stop args of Inr kvs \<Rightarrow> kvs | Inl e \<Rightarrow> []) ''mode'' = Some (JStr ''exec'')
   \<and> map_of (case LaunchArgs Delve cwd ''binary'' prog stop args of Inr kvs \<Rightarrow> kvs | Inl e \<Rightarrow> []) ''args''
       = (if args = [] then None else Some (JStrs args))
   \<and> map_of (case LaunchArgs (Gdb p) cwd ''binary'' prog stop args of Inr kvs \<Rightarrow> kvs | Inl e \<Rightarrow> [])
       ''stopAtBeginningOfMainSubprogram'' = Some (JBool stop)"
  by (auto simp: delve_LaunchArgs_def gdb_LaunchArgs_def connect_LaunchArgs_def Let_def)

end
