(* ===== verification/ToolTexts.thy ===== *)
theory ToolTexts
  imports Messages
begin

text \<open>
  What \<^verbatim>\<open>tools.go\<close> registers with the MCP server: the names and descriptions of the tools, the calls that
  register and remove them, and which tools a client of the server can call after such calls.  The
  descriptions are the literals of the source, as the bytes of their UTF-8 encoding.
\<close>

subsection \<open>Bytes of the texts\<close>

definition nl :: string where
  "nl = [CHR 0x0A]"

definition emdash :: string where "emdash = [CHR 0xE2, CHR 0x80, CHR 0x94]"
definition arrow :: string where "arrow = [CHR 0xE2, CHR 0x86, CHR 0x92]"
definition ellipsis :: string where "ellipsis = [CHR 0xE2, CHR 0x80, CHR 0xA6]"

primrec unlines :: "string list \<Rightarrow> string" where
  "unlines [] = []"
| "unlines (l # ls) = l @ nl @ unlines ls"

subsection \<open>Descriptions\<close>

definition debugToolDescription :: string where
  \<open>debugToolDescription = unlines [
     ''Start a debugging session.'',
     [],
     ''Modes:'',
     ''- 'source': compile a program from source and debug it. Spawns dlv. Requires 'path'.'',
     ''- 'binary': debug a pre-compiled executable. Spawns dlv/gdb. Requires 'path'.'',
     ''- 'core': post-mortem analysis of a core dump. Requires 'path' + 'coreFilePath'.'',
     ''- 'attach': attach to an already-running debugger session. Two sub-cases, auto-detected:'',
     [],
     ''    (a) LOCAL attach '' @ emdash @ '' this mcp-dap-server spawns dlv locally and attaches it'',
     ''        by PID to a running process on the same machine. Requires 'processId'.'',
     [],
     ''    (b) PRE-CONNECTED attach '' @ emdash @ '' this mcp-dap-server was started with the'',
     ''        --connect flag or DAP_CONNECT_ADDR env var and is already wired to'',
     ''        a remote dlv --headless --accept-multiclient server (typical for the'',
     ''        k8s wrapper script scenario: kubectl port-forward + dlv in a pod).'',
     ''        Call debug(mode="attach") with NO processId '' @ emdash @ '' the remote dlv already'',
     ''        owns its target. If you pass a 'mode' other than "attach" in this'',
     ''        setup it is silently normalised.'',
     [],
     ''How to tell which sub-case applies: if the MCP server's startup message in'',
     ''the log mentions "ConnectBackend mode, target localhost:NNNNN", you are in'',
     ''sub-case (b). The Claude-side wrapper script (dlv-k8s-mcp.sh) and the'',
     ''--connect flag configuration in .mcp.json are operator setup details; the'',
     ''MCP caller (you) never chooses between (a) and (b) '' @ emdash @ '' you just pass'',
     ''mode="attach" and the server routes correctly.'',
     [],
     ''Debugger selection (via 'debugger' parameter; only meaningful for sub-case'',
     ''(a) and for source/binary/core modes '' @ emdash @ '' pre-connected attach uses whichever'',
     ''debugger was launched on the remote side):'',
     ''- 'delve' (default): For Go programs. Requires dlv in $PATH.'',
     ''- 'gdb': For C/C++/Rust. Requires GDB 14+ with native DAP (gdb -i dap). GDB'',
     ''  does not support 'source' mode; compile with debug symbols (gcc -g -O0)'',
     ''  and use 'binary' mode.'',
     [],
     ''Return value depends on mode:'',
     ''- 'source' / 'binary' / 'core' with initial breakpoints: blocks briefly'',
     ''  until the debuggee stops, then returns full context (location + stack +'',
     ''  variables).'',
     ''- 'attach' (both sub-cases): returns immediately with a readiness message.'',
     ''  The debuggee is already running. Set any additional breakpoints with the'',
     ''  'breakpoint' tool, then call 'continue' (no-op for pre-connected '' @ emdash,
     ''  program is already going; you can also go straight to wait-for-stop) and''] @ ''  'wait-for-stop' when you're ready to block for a hit.''\<close>

definition stop_desc :: string where
  \<open>stop_desc = ''End the debugging session. By default terminates the debuggee. Pass detach=true to detach without killing the process (leaves it running); detach requires adapter support.''\<close>

definition breakpoint_desc :: string where
  \<open>breakpoint_desc = unlines [
     ''Set a breakpoint. Provide EITHER file+line OR function name (not both).'',
     []] @ ''Examples: {"file": "/path/to/main.go", "line": 42} or {"function": "main.processData"}''\<close>

definition clear_breakpoints_desc :: string where
  \<open>clear_breakpoints_desc = unlines [
     ''Remove breakpoints. Provide 'file' to clear breakpoints in a specific file, or 'all': true to clear all breakpoints.'',
     []] @ ''Examples: {"file": "/path/to/main.go"} or {"all": true}''\<close>

definition continue_desc :: string where
  \<open>continue_desc = unlines [
     ''Start or resume program execution. Returns IMMEDIATELY after the debugger acknowledges the continue request '' @ emdash @ '' does NOT wait for the program to hit a breakpoint or terminate.'',
     [],
     ''Returns: {"status":"running","threadId":N}'',
     [],
     ''To receive the stop event (breakpoint hit, program finished, pause), follow with 'wait-for-stop'. For long waits, consider dispatching 'wait-for-stop' to a subagent so your main agent can trigger the program (HTTP request, browser navigation, etc.) in parallel.'',
     []] @ ''Optionally specify 'to' for run-to-cursor: {"to": {"file": "/path/main.go", "line": 50}} or {"to": {"function": "main.Run"}}''\<close>

definition wait_for_stop_desc :: string where
  \<open>wait_for_stop_desc = unlines [
     ''Wait for the program to stop (hit a breakpoint, terminate, or be paused). Returns full debugging context (location + stack trace + variables) when stopped.'',
     [],
     ''Call this AFTER 'continue' or after you have triggered the action that should hit a breakpoint.'',
     [],
     ''Parameters (all optional):'',
     ''- timeoutSec: max seconds to wait (default 30, max 300). On timeout, returns {"status":"still_running","elapsedSec":N} without side effects; calling wait-for-stop again continues waiting from the current moment.'',
     ''- pauseIfTimeout: if true, on timeout sends a pause request to the debuggee and returns the full context with reason="pause". Useful when a breakpoint was expected but not reached.''] @ ''- threadId: thread to watch (default: current stopped thread).''\<close>

definition step_desc :: string where
  \<open>step_desc = unlines [
     ''Step through code one line at a time. Returns full context (location, stack trace, variables) at the new location.'',
     [],
     ''Modes: 'over' (execute current line, step over function calls), 'in' (step into function calls), 'out' (run until current function returns).'',
     []] @ ''Optional 'timeoutSec' (default 30s) guards against steps that never complete (e.g. step into a blocking I/O call). On timeout returns an error; call 'pause' or 'wait-for-stop' to recover.''\<close>

definition pause_desc :: string where
  \<open>pause_desc = ''Pause a running program. Use 'context' afterwards to inspect the current state.''\<close>

definition context_desc :: string where
  \<open>context_desc = unlines [
     ''Get full debugging context at the current stop location. Always returns ALL of the following '' @ emdash @ '' source location, full stack trace, and all variables with types and values. There are no flags to control what is included; everything is always returned.'',
     []] @ ''Call with {} (no arguments) to use the current thread and top frame. Only three optional parameters exist: threadId, frameId, maxFrames. Do NOT pass any other parameters. Use 'info' with type 'threads' to discover valid thread IDs.''\<close>

definition evaluate_desc :: string where
  \<open>evaluate_desc = unlines [
     ''Evaluate an expression in the debugged program's context. Returns the result value and type. All parameters except 'expression' are optional.'',
     [],
     ''The default context is 'watch', which evaluates language expressions (C, C++, Go). Use valid language syntax, not debugger commands.'',
     [],
     ''Examples: {"expression": "x + y"}, {"expression": "*ptr"}, {"expression": "$rsp"}, {"expression": "(int)value"}'',
     []] @ ''For GDB commands (e.g. print/x), use context 'repl': {"expression": "print/x var", "context": "repl"}''\<close>

definition reconnect_desc :: string where
  \<open>reconnect_desc = unlines [
     ''Force a reconnect cycle to the DAP server, or wait for an in-progress reconnect to finish.'',
     [],
     ''Use when:'',
     ''- You see "connection stale" errors from other tools '' @ arrow @ '' call reconnect() to wait for recovery'',
     ''- The DAP session appears hung '' @ arrow @ '' call reconnect(force=true) to force a new connection attempt'',
     [],
     ''Parameters are all optional. Default: wait up to 30 seconds for healthy state.'',
     []] @ ''For local (Spawn) debug sessions, reconnect is generally not applicable '' @ emdash @ '' if the dlv/gdb subprocess died, call 'stop' and start a new 'debug' session.''\<close>

definition restart_desc :: string where
  \<open>restart_desc = ''Restart the debugging session from the beginning. Optionally provide new command line arguments via 'args', or omit to reuse the previous arguments.''\<close>

definition set_variable_desc :: string where
  \<open>set_variable_desc = unlines [
     ''Modify a variable's value in the debugged program. Requires the variablesReference from a previous 'context' call's scope.'',
     []] @ ''Example: {"variablesReference": 1000, "name": "count", "value": "42"}''\<close>

definition disassemble_desc :: string where
  \<open>disassemble_desc = unlines [
     ''Disassemble machine code at a memory address. Returns assembly instructions.'',
     [],
     ''Example: {"address": "0x00400780"} or {"address": "0x00400780", "count": 30}''] @ ''The 'address' is a hex memory address (e.g. from instructionPointerReference in a stack frame). 'count' defaults to 20 instructions.''\<close>


text \<open>The texts have no part in what the handlers do: a run on a concrete input keeps their names in the log of
  calls, and whoever needs a text unfolds it.\<close>

lemmas descriptions = debugToolDescription_def stop_desc_def breakpoint_desc_def clear_breakpoints_desc_def
  continue_desc_def wait_for_stop_desc_def step_desc_def pause_desc_def context_desc_def evaluate_desc_def
  reconnect_desc_def restart_desc_def set_variable_desc_def disassemble_desc_def

declare descriptions [code del]

text \<open>The one description that depends on the adapter.\<close>

definition info_desc :: "capabilities \<Rightarrow> string" where
  "info_desc caps = ''List program metadata. Type: 'threads' (list all threads with IDs, default)''
     @ (if supportsLoadedSourcesRequest caps then '', 'sources' (loaded source file paths)'' else [])
     @ (if supportsModulesRequest caps then '', 'modules' (loaded modules/libraries)'' else []) @ ''.''"

subsection \<open>Names\<close>

definition always_tools :: "string list" where
  "always_tools = [''stop'', ''breakpoint'', ''clear-breakpoints'', ''continue'', ''wait-for-stop'',
     ''step'', ''pause'', ''context'', ''evaluate'', ''info'', ''reconnect'']"

definition gated_tools :: "capabilities \<Rightarrow> string list" where
  "gated_tools caps =
     (if supportsRestartRequest caps then [''restart''] else [])
     @ (if supportsSetVariable caps then [''set-variable''] else [])
     @ (if supportsDisassembleRequest caps then [''disassemble''] else [])"

text \<open>The names and descriptions in the order in which \<open>registerSessionTools\<close> adds them.\<close>

definition session_tools :: "capabilities \<Rightarrow> (string \<times> string) list" where
  "session_tools caps = [(''stop'', stop_desc), (''breakpoint'', breakpoint_desc),
       (''clear-breakpoints'', clear_breakpoints_desc), (''continue'', continue_desc),
       (''wait-for-stop'', wait_for_stop_desc), (''step'', step_desc), (''pause'', pause_desc),
       (''context'', context_desc), (''evaluate'', evaluate_desc), (''info'', info_desc caps),
       (''reconnect'', reconnect_desc)]
     @ (if supportsRestartRequest caps then [(''restart'', restart_desc)] else [])
     @ (if supportsSetVariable caps then [(''set-variable'', set_variable_desc)] else [])
     @ (if supportsDisassembleRequest caps then [(''disassemble'', disassemble_desc)] else [])"

lemma session_tools_names: "map fst (session_tools caps) = always_tools @ gated_tools caps"
  by (simp add: session_tools_def always_tools_def gated_tools_def)

subsection \<open>Calls to the MCP server\<close>

datatype server_call = AddTool string string | RemoveTools "string list" | AddPrompt string

definition registration :: "capabilities \<Rightarrow> server_call list" where
  "registration caps = RemoveTools [''debug''] # map (\<lambda>(t, d). AddTool t d) (session_tools caps)"

definition unregistration :: "string list \<Rightarrow> server_call list" where
  "unregistration names = [RemoveTools names, AddTool ''debug'' debugToolDescription]"

text \<open>Which tools a client of the MCP server can call after these calls: adding replaces, removing a tool
  that does not exist does nothing.\<close>

fun offered :: "server_call list \<Rightarrow> string list \<Rightarrow> string list" where
  "offered [] ts = ts"
| "offered (AddTool t d # cs) ts = offered cs (List.insert t ts)"
| "offered (RemoveTools ns # cs) ts = offered cs (filter (\<lambda>t. t \<notin> set ns) ts)"
| "offered (AddPrompt n # cs) ts = offered cs ts"

lemma offered_append: "offered (cs @ ds) ts = offered ds (offered cs ts)"
  by (induction cs ts rule: offered.induct) simp_all

lemma offered_add: "set (offered (map (\<lambda>(t, d). AddTool t d) xs) ts) = fst ` set xs \<union> set ts"
  by (induction xs arbitrary: ts) force+

lemma offered_registration: "set (offered (registration caps) ts)
    = set always_tools \<union> set (gated_tools caps) \<union> (set ts - {''debug''})"
proof -
  have "fst ` set (session_tools caps) = set always_tools \<union> set (gated_tools caps)"
    by (metis session_tools_names set_append set_map)
  then show ?thesis by (auto simp: registration_def offered_add)
qed

lemma offered_unregistration: "set (offered (unregistration names) ts) = {''debug''} \<union> (set ts - set names)"
  by (auto simp: unregistration_def)

lemma debug_is_no_session_tool: "''debug'' \<notin> set always_tools" "''debug'' \<notin> set (gated_tools caps)"
    "set (gated_tools caps) \<inter> set always_tools = {}"
  by (auto simp: always_tools_def gated_tools_def)

end
