(* ===== verification/World.thy ===== *)
theory World
  imports ClientProperties Backend ToolTexts
begin

text \<open>
  The state a tool handler of \<^verbatim>\<open>tools.go\<close> works on and the programs that change it.  A \<open>world\<close> holds the
  heap of \<^verbatim>\<open>DAPClient\<close> objects, the \<^verbatim>\<open>debuggerSession\<close>, the clock, and what the environment will do: a
  list of rounds, each letting time pass and the other goroutines run, and the outcomes of writes.
  A program of type \<open>'a prog\<close> takes a world to a result and a new world.  At every point where Go may
  switch goroutines a program consumes one round; a blocking operation consumes rounds until one of its
  cases is ready.  A call that is still blocked when the rounds are used up has the result \<open>Pending\<close>.
\<close>

subsection \<open>debuggerSession\<close>

record session =
  ds_cmd :: bool
  ds_client :: "nat option"
  ds_backend :: "backend option"
  ds_capabilities :: capabilities
  ds_launchMode :: string
  ds_programPath :: string
  ds_programArgs :: "string list"
  ds_coreFilePath :: string
  ds_stoppedThreadID :: int
  ds_lastFrameID :: int
  ds_lastStopAt :: int
  ds_breakpoints :: "(string \<times> int list) list"
  ds_functionBreakpoints :: "string list"

definition defaultThreadID :: "session \<Rightarrow> int" where
  "defaultThreadID ds = (if ds_stoppedThreadID ds \<noteq> 0 then ds_stoppedThreadID ds else 1)"

definition zero_time :: int where
  "zero_time = 0"

text \<open>The fields that \<open>cleanup\<close> resets; the breakpoints are not among them.\<close>

definition reset_session :: "session \<Rightarrow> session" where
  "reset_session ds = ds\<lparr>ds_launchMode := [], ds_programPath := [], ds_programArgs := [],
     ds_coreFilePath := [], ds_capabilities := no_capabilities, ds_stoppedThreadID := 0,
     ds_lastFrameID := - 1, ds_lastStopAt := zero_time\<rparr>"

text \<open>What a successful \<open>reinitialize\<close> leaves behind in the session.\<close>

definition reinit_session :: "capabilities \<Rightarrow> session \<Rightarrow> session" where
  "reinit_session caps ds = ds\<lparr>ds_capabilities := caps, ds_stoppedThreadID := 0,
     ds_lastFrameID := - 1, ds_lastStopAt := zero_time\<rparr>"

subsection \<open>The world\<close>

text \<open>How a run of the reinit hook ends: done, or failed, before or after the capabilities were recorded.\<close>

datatype hook_end = HookDone capabilities | HookFailed "capabilities option" err

datatype env_act =
    APump nat pump_in bool              \<comment> \<open>a step of readLoop of this client\<close>
  | ARecon nat recon_in bool            \<comment> \<open>a step of its reconnectLoop\<close>
  | AHook nat hook_end                  \<comment> \<open>the reinit hook of this client returns\<close>
  | ABridge nat nat bool                \<comment> \<open>a step of the bridge of one subscription\<close>
  | ACancel                             \<comment> \<open>the MCP request is cancelled\<close>
  | AStop                               \<comment> \<open>another handler ends the session\<close>
  | ARequest nat command                \<comment> \<open>another handler sends a request\<close>

record round =
  r_dt :: nat
  r_acts :: "env_act list"
  r_pick :: nat

record world =
  w_clients :: "client list"
  w_ds :: session
  w_locked :: bool
  w_now :: int
  w_cancelled :: bool
  w_future :: "round list"
  w_writes :: "err option list"
  w_rank :: "string \<Rightarrow> nat"
  w_server :: "server_call list"
  w_procs :: nat
  w_exec :: "string \<Rightarrow> exec_env"
  w_dial :: "string \<Rightarrow> nat + err"
  w_gdb :: "string option"
  w_stdio :: nat

definition cl :: "world \<Rightarrow> nat \<Rightarrow> client" where
  "cl w p = w_clients w ! p"

definition upd_cl :: "nat \<Rightarrow> (client \<Rightarrow> client) \<Rightarrow> world \<Rightarrow> world" where
  "upd_cl p f w = (if p < length (w_clients w)
     then w\<lparr>w_clients := (w_clients w)[p := f (w_clients w ! p)]\<rparr> else w)"

definition upd_ds :: "(session \<Rightarrow> session) \<Rightarrow> world \<Rightarrow> world" where
  "upd_ds f w = w\<lparr>w_ds := f (w_ds w)\<rparr>"

text \<open>Backoff parameters, in nanoseconds.\<close>

definition reconnectBaseBackoff :: int where "reconnectBaseBackoff = 1000000000"
definition reconnectMaxBackoff :: int where "reconnectMaxBackoff = 30000000000"

definition sessionToolNames :: "session \<Rightarrow> string list" where
  "sessionToolNames ds = always_tools @ gated_tools (ds_capabilities ds)"

definition active :: "session \<Rightarrow> bool" where
  "active ds \<longleftrightarrow> ds_cmd ds \<or> ds_client ds \<noteq> None"

text \<open>What the other goroutine does when another handler calls \<open>stop\<close> or \<open>debug\<close>: the effect of \<open>cleanup\<close>, at
  once.\<close>

definition end_session :: "world \<Rightarrow> world" where
  "end_session w = (let ds = w_ds w; w1 = (case ds_client ds of None \<Rightarrow> w | Some p \<Rightarrow> upd_cl p Close w);
       ds1 = reset_session (ds\<lparr>ds_client := None, ds_cmd := False\<rparr>)
     in w1\<lparr>w_ds := ds1, w_procs := w_procs w - (if ds_cmd ds then 1 else 0),
           w_server := w_server w @ unregistration (sessionToolNames ds1)\<rparr>)"

text \<open>The other goroutines.  The session mutex is respected: the reinit hook and other handlers act on
  the session only while no handler holds it.  The requests of the hook are actions of their own.\<close>

fun env_do :: "env_act \<Rightarrow> world \<Rightarrow> world" where
  "env_do (APump p i b) w = upd_cl p (pump_step i b (w_now w)) w"
| "env_do (ARecon p i b) w =
     (if c_recon (cl w p) = RHook \<and> c_hook (cl w p) then w
      else upd_cl p (recon_step reconnectBaseBackoff reconnectMaxBackoff i b) w)"
| "env_do (AHook p r) w =
     (if w_locked w \<or> c_recon (cl w p) \<noteq> RHook then w
      else case r of
          HookDone caps \<Rightarrow> upd_ds (reinit_session caps)
            (upd_cl p (recon_step reconnectBaseBackoff reconnectMaxBackoff HookOk False) w)
        | HookFailed caps e \<Rightarrow> upd_ds (\<lambda>ds. case caps of None \<Rightarrow> ds | Some x \<Rightarrow> ds\<lparr>ds_capabilities := x\<rparr>)
            (upd_cl p (recon_step reconnectBaseBackoff reconnectMaxBackoff (HookErr e) False) w))"
| "env_do (ABridge p i b) w =
     upd_cl p (\<lambda>c. if i < length (c_subs c) then bridge_step b i c else c) w"
| "env_do ACancel w = w\<lparr>w_cancelled := True\<rparr>"
| "env_do AStop w =
     (if w_locked w \<or> \<not> active (w_ds w) then w else end_session w)"
| "env_do (ARequest p cmd) w =
     (if w_locked w then w
      else upd_cl p (\<lambda>c. let (seq, c1) = newRequest c; (_, c2) = registerResponseIfAbsent seq c1
                         in snd (rawSend None seq cmd c2)) w)"

definition env_round :: "round \<Rightarrow> world \<Rightarrow> world" where
  "env_round r w = fold env_do (r_acts r) (w\<lparr>w_now := w_now w + int (r_dt r)\<rparr>)"

subsection \<open>Programs\<close>

datatype 'a res = Ok 'a | Er err | Pending | Panic

type_synonym 'a prog = "world \<Rightarrow> 'a res \<times> world"

definition returnP :: "'a \<Rightarrow> 'a prog" where
  "returnP a w = (Ok a, w)"

definition raiseP :: "err \<Rightarrow> 'a prog" where
  "raiseP e w = (Er e, w)"

definition panicP :: "'a prog" where
  "panicP w = (Panic, w)"

definition bindP :: "'a prog \<Rightarrow> ('a \<Rightarrow> 'b prog) \<Rightarrow> 'b prog" where
  "bindP m k w = (case m w of
      (Ok a, w') \<Rightarrow> k a w'
    | (Er e, w') \<Rightarrow> (Er e, w')
    | (Pending, w') \<Rightarrow> (Pending, w')
    | (Panic, w') \<Rightarrow> (Panic, w'))"

definition thenP :: "'a prog \<Rightarrow> 'b prog \<Rightarrow> 'b prog" where
  "thenP m k = bindP m (\<lambda>_. k)"

text \<open>\<open>tryP\<close> hands the error to the caller as a value; \<open>wrapP\<close> returns it changed; \<open>deferP\<close> runs its
  second argument whether the first returned a value or an error.\<close>

definition tryP :: "'a prog \<Rightarrow> (err + 'a) prog" where
  "tryP m w = (case m w of
      (Ok a, w') \<Rightarrow> (Ok (Inr a), w')
    | (Er e, w') \<Rightarrow> (Ok (Inl e), w')
    | (Pending, w') \<Rightarrow> (Pending, w')
    | (Panic, w') \<Rightarrow> (Panic, w'))"

definition wrapP :: "(err \<Rightarrow> err) \<Rightarrow> 'a prog \<Rightarrow> 'a prog" where
  "wrapP f m w = (case m w of (Er e, w') \<Rightarrow> (Er (f e), w') | (r, w') \<Rightarrow> (r, w'))"

definition deferP :: "'a prog \<Rightarrow> unit prog \<Rightarrow> 'a prog" where
  "deferP m fin = bindP (tryP m) (\<lambda>r. thenP fin (case r of Inl e \<Rightarrow> raiseP e | Inr a \<Rightarrow> returnP a))"

definition getsP :: "(world \<Rightarrow> 'a) \<Rightarrow> 'a prog" where
  "getsP f w = (Ok (f w), w)"

definition modifyP :: "(world \<Rightarrow> world) \<Rightarrow> unit prog" where
  "modifyP f w = (Ok (), f w)"

definition clientP :: "nat \<Rightarrow> (client \<Rightarrow> 'a \<times> client) \<Rightarrow> 'a prog" where
  "clientP p f w = (Ok (fst (f (cl w p))), upd_cl p (\<lambda>c. snd (f c)) w)"

definition yieldP :: "unit prog" where
  "yieldP w = (case w_future w of
      [] \<Rightarrow> (Ok (), w)
    | r # rs \<Rightarrow> (Ok (), (env_round r w)\<lparr>w_future := rs\<rparr>))"

text \<open>Blocking: after every round the operation looks whether one of its cases is ready.\<close>

fun wait_rounds :: "(nat \<Rightarrow> world \<Rightarrow> ('a res \<times> world) option) \<Rightarrow> round list \<Rightarrow> 'a prog" where
  "wait_rounds f [] w = (Pending, w)"
| "wait_rounds f (r # rs) w =
     (let w1 = (env_round r w)\<lparr>w_future := rs\<rparr>
      in case f (r_pick r) w1 of Some x \<Rightarrow> x | None \<Rightarrow> wait_rounds f rs w1)"

definition blockP :: "(nat \<Rightarrow> world \<Rightarrow> ('a res \<times> world) option) \<Rightarrow> 'a prog" where
  "blockP f w = wait_rounds f (w_future w) w"

text \<open>Go's \<^verbatim>\<open>select\<close>: any ready case may be taken.\<close>

definition select :: "nat \<Rightarrow> 'a list \<Rightarrow> 'a option" where
  "select pick ready = (if ready = [] then None else Some (ready ! (pick mod length ready)))"

text \<open>A loop; \<open>body\<close> answers the next loop state or the result.  Each iteration that goes on has
  consumed a round, so the number of rounds left bounds the iterations.\<close>

fun loop_fuel :: "nat \<Rightarrow> ('s \<Rightarrow> ('s + 'a) prog) \<Rightarrow> 's \<Rightarrow> 'a prog" where
  "loop_fuel 0 body s = (\<lambda>w. (Pending, w))"
| "loop_fuel (Suc n) body s =
     bindP (body s) (\<lambda>x. case x of Inl s' \<Rightarrow> loop_fuel n body s' | Inr a \<Rightarrow> returnP a)"

definition loopP :: "('s \<Rightarrow> ('s + 'a) prog) \<Rightarrow> 's \<Rightarrow> 'a prog" where
  "loopP body s w = loop_fuel (Suc (length (w_future w))) body s w"

primrec forP :: "'a list \<Rightarrow> ('a \<Rightarrow> unit prog) \<Rightarrow> unit prog" where
  "forP [] f = returnP ()"
| "forP (x # xs) f = thenP (f x) (forP xs f)"

primrec mapP :: "('a \<Rightarrow> 'b prog) \<Rightarrow> 'a list \<Rightarrow> 'b list prog" where
  "mapP f [] = returnP []"
| "mapP f (x # xs) = bindP (f x) (\<lambda>y. bindP (mapP f xs) (\<lambda>ys. returnP (y # ys)))"

text \<open>The session mutex.\<close>

definition lockP :: "unit prog" where
  "lockP = modifyP (\<lambda>w. w\<lparr>w_locked := True\<rparr>)"

definition unlockP :: "unit prog" where
  "unlockP = modifyP (\<lambda>w. w\<lparr>w_locked := False\<rparr>)"

definition withLock :: "'a prog \<Rightarrow> 'a prog" where
  "withLock m = thenP lockP (deferP m unlockP)"

subsection \<open>Contexts\<close>

text \<open>A context of the MCP request, with the deadline a \<^verbatim>\<open>WithTimeout\<close> gave it, or that of a client.\<close>

datatype ctx = CtxReq "int option" | CtxClient nat

fun ctx_err :: "ctx \<Rightarrow> world \<Rightarrow> err option" where
  "ctx_err (CtxReq d) w = (if w_cancelled w then Some Canceled else case d of
      None \<Rightarrow> None
    | Some t \<Rightarrow> if t \<le> w_now w then Some DeadlineExceeded else None)"
| "ctx_err (CtxClient p) w = (if c_ctx_done (cl w p) then Some Canceled else None)"

definition second :: int where "second = 1000000000"

text \<open>\<^verbatim>\<open>time.Duration(n) * time.Second\<close> wraps around.\<close>

definition seconds :: "int \<Rightarrow> int" where
  "seconds n = wrap64 (n * second)"

subsection \<open>Computation rules\<close>

lemma bindP_return [simp]: "bindP (returnP a) k = k a"
  by (rule ext) (simp add: bindP_def returnP_def)

lemma bindP_raise [simp]: "bindP (raiseP e) k = raiseP e"
  by (rule ext) (simp add: bindP_def raiseP_def)

lemma bindP_assoc: "bindP (bindP m k) h = bindP m (\<lambda>a. bindP (k a) h)"
  by (rule ext) (simp add: bindP_def split: res.split prod.split)

lemma bindP_Ok: "bindP m k w = (Ok b, w'') \<longleftrightarrow> (\<exists>a w'. m w = (Ok a, w') \<and> k a w' = (Ok b, w''))"
  by (auto simp: bindP_def split: res.splits prod.splits)

lemma bindP_Er: "bindP m k w = (Er e, w'') \<longleftrightarrow>
    m w = (Er e, w'') \<or> (\<exists>a w'. m w = (Ok a, w') \<and> k a w' = (Er e, w''))"
  by (auto simp: bindP_def split: res.splits prod.splits)

lemma cl_upd_cl: "cl (upd_cl p f w) q = (if p = q \<and> p < length (w_clients w) then f (cl w q) else cl w q)"
  by (auto simp: cl_def upd_cl_def)

end
