(* ===== verification/Requests.thy ===== *)
theory Requests
  imports World
begin

text \<open>
  The request methods of \<^verbatim>\<open>DAPClient\<close> (\<^verbatim>\<open>dap.go\<close>) as programs, and the waiting functions of \<^verbatim>\<open>tools.go\<close>
  that the handlers share.  \<open>p\<close> is the pointer to the client object.
\<close>

subsection \<open>Sending\<close>

definition newRequestP :: "nat \<Rightarrow> int prog" where
  "newRequestP p = clientP p newRequest"

definition staleP :: "nat \<Rightarrow> bool prog" where
  "staleP p = getsP (\<lambda>w. c_stale (cl w p))"

definition markStaleP :: "nat \<Rightarrow> unit prog" where
  "markStaleP p = modifyP (upd_cl p markStale)"

definition next_write :: "world \<Rightarrow> err option \<times> world" where
  "next_write w = (case w_writes w of [] \<Rightarrow> (None, w) | x # xs \<Rightarrow> (x, w\<lparr>w_writes := xs\<rparr>))"

text \<open>\<open>rawSend\<close>, raising the error of the write.\<close>

definition rawSendP :: "nat \<Rightarrow> int \<Rightarrow> command \<Rightarrow> unit prog" where
  "rawSendP p seq cmd w = (let (x, w1) = next_write w
     in case x of
          None \<Rightarrow> (Ok (), upd_cl p (\<lambda>c. snd (rawSend None seq cmd c)) w1)
        | Some e \<Rightarrow> (Er e, upd_cl p (\<lambda>c. snd (rawSend (Some e) seq cmd c)) w1))"

definition registerP :: "nat \<Rightarrow> int \<Rightarrow> bool prog" where
  "registerP p seq = clientP p (registerResponseIfAbsent seq)"

definition unregisterP :: "nat \<Rightarrow> int \<Rightarrow> unit prog" where
  "unregisterP p seq = modifyP (upd_cl p (unregisterResponse seq))"

definition sendAndRegisterRaw :: "nat \<Rightarrow> int \<Rightarrow> command \<Rightarrow> unit prog" where
  "sendAndRegisterRaw p seq cmd =
     bindP (registerP p seq) (\<lambda>newly.
     thenP yieldP (
     bindP (tryP (rawSendP p seq cmd)) (\<lambda>r. case r of
         Inr _ \<Rightarrow> returnP ()
       | Inl e \<Rightarrow> thenP (if newly then unregisterP p seq else returnP ()) (raiseP e))))"

definition sendAndRegister :: "nat \<Rightarrow> int \<Rightarrow> command \<Rightarrow> unit prog" where
  "sendAndRegister p seq cmd =
     bindP (staleP p) (\<lambda>stale. if stale then raiseP ErrConnectionStale else
     bindP (registerP p seq) (\<lambda>newly.
     thenP yieldP (
     bindP (tryP (rawSendP p seq cmd)) (\<lambda>r. case r of
         Inr _ \<Rightarrow> returnP ()
       | Inl e \<Rightarrow> thenP (if newly then unregisterP p seq else returnP ())
                   (thenP (markStaleP p) (raiseP e))))))"

text \<open>The shape of every request method: allocate a number, send, answer the number.\<close>

definition request :: "nat \<Rightarrow> command \<Rightarrow> int prog" where
  "request p cmd = bindP (newRequestP p) (\<lambda>seq. thenP (sendAndRegister p seq cmd) (returnP seq))"

definition requestRaw :: "nat \<Rightarrow> command \<Rightarrow> int prog" where
  "requestRaw p cmd = bindP (newRequestP p) (\<lambda>seq. thenP (sendAndRegisterRaw p seq cmd) (returnP seq))"

text \<open>\<open>SendRequest\<close> takes a message whose own number is not changed: the wire carries \<open>seq0\<close>, the
  registry the number allocated here.\<close>

definition SendRequest :: "nat \<Rightarrow> int \<Rightarrow> command \<Rightarrow> int prog" where
  "SendRequest p seq0 cmd =
     bindP (newRequestP p) (\<lambda>seq.
     thenP (modifyP (upd_cl p (\<lambda>c. c\<lparr>c_responses := AList.update seq (length (c_chans c)) (c_responses c),
                                   c_chans := c_chans c @ [new_rchan]\<rparr>))) (
     thenP yieldP (
     bindP (tryP (rawSendP p seq0 cmd)) (\<lambda>r. case r of
         Inr _ \<Rightarrow> returnP seq
       | Inl e \<Rightarrow> thenP (unregisterP p seq) (raiseP e)))))"

subsection \<open>The request methods\<close>

definition SetBreakpointsRequest :: "nat \<Rightarrow> string \<Rightarrow> int list \<Rightarrow> int prog" where
  "SetBreakpointsRequest p file lines = request p (SetBreakpoints file lines)"

definition SetFunctionBreakpointsRequest :: "nat \<Rightarrow> string list \<Rightarrow> int prog" where
  "SetFunctionBreakpointsRequest p functions = request p (SetFunctionBreakpoints functions)"

definition ConfigurationDoneRequest :: "nat \<Rightarrow> int prog" where
  "ConfigurationDoneRequest p = request p ConfigurationDone"

definition ContinueRequest :: "nat \<Rightarrow> int \<Rightarrow> int prog" where
  "ContinueRequest p threadID = request p (Continue threadID)"

definition NextRequest :: "nat \<Rightarrow> int \<Rightarrow> int prog" where
  "NextRequest p threadID = request p (Next threadID)"

definition StepInRequest :: "nat \<Rightarrow> int \<Rightarrow> int prog" where
  "StepInRequest p threadID = request p (StepIn threadID)"

definition StepOutRequest :: "nat \<Rightarrow> int \<Rightarrow> int prog" where
  "StepOutRequest p threadID = request p (StepOut threadID)"

definition PauseRequest :: "nat \<Rightarrow> int \<Rightarrow> int prog" where
  "PauseRequest p threadID = request p (Pause threadID)"

definition ThreadsRequest :: "nat \<Rightarrow> int prog" where
  "ThreadsRequest p = request p Threads"

definition StackTraceRequest :: "nat \<Rightarrow> int \<Rightarrow> int \<Rightarrow> int \<Rightarrow> int prog" where
  "StackTraceRequest p threadID startFrame levels = request p (StackTrace threadID startFrame levels)"

definition ScopesRequest :: "nat \<Rightarrow> int \<Rightarrow> int prog" where
  "ScopesRequest p frameID = request p (Scopes frameID)"

definition VariablesRequest :: "nat \<Rightarrow> int \<Rightarrow> int prog" where
  "VariablesRequest p ref = request p (Variables ref)"

text \<open>An empty context is left out of the arguments.\<close>

definition EvaluateRequest :: "nat \<Rightarrow> string \<Rightarrow> int \<Rightarrow> string \<Rightarrow> int prog" where
  "EvaluateRequest p expr frameID context =
     request p (Evaluate expr frameID (if context \<noteq> [] then Some context else None))"

definition DisconnectRequest :: "nat \<Rightarrow> bool \<Rightarrow> int prog" where
  "DisconnectRequest p terminateDebuggee = request p (Disconnect terminateDebuggee)"

definition ExceptionInfoRequest :: "nat \<Rightarrow> int \<Rightarrow> int prog" where
  "ExceptionInfoRequest p threadID = request p (ExceptionInfo threadID)"

definition SetVariableRequest :: "nat \<Rightarrow> int \<Rightarrow> string \<Rightarrow> string \<Rightarrow> int prog" where
  "SetVariableRequest p ref name val = request p (SetVariable ref name val)"

definition RestartRequest :: "nat \<Rightarrow> jargs option \<Rightarrow> int prog" where
  "RestartRequest p arguments = request p (Restart arguments)"

definition TerminateRequest :: "nat \<Rightarrow> int prog" where
  "TerminateRequest p = request p Terminate"

definition StepBackRequest :: "nat \<Rightarrow> int \<Rightarrow> int prog" where
  "StepBackRequest p threadID = request p (StepBack threadID)"

definition LoadedSourcesRequest :: "nat \<Rightarrow> int prog" where
  "LoadedSourcesRequest p = request p LoadedSources"

definition ModulesRequest :: "nat \<Rightarrow> int prog" where
  "ModulesRequest p = request p Modules"

definition BreakpointLocationsRequest :: "nat \<Rightarrow> string \<Rightarrow> int \<Rightarrow> int prog" where
  "BreakpointLocationsRequest p source line = request p (BreakpointLocations source line)"

definition CompletionsRequest :: "nat \<Rightarrow> string \<Rightarrow> int \<Rightarrow> int \<Rightarrow> int prog" where
  "CompletionsRequest p txt column frameID = request p (Completions txt column frameID)"

definition DisassembleRequest :: "nat \<Rightarrow> string \<Rightarrow> int \<Rightarrow> int \<Rightarrow> int prog" where
  "DisassembleRequest p memoryReference offset count = request p (Disassemble memoryReference offset count)"

definition SetExceptionBreakpointsRequest :: "nat \<Rightarrow> string list \<Rightarrow> int prog" where
  "SetExceptionBreakpointsRequest p filters = request p (SetExceptionBreakpoints filters)"

definition DataBreakpointInfoRequest :: "nat \<Rightarrow> int \<Rightarrow> string \<Rightarrow> int prog" where
  "DataBreakpointInfoRequest p ref name = request p (DataBreakpointInfo ref name)"

definition SetDataBreakpointsRequest :: "nat \<Rightarrow> string list \<Rightarrow> int prog" where
  "SetDataBreakpointsRequest p breakpoints = request p (SetDataBreakpoints breakpoints)"

definition SourceRequest :: "nat \<Rightarrow> int \<Rightarrow> int prog" where
  "SourceRequest p sourceRef = request p (SourceReq sourceRef)"

definition LaunchRequest :: "nat \<Rightarrow> string \<Rightarrow> string \<Rightarrow> bool \<Rightarrow> string list \<Rightarrow> int prog" where
  "LaunchRequest p mode program stopOnEntry args = request p (Launch
     ([(''request'', JStr ''launch''), (''mode'', JStr mode), (''program'', JStr program),
       (''stopOnEntry'', JBool stopOnEntry)] @ (if args \<noteq> [] then [(''args'', JStrs args)] else [])))"

definition CoreRequest :: "nat \<Rightarrow> string \<Rightarrow> string \<Rightarrow> int prog" where
  "CoreRequest p program coreFilePath = request p (Launch [(''request'', JStr ''launch''),
     (''mode'', JStr ''core''), (''program'', JStr program), (''coreFilePath'', JStr coreFilePath)])"

definition AttachRequest :: "nat \<Rightarrow> string \<Rightarrow> int \<Rightarrow> int prog" where
  "AttachRequest p mode processID = request p (Attach [(''request'', JStr ''attach''),
     (''mode'', JStr mode), (''processId'', JInt processID)])"

text \<open>The raw variants, used while the stale flag is set.\<close>

definition AttachRequestRaw :: "nat \<Rightarrow> jargs \<Rightarrow> int prog" where
  "AttachRequestRaw p args = requestRaw p (Attach args)"

definition SetBreakpointsRequestRaw :: "nat \<Rightarrow> string \<Rightarrow> int list \<Rightarrow> int prog" where
  "SetBreakpointsRequestRaw p file lines = requestRaw p (SetBreakpoints file lines)"

definition SetFunctionBreakpointsRequestRaw :: "nat \<Rightarrow> string list \<Rightarrow> int prog" where
  "SetFunctionBreakpointsRequestRaw p functions = requestRaw p (SetFunctionBreakpoints functions)"

definition ConfigurationDoneRequestRaw :: "nat \<Rightarrow> int prog" where
  "ConfigurationDoneRequestRaw p = requestRaw p ConfigurationDone"

subsection \<open>Waiting for responses\<close>

text \<open>The select of \<open>AwaitResponse\<close>: the context or the channel.\<close>

definition response_ready :: "ctx \<Rightarrow> nat \<Rightarrow> nat \<Rightarrow> nat \<Rightarrow> world \<Rightarrow> (dap_msg res \<times> world) option" where
  "response_ready ctx p a pick w = select pick
     ((case ctx_err ctx w of None \<Rightarrow> [] | Some e \<Rightarrow> [(Er e, w)])
      @ (case await_receive a (cl w p) of
           None \<Rightarrow> []
         | Some (x, c') \<Rightarrow> [(case x of Inl e \<Rightarrow> Er e | Inr msg \<Rightarrow> Ok msg, upd_cl p (\<lambda>_. c') w)]))"

definition AwaitResponse :: "ctx \<Rightarrow> nat \<Rightarrow> int \<Rightarrow> dap_msg prog" where
  "AwaitResponse ctx p seq =
     thenP yieldP (
     bindP (getsP (\<lambda>w. await_lookup seq (cl w p))) (\<lambda>ch. case ch of
         None \<Rightarrow> raiseP ErrConnectionStale
       | Some a \<Rightarrow> blockP (response_ready ctx p a)))"

text \<open>The Go types of the responses, as \<^verbatim>\<open>%T\<close> prints them.\<close>

fun body_type :: "resp_body \<Rightarrow> string" where
  "body_type (InitializeR c) = ''*dap.InitializeResponse''"
| "body_type (StackTraceR fs) = ''*dap.StackTraceResponse''"
| "body_type (ScopesR ss) = ''*dap.ScopesResponse''"
| "body_type (VariablesR vs) = ''*dap.VariablesResponse''"
| "body_type (EvaluateR r t) = ''*dap.EvaluateResponse''"
| "body_type (ThreadsR ts) = ''*dap.ThreadsResponse''"
| "body_type (LoadedSourcesR ss) = ''*dap.LoadedSourcesResponse''"
| "body_type (ModulesR ms) = ''*dap.ModulesResponse''"
| "body_type (DisassembleR ds) = ''*dap.DisassembleResponse''"
| "body_type (SetBreakpointsR bs) = ''*dap.SetBreakpointsResponse''"
| "body_type ErrorR = ''*dap.ErrorResponse''"
| "body_type (OtherR t) = t"

fun msg_type :: "dap_msg \<Rightarrow> string" where
  "msg_type (ResponseMessage r) = body_type (rs_body r)"
| "msg_type (EventMessage e) = ''event''"
| "msg_type (OtherMessage t) = t"

definition awaitResponseValidate :: "ctx \<Rightarrow> nat \<Rightarrow> int \<Rightarrow> string \<Rightarrow> unit prog" where
  "awaitResponseValidate ctx p seq errorPrefix =
     bindP (AwaitResponse ctx p seq) (\<lambda>msg. case msg of
         ResponseMessage r \<Rightarrow>
           if \<not> rs_success r then raiseP (ErrNew (errorPrefix @ '': '' @ rs_message r)) else returnP ()
       | _ \<Rightarrow> raiseP (ErrNew (errorPrefix @ '': expected response, got '' @ msg_type msg)))"

text \<open>\<open>awaitResponseTyped[T]\<close>: \<open>sel\<close> selects the body of the type \<open>T\<close>, whose name is \<open>T\<close>.\<close>

definition awaitResponseTyped :: "string \<Rightarrow> (resp_body \<Rightarrow> 'a option) \<Rightarrow> ctx \<Rightarrow> nat \<Rightarrow> int \<Rightarrow> 'a prog" where
  "awaitResponseTyped T sel ctx p seq =
     bindP (AwaitResponse ctx p seq) (\<lambda>msg. case msg of
         ResponseMessage r \<Rightarrow> (case sel (rs_body r) of
             Some b \<Rightarrow> if \<not> rs_success r then raiseP (ErrNew (rs_message r)) else returnP b
           | None \<Rightarrow> if \<not> rs_success r then raiseP (ErrNew (rs_message r))
                     else raiseP (ErrNew (''expected '' @ T @ '', got '' @ body_type (rs_body r)
                       @ '' (seq='' @ itoa seq @ '')'')))
       | _ \<Rightarrow> raiseP (ErrNew (''expected response, got '' @ msg_type msg @ '' (seq='' @ itoa seq @ '')'')))"

text \<open>The common end of \<open>InitializeRequest\<close> and \<open>InitializeRequestRaw\<close>.\<close>

definition initialize_result :: "dap_msg \<Rightarrow> capabilities prog" where
  "initialize_result msg = (case msg of
      ResponseMessage r \<Rightarrow>
        if \<not> rs_success r then raiseP (ErrNew (''initialize failed: '' @ rs_message r))
        else (case rs_body r of
            InitializeR caps \<Rightarrow> returnP caps
          | _ \<Rightarrow> raiseP (ErrNew (''expected InitializeResponse, got '' @ msg_type msg)))
    | _ \<Rightarrow> raiseP (ErrNew (''expected InitializeResponse, got '' @ msg_type msg)))"

definition InitializeRequest :: "ctx \<Rightarrow> nat \<Rightarrow> string \<Rightarrow> capabilities prog" where
  "InitializeRequest ctx p adapterID =
     bindP (request p (Initialize adapterID)) (\<lambda>seq.
     bindP (AwaitResponse ctx p seq) initialize_result)"

definition InitializeRequestRaw :: "ctx \<Rightarrow> nat \<Rightarrow> string \<Rightarrow> capabilities prog" where
  "InitializeRequestRaw ctx p adapterID =
     bindP (requestRaw p (Initialize adapterID)) (\<lambda>seq.
     bindP (AwaitResponse ctx p seq) initialize_result)"

subsection \<open>Waiting for events\<close>

definition SubscribeP :: "nat \<Rightarrow> ev_type \<Rightarrow> int \<Rightarrow> nat prog" where
  "SubscribeP p t since =
     bindP (getsP (\<lambda>w. sub_snapshot (cl w p))) (\<lambda>entries.
     thenP yieldP (
     bindP (clientP p (sub_register t)) (\<lambda>i.
     thenP yieldP (
     thenP (modifyP (upd_cl p (sub_replay since entries i))) (
     returnP i)))))"

definition cancelP :: "nat \<Rightarrow> nat \<Rightarrow> unit prog" where
  "cancelP p i = bindP (getsP (\<lambda>w. sub_stop (c_subs (cl w p) ! i))) (\<lambda>stopped.
     if stopped then returnP ()
     else thenP (modifyP (upd_cl p (sub_remove i))) (
          thenP yieldP (modifyP (upd_cl p (sub_close_stop i)))))"

text \<open>The receive case of a select on subscription \<open>i\<close>: nothing while it blocks, otherwise the
  continuation on the event, or on \<open>None\<close> when the channel is closed.\<close>

definition event_case :: "nat \<Rightarrow> nat \<Rightarrow> (dap_event option \<Rightarrow> 'a res) \<Rightarrow> world \<Rightarrow> ('a res \<times> world) list" where
  "event_case p i k w = (case sub_receive i (cl w p) of
      None \<Rightarrow> []
    | Some (x, c') \<Rightarrow> [(k x, upd_cl p (\<lambda>_. c') w)])"

definition ctx_case :: "ctx \<Rightarrow> world \<Rightarrow> ('a res \<times> world) list" where
  "ctx_case ctx w = (case ctx_err ctx w of None \<Rightarrow> [] | Some e \<Rightarrow> [(Er e, w)])"

text \<open>What a receive from the connection-lost subscription answers.\<close>

definition lost_result :: "dap_event option \<Rightarrow> 'a res" where
  "lost_result x = (case x of
      Some (ConnectionLostEvent e) \<Rightarrow> Er (ErrStaleBecause e)
    | _ \<Rightarrow> Er ErrConnectionStale)"

definition initialized_ready :: "ctx \<Rightarrow> nat \<Rightarrow> nat \<Rightarrow> nat \<Rightarrow> nat \<Rightarrow> world \<Rightarrow> (unit res \<times> world) option" where
  "initialized_ready ctx p initSub lostSub pick w = select pick
     (event_case p initSub (\<lambda>x. if x = None then Er ErrConnectionStale else Ok ()) w
      @ event_case p lostSub lost_result w
      @ ctx_case ctx w)"

definition awaitInitializedEvent :: "ctx \<Rightarrow> nat \<Rightarrow> int \<Rightarrow> unit prog" where
  "awaitInitializedEvent ctx p since =
     bindP (SubscribeP p InitializedT since) (\<lambda>initSub. deferP (
     bindP (SubscribeP p ConnectionLostT since) (\<lambda>lostSub. deferP (
       blockP (initialized_ready ctx p initSub lostSub))
     (cancelP p lostSub)))
     (cancelP p initSub))"

datatype stop_or_term = GotStopped string int | GotTerminated

definition stopped_result :: "dap_event option \<Rightarrow> stop_or_term res" where
  "stopped_result x = (case x of
      Some (StoppedEvent reason tid) \<Rightarrow> Ok (GotStopped reason tid)
    | _ \<Rightarrow> Er ErrConnectionStale)"

definition terminated_result :: "dap_event option \<Rightarrow> stop_or_term res" where
  "terminated_result x = (if x = None then Er ErrConnectionStale else Ok GotTerminated)"

definition stop_ready :: "ctx \<Rightarrow> nat \<Rightarrow> nat \<Rightarrow> nat \<Rightarrow> nat \<Rightarrow> nat \<Rightarrow> world \<Rightarrow> (stop_or_term res \<times> world) option" where
  "stop_ready ctx p stopSub termSub lostSub pick w = select pick
     (event_case p stopSub stopped_result w
      @ event_case p termSub terminated_result w
      @ event_case p lostSub lost_result w
      @ ctx_case ctx w)"

definition awaitStopOrTerminate :: "ctx \<Rightarrow> nat \<Rightarrow> int \<Rightarrow> stop_or_term prog" where
  "awaitStopOrTerminate ctx p since =
     bindP (SubscribeP p StoppedT since) (\<lambda>stopSub. deferP (
     bindP (SubscribeP p TerminatedT since) (\<lambda>termSub. deferP (
     bindP (SubscribeP p ConnectionLostT since) (\<lambda>lostSub. deferP (
       blockP (stop_ready ctx p stopSub termSub lostSub))
     (cancelP p lostSub)))
     (cancelP p termSub)))
     (cancelP p stopSub))"

end
