(* ===== verification/ToolLogic.thy ===== *)
theory ToolLogic
  imports Requests
begin

text \<open>
  Reasoning about programs: triples over results, the well-formedness of worlds (every client object is a
  reachable state of its goroutines), and the frame of a handler that holds the session mutex: the other
  goroutines neither touch the session nor write to a transport, so what has been sent is exactly what
  the handler sent.
\<close>

named_theorems triple \<open>rules for programs\<close>

subsection \<open>Triples\<close>

definition hoare :: "(world \<Rightarrow> bool) \<Rightarrow> 'a prog \<Rightarrow> ('a \<Rightarrow> world \<Rightarrow> bool) \<Rightarrow> (err \<Rightarrow> world \<Rightarrow> bool) \<Rightarrow> (world \<Rightarrow> bool) \<Rightarrow> bool" where
  "hoare P m Q E R \<longleftrightarrow> (\<forall>w. P w \<longrightarrow> (case m w of
      (Ok a, w') \<Rightarrow> Q a w' | (Er e, w') \<Rightarrow> E e w' | (Pending, w') \<Rightarrow> R w' | (Panic, w') \<Rightarrow> False))"

lemma hoare_return: "(\<And>w. P w \<Longrightarrow> Q a w) \<Longrightarrow> hoare P (returnP a) Q E R"
  by (simp add: hoare_def returnP_def)

lemma hoare_raise: "(\<And>w. P w \<Longrightarrow> E e w) \<Longrightarrow> hoare P (raiseP e) Q E R"
  by (simp add: hoare_def raiseP_def)

lemma hoare_bind:
  assumes "hoare P m A E R" "\<And>a. hoare (A a) (k a) Q E R"
  shows "hoare P (bindP m k) Q E R"
  using assms by (fastforce simp: hoare_def bindP_def split: res.splits prod.splits)

lemma hoare_then: "hoare P m (\<lambda>_. A) E R \<Longrightarrow> hoare A k Q E R \<Longrightarrow> hoare P (thenP m k) Q E R"
  unfolding thenP_def by (rule hoare_bind)

lemma hoare_try:
  assumes "hoare P m (\<lambda>a. Q (Inr a)) (\<lambda>e. Q (Inl e)) R"
  shows "hoare P (tryP m) Q E R"
  using assms by (fastforce simp: hoare_def tryP_def split: res.splits prod.splits)

lemma hoare_wrap:
  assumes "hoare P m Q (\<lambda>e. E (f e)) R"
  shows "hoare P (wrapP f m) Q E R"
  using assms by (fastforce simp: hoare_def wrapP_def split: res.splits prod.splits)

lemma hoare_gets: "(\<And>w. P w \<Longrightarrow> Q (f w) w) \<Longrightarrow> hoare P (getsP f) Q E R"
  by (simp add: hoare_def getsP_def)

lemma hoare_modify: "(\<And>w. P w \<Longrightarrow> Q () (f w)) \<Longrightarrow> hoare P (modifyP f) Q E R"
  by (simp add: hoare_def modifyP_def)

lemma hoare_conseq:
  assumes "hoare P' m Q' E' R'" "\<And>w. P w \<Longrightarrow> P' w" "\<And>a w. Q' a w \<Longrightarrow> Q a w"
    "\<And>e w. E' e w \<Longrightarrow> E e w" "\<And>w. R' w \<Longrightarrow> R w"
  shows "hoare P m Q E R"
  using assms by (fastforce simp: hoare_def split: res.splits prod.splits)

lemma hoare_pre: "(\<And>w. P w \<Longrightarrow> P' w) \<Longrightarrow> hoare P' m Q E R \<Longrightarrow> hoare P m Q E R"
  by (simp add: hoare_def)

lemma hoare_defer:
  assumes "hoare P m A B R" "\<And>a. hoare (A a) fin (\<lambda>_. Q a) E R" "\<And>e. hoare (B e) fin (\<lambda>_. E e) E R"
  shows "hoare P (deferP m fin) Q E R"
  unfolding deferP_def
  by (rule hoare_bind [where A = "\<lambda>r. case r of Inr a \<Rightarrow> A a | Inl e \<Rightarrow> B e"])
     (auto intro!: hoare_try hoare_then hoare_return hoare_raise assms split: sum.split)

lemma hoare_D:
  assumes "hoare P m Q E R" "P w"
  shows "m w = (Ok a, w') \<Longrightarrow> Q a w'" "m w = (Er e, w') \<Longrightarrow> E e w'"
    "m w = (Pending, w') \<Longrightarrow> R w'" "m w \<noteq> (Panic, w')"
  using assms by (fastforce simp: hoare_def)+

lemma hoare_if: "(b \<Longrightarrow> hoare P m Q E R) \<Longrightarrow> (\<not> b \<Longrightarrow> hoare P n Q E R) \<Longrightarrow> hoare P (if b then m else n) Q E R"
  by simp

text \<open>A pure precondition is a hypothesis.\<close>

lemma hoare_assume: "(b \<Longrightarrow> hoare P m Q E R) \<Longrightarrow> hoare (\<lambda>w. b \<and> P w) m Q E R"
  by (auto simp: hoare_def)

subsection \<open>Clients in the world\<close>

definition world_ok :: "world \<Rightarrow> bool" where
  "world_ok w \<longleftrightarrow> (\<forall>c \<in> set (w_clients w). reachable c)
     \<and> (\<forall>p. ds_client (w_ds w) = Some p \<longrightarrow> p < length (w_clients w))"

definition steps :: "(client \<Rightarrow> client) \<Rightarrow> bool" where
  "steps f \<longleftrightarrow> (\<forall>c. reachable c \<longrightarrow> sys_step\<^sup>*\<^sup>* c (f c))"

lemma steps_reachable: "steps f \<Longrightarrow> reachable c \<Longrightarrow> reachable (f c)"
  unfolding steps_def using sys_steps_reachable by blast

lemma steps1: "(\<And>c. reachable c \<Longrightarrow> sys_step c (f c)) \<Longrightarrow> steps f"
  by (simp add: steps_def r_into_rtranclp)

lemma sys_steps_markStale: "sys_step\<^sup>*\<^sup>* c (markStale c)"
proof (cases "c_stale c")
  case True
  then show ?thesis by (simp add: markStale_def stale_cas_def)
next
  case False
  let ?d = "c\<lparr>c_stale := True, c_signal := c_signal c + 1\<rparr>"
  have "sys_step c ?d"
    using sys_mark_cas [of c True "c\<lparr>c_stale := True\<rparr>"] False by (simp add: stale_cas_def)
  moreover have "sys_step ?d ((reconn_signal ?d)\<lparr>c_signal := c_signal c\<rparr>)"
    using sys_mark_signal [of ?d] by (simp add: reconn_signal_def split: if_splits)
  moreover have "(reconn_signal ?d)\<lparr>c_signal := c_signal c\<rparr> = markStale c"
    using False by (cases c) (simp add: markStale_def stale_cas_def reconn_signal_def)
  ultimately show ?thesis by (metis r_into_rtranclp rtranclp_trans)
qed

lemma reachable_seq: "reachable c \<Longrightarrow> 1 \<le> c_seq c"
proof (induction rule: reachable.induct)
  case (reach_step c c')
  then show ?case using sys_step_seq by fastforce
qed (simp add: newDAPClientInternal_def)

lemma steps_request: "steps (\<lambda>c. let (seq, c1) = newRequest c; (_, c2) = registerResponseIfAbsent seq c1
    in snd (rawSend None seq cmd c2))"
  unfolding steps_def
proof (intro allI impI)
  fix c assume r: "reachable c"
  let ?c1 = "snd (newRequest c)"
  let ?c2 = "snd (registerResponseIfAbsent (c_seq c) ?c1)"
  have "sys_step c ?c1" by (rule sys_newRequest)
  moreover have "sys_step ?c1 ?c2"
    by (rule sys_register) (use reachable_seq [OF r] in \<open>simp_all add: newRequest_def\<close>)
  moreover have "sys_step ?c2 (snd (rawSend None (c_seq c) cmd ?c2))" by (rule sys_write)
  ultimately have "sys_step\<^sup>*\<^sup>* c (snd (rawSend None (c_seq c) cmd ?c2))" by auto
  then show "sys_step\<^sup>*\<^sup>* c (let (seq, c1) = newRequest c; (_, c2) = registerResponseIfAbsent seq c1
    in snd (rawSend None seq cmd c2))"
    by (simp add: newRequest_def case_prod_beta)
qed

lemma steps_Close: "steps Close"
  unfolding steps_def Close_def
proof (intro allI impI)
  fix c
  have "sys_step c (c\<lparr>c_ctx_done := True\<rparr>)" by (rule sys_cancel)
  moreover have "sys_step (c\<lparr>c_ctx_done := True\<rparr>) (close_conn (c_rwc c) (c\<lparr>c_ctx_done := True\<rparr>))"
    by (rule sys_close)
  ultimately show "sys_step\<^sup>*\<^sup>* c (close_conn (c_rwc c) (c\<lparr>c_ctx_done := True\<rparr>))" by auto
qed

lemma steps_bridge: "steps (\<lambda>c. if i < length (c_subs c) then bridge_step b i c else c)"
  by (auto simp: steps_def intro: sys_bridge r_into_rtranclp)

lemma steps_pump: "steps (pump_step i b now)"
  by (rule steps1) (rule sys_pump)

lemma steps_recon: "steps (recon_step base m i b)"
  by (rule steps1) (rule sys_recon)

text \<open>How a world can develop: no client object disappears and each moves by steps of its system.\<close>

definition wle :: "world \<Rightarrow> world \<Rightarrow> bool" where
  "wle w w' \<longleftrightarrow> length (w_clients w) \<le> length (w_clients w')
     \<and> (\<forall>p < length (w_clients w). sys_step\<^sup>*\<^sup>* (cl w p) (cl w' p))"

lemma wle_refl [simp]: "wle w w"
  by (simp add: wle_def)

lemma wle_trans: "wle w w' \<Longrightarrow> wle w' w'' \<Longrightarrow> wle w w''"
  by (auto simp: wle_def) (meson less_le_trans rtranclp_trans)

lemma world_ok_reach: "world_ok w \<Longrightarrow> p < length (w_clients w) \<Longrightarrow> reachable (cl w p)"
  by (simp add: world_ok_def cl_def)

lemma length_upd_cl [simp]: "length (w_clients (upd_cl p f w)) = length (w_clients w)"
  by (simp add: upd_cl_def)

lemma upd_cl_frame [simp]:
  "w_ds (upd_cl p f w) = w_ds w" "w_locked (upd_cl p f w) = w_locked w" "w_now (upd_cl p f w) = w_now w"
  "w_future (upd_cl p f w) = w_future w" "w_server (upd_cl p f w) = w_server w"
  "w_procs (upd_cl p f w) = w_procs w" "w_rank (upd_cl p f w) = w_rank w"
  "w_exec (upd_cl p f w) = w_exec w" "w_dial (upd_cl p f w) = w_dial w" "w_gdb (upd_cl p f w) = w_gdb w"
  "w_cancelled (upd_cl p f w) = w_cancelled w" "w_writes (upd_cl p f w) = w_writes w"
  by (simp_all add: upd_cl_def)

lemma upd_cl_ok: "world_ok w \<Longrightarrow> (\<And>c. c = cl w p \<Longrightarrow> reachable c \<Longrightarrow> reachable (f c)) \<Longrightarrow> world_ok (upd_cl p f w)"
  by (auto simp: world_ok_def upd_cl_def cl_def dest!: subsetD [OF set_update_subset_insert])

lemma upd_cl_wle:
  "world_ok w \<Longrightarrow> (\<And>c. c = cl w p \<Longrightarrow> reachable c \<Longrightarrow> sys_step\<^sup>*\<^sup>* c (f c)) \<Longrightarrow> wle w (upd_cl p f w)"
  by (auto simp: wle_def cl_upd_cl world_ok_reach)

lemma steps_upd: "steps f \<Longrightarrow> world_ok w \<Longrightarrow> world_ok (upd_cl p f w) \<and> wle w (upd_cl p f w)"
  by (simp add: upd_cl_ok upd_cl_wle steps_reachable) (simp add: steps_def upd_cl_wle)

subsection \<open>What the environment preserves\<close>

definition sent :: "world \<Rightarrow> nat \<Rightarrow> command list" where
  "sent w p = map (\<lambda>x. snd (snd x)) (c_wire (cl w p))"

lemma pump_step_wire [simp]: "c_wire (pump_step i b now c) = c_wire c"
proof (cases "c_pump c")
  case (PRespond r)
  obtain x c' where t: "take_response (rs_seq r) c = (x, c')" by force
  then have "c_wire c' = c_wire c" by (auto simp: take_response_def split: option.splits)
  then show ?thesis using PRespond t by (simp add: pump_step_def pump_goto_def split: option.split)
next
  case (PDeliver a r)
  then show ?thesis
    by (auto simp: pump_step_def pump_goto_def chan_send_def Let_def split: option.split)
qed (auto simp: pump_step_def pump_goto_def client_frame stale_cas_def reconn_signal_def push_ring_def
      fan_out_def upd_sub_def split: pump_in.split list.split option.split)

lemma recon_step_wire [simp]: "c_wire (recon_step base m i b c) = c_wire c"
  by (cases "c_recon c")
     (auto simp: recon_step_def recon_goto_def close_conn_def dial_failed_def swap_conn_def
        resume_pump_def stale_cas_def reconn_signal_def client_frame split: recon_in.split)

lemma bridge_step_wire [simp]: "c_wire (bridge_step b i c) = c_wire c"
  by (simp add: bridge_step_def upd_sub_def)

lemma upd_ds_frame [simp]:
  "w_clients (upd_ds f w) = w_clients w" "w_ds (upd_ds f w) = f (w_ds w)" "w_locked (upd_ds f w) = w_locked w"
  "w_now (upd_ds f w) = w_now w" "w_future (upd_ds f w) = w_future w" "w_server (upd_ds f w) = w_server w"
  "w_procs (upd_ds f w) = w_procs w" "w_rank (upd_ds f w) = w_rank w" "w_exec (upd_ds f w) = w_exec w"
  "w_dial (upd_ds f w) = w_dial w" "w_gdb (upd_ds f w) = w_gdb w" "w_writes (upd_ds f w) = w_writes w"
  "w_cancelled (upd_ds f w) = w_cancelled w" "cl (upd_ds f w) p = cl w p" "sent (upd_ds f w) p = sent w p"
  by (simp_all add: upd_ds_def cl_def sent_def)

lemma sent_upd_cl: "sent (upd_cl q f w) p =
    (if q = p \<and> p < length (w_clients w) then map (\<lambda>x. snd (snd x)) (c_wire (f (cl w p))) else sent w p)"
  by (simp add: sent_def cl_upd_cl)

lemma upd_ds_ok:
  "world_ok w \<Longrightarrow> (\<And>p. ds_client (f (w_ds w)) = Some p \<Longrightarrow> p < length (w_clients w)) \<Longrightarrow> world_ok (upd_ds f w)"
  by (simp add: world_ok_def)

lemma wle_upd_ds [simp]: "wle w (upd_ds f w') = wle w w'"
  by (simp add: wle_def)

lemma end_session_frame [simp]:
  "w_rank (end_session w) = w_rank w" "w_exec (end_session w) = w_exec w" "w_dial (end_session w) = w_dial w"
  "w_gdb (end_session w) = w_gdb w" "w_locked (end_session w) = w_locked w" "w_now (end_session w) = w_now w"
  "length (w_clients (end_session w)) = length (w_clients w)" "w_writes (end_session w) = w_writes w"
  "w_ds (end_session w) = reset_session ((w_ds w)\<lparr>ds_client := None, ds_cmd := False\<rparr>)"
  "w_procs (end_session w) = w_procs w - (if ds_cmd (w_ds w) then 1 else 0)"
  "w_server (end_session w) = w_server w @ unregistration always_tools"
  by (simp_all add: end_session_def Let_def reset_session_def sessionToolNames_def gated_tools_def no_capabilities_def
      split: option.split)

lemma w_clients_end: "w_clients (end_session w)
    = w_clients (case ds_client (w_ds w) of None \<Rightarrow> w | Some p \<Rightarrow> upd_cl p Close w)"
  by (simp add: end_session_def Let_def)

lemma end_session_ok: "world_ok w \<Longrightarrow> world_ok (end_session w) \<and> wle w (end_session w)"
  using steps_upd [OF steps_Close, of w]
  by (auto simp: world_ok_def wle_def cl_def w_clients_end reset_session_def split: option.split)

lemma env_do_ok: "world_ok w \<Longrightarrow> world_ok (env_do a w) \<and> wle w (env_do a w)"
proof (induction a w rule: env_do.induct)
  case (1 p i b w)
  then show ?case using steps_upd [OF steps_pump] by simp
next
  case (2 p i b w)
  then show ?case using steps_upd [OF steps_recon] by simp
next
  case (3 p r w)
  then show ?case
    using steps_upd [OF steps_recon]
    by (auto simp: reinit_session_def world_ok_def split: hook_end.split option.split)
next
  case (4 p i b w)
  then show ?case using steps_upd [OF steps_bridge] by simp
next
  case (6 w)
  then show ?case using end_session_ok by simp
next
  case (7 p cmd w)
  then show ?case using steps_upd [OF steps_request] by simp
qed (simp add: world_ok_def wle_def cl_def)

lemma env_do_static:
  "w_rank (env_do a w) = w_rank w"
  "w_exec (env_do a w) = w_exec w" "w_dial (env_do a w) = w_dial w" "w_gdb (env_do a w) = w_gdb w"
  "w_locked (env_do a w) = w_locked w" "w_now (env_do a w) = w_now w"
  "length (w_clients (env_do a w)) = length (w_clients w)" "w_writes (env_do a w) = w_writes w"
  by (induction a w rule: env_do.induct) (auto split: hook_end.split option.split)

lemma env_do_locked:
  assumes "w_locked w"
  shows "w_ds (env_do a w) = w_ds w" "sent (env_do a w) p = sent w p" "w_server (env_do a w) = w_server w"
    "w_procs (env_do a w) = w_procs w"
  using assms
  by (induction a w rule: env_do.induct)
     (auto simp: sent_upd_cl, auto simp: sent_def cl_def)

text \<open>A predicate that no action of the other goroutines and no passing of time can falsify.\<close>

definition stable :: "(world \<Rightarrow> bool) \<Rightarrow> bool" where
  "stable I \<longleftrightarrow> (\<forall>a w. I w \<longrightarrow> I (env_do a w))
     \<and> (\<forall>t w. I w \<longrightarrow> I (w\<lparr>w_now := w_now w + int t\<rparr>)) \<and> (\<forall>rs w. I w \<longrightarrow> I (w\<lparr>w_future := rs\<rparr>))"

lemma stable_round: "stable I \<Longrightarrow> I w \<Longrightarrow> I ((env_round r w)\<lparr>w_future := rs\<rparr>)"
proof -
  assume st: "stable I" and "I w"
  then have "I (w\<lparr>w_now := w_now w + int (r_dt r)\<rparr>)" by (simp add: stable_def)
  then have "I (fold env_do (r_acts r) (w\<lparr>w_now := w_now w + int (r_dt r)\<rparr>))"
    by (induction "r_acts r" arbitrary: w rule: rev_induct)
       (use st in \<open>simp_all add: stable_def fold_invariant [where Q = "\<lambda>_. True" and P = I]\<close>)
  then show ?thesis using st by (simp add: stable_def env_round_def)
qed

lemma hoare_yield: "stable I \<Longrightarrow> hoare I yieldP (\<lambda>_. I) E R"
  by (auto simp: hoare_def yieldP_def stable_round split: list.split)

lemma hoare_block:
  assumes "stable I"
    and "\<And>pick w a w'. I w \<Longrightarrow> f pick w = Some (Ok a, w') \<Longrightarrow> Q a w'"
    and "\<And>pick w e w'. I w \<Longrightarrow> f pick w = Some (Er e, w') \<Longrightarrow> E e w'"
    and "\<And>pick w w'. I w \<Longrightarrow> f pick w = Some (Pending, w') \<Longrightarrow> R w'"
    and "\<And>pick w w'. I w \<Longrightarrow> f pick w = Some (Panic, w') \<Longrightarrow> False"
    and "\<And>w. I w \<Longrightarrow> R w"
  shows "hoare I (blockP f) Q E R"
proof -
  have "(case wait_rounds f rs w of (Ok a, w') \<Rightarrow> Q a w' | (Er e, w') \<Rightarrow> E e w'
      | (Pending, w') \<Rightarrow> R w' | (Panic, w') \<Rightarrow> False)" if "I w" for rs w
    using that
  proof (induction rs arbitrary: w)
    case Nil
    then show ?case by (simp add: assms(6))
  next
    case (Cons r rs)
    let ?w = "(env_round r w)\<lparr>w_future := rs\<rparr>"
    have I: "I ?w" by (rule stable_round [OF assms(1) Cons.prems])
    show ?case
    proof (cases "f (r_pick r) ?w")
      case None
      then show ?thesis using Cons.IH [OF I] by (simp add: Let_def)
    next
      case (Some x)
      obtain res w' where x: "x = (res, w')" by force
      then show ?thesis
        using Some I assms(2-5) by (cases res) (simp_all add: Let_def)
    qed
  qed
  then show ?thesis by (simp add: hoare_def blockP_def)
qed

lemma select_in: "select pick xs = Some x \<Longrightarrow> x \<in> set xs"
  by (auto simp: select_def split: if_splits)

subsection \<open>The frame of a handler\<close>

text \<open>Subscriptions are never forgotten, only cancelled.\<close>

lemma pump_step_nsubs: "length (c_subs (pump_step i b now c)) = length (c_subs c)"
proof (cases "c_pump c")
  case (PRespond r)
  obtain x c' where t: "take_response (rs_seq r) c = (x, c')" by force
  then show ?thesis using PRespond
    by (simp add: pump_step_def pump_goto_def take_response_frame [OF t] split: option.split)
next
  case (PDeliver a r)
  then show ?thesis
    by (auto simp: pump_step_def pump_goto_def chan_send_frame split: option.split)
qed (simp_all add: pump_step_def pump_goto_def client_frame stale_cas_def reconn_signal_def
      split: pump_in.split list.split)

lemma sys_step_nsubs: "sys_step c c' \<Longrightarrow> length (c_subs c) \<le> length (c_subs c')"
proof (induction rule: sys_step.induct)
  case (sys_receive a c r c')
  then show ?case by (auto simp: await_receive_def Let_def split: list.splits if_splits)
next
  case (sys_sub_receive i c e c')
  then show ?case by (auto simp: sub_receive_def upd_sub_def split: list.splits if_splits)
next
  case (sys_mark_cas c won c')
  then show ?case by (auto simp: stale_cas_def split: if_splits)
qed (simp_all add: pump_step_nsubs recon_step_bus bridge_step_def upd_sub_def newRequest_def Start_def
       startReadLoop_def rawSend_def sub_register_def sub_replay_def sub_remove_def sub_close_stop_def
       SetReinitHook_def close_conn_def reconn_signal_def registerResponseIfAbsent_def
       unregisterResponse_def split: option.split)

lemma sys_steps_nsubs: "sys_step\<^sup>*\<^sup>* c c' \<Longrightarrow> length (c_subs c) \<le> length (c_subs c')"
  by (induction rule: rtranclp_induct) (auto dest: sys_step_nsubs)

definition nsubs :: "world \<Rightarrow> nat \<Rightarrow> nat" where
  "nsubs w p = length (c_subs (cl w p))"

lemma env_do_nsubs:
  assumes "world_ok w" "p < length (w_clients w)"
  shows "nsubs w p \<le> nsubs (env_do a w) p"
proof -
  have "wle w (env_do a w)" using env_do_ok [OF assms(1)] by blast
  then show ?thesis using assms(2) by (simp add: wle_def nsubs_def sys_steps_nsubs)
qed

lemma subs_ops [simp]:
  "c_subs (snd (newRequest c)) = c_subs c" "c_subs (snd (registerResponseIfAbsent seq c)) = c_subs c"
  "c_subs (unregisterResponse seq c) = c_subs c" "c_subs (markStale c) = c_subs c"
  "c_subs (snd (rawSend x seq cmd c)) = c_subs c"
  by (simp_all add: newRequest_def registerResponseIfAbsent_def unregisterResponse_def markStale_def
      stale_cas_def reconn_signal_def rawSend_def split: option.split)

definition same :: "world \<Rightarrow> world \<Rightarrow> bool" where
  "same w0 w \<longleftrightarrow> w_ds w = w_ds w0 \<and> w_server w = w_server w0 \<and> w_procs w = w_procs w0
     \<and> w_rank w = w_rank w0 \<and> w_exec w = w_exec w0 \<and> w_dial w = w_dial w0 \<and> w_gdb w = w_gdb w0
     \<and> w_now w0 \<le> w_now w \<and> length (w_clients w) = length (w_clients w0)"

definition frame :: "world \<Rightarrow> nat \<Rightarrow> command list \<Rightarrow> world \<Rightarrow> bool" where
  "frame w0 p s w \<longleftrightarrow> world_ok w \<and> w_locked w \<and> same w0 w \<and> p < length (w_clients w) \<and> sent w p = s
     \<and> nsubs w0 p \<le> nsubs w p"

lemma frame_stable: "stable (frame w0 p s)"
  unfolding stable_def
proof (intro conjI allI impI)
  fix a w assume "frame w0 p s w"
  then show "frame w0 p s (env_do a w)"
    using env_do_nsubs [of w p a]
    by (simp add: frame_def same_def env_do_ok env_do_static env_do_locked)
qed (auto simp: frame_def same_def world_ok_def sent_def cl_def nsubs_def)

lemma stable_conj: "stable I \<Longrightarrow> stable J \<Longrightarrow> stable (\<lambda>w. I w \<and> J w)"
  by (simp add: stable_def)

lemma frame_upd:
  assumes "frame w0 p s w" "\<And>c. c = cl w q \<Longrightarrow> reachable c \<Longrightarrow> reachable (f c)"
    "q = p \<Longrightarrow> c_wire (f (cl w p)) = c_wire (cl w p)"
    "q = p \<Longrightarrow> length (c_subs (cl w p)) \<le> length (c_subs (f (cl w p)))"
  shows "frame w0 p s (upd_cl q f w)"
proof -
  have "nsubs w p \<le> nsubs (upd_cl q f w) p" using assms(4) by (simp add: nsubs_def cl_upd_cl)
  then show ?thesis
    using assms(1,3) upd_cl_ok [of w q f] assms(2)
    by (auto simp: frame_def same_def sent_upd_cl) (auto simp: sent_def)
qed

lemma frame_reach: "frame w0 p s w \<Longrightarrow> reachable (cl w p)"
  by (simp add: frame_def world_ok_reach)

text \<open>A change of the session moves the frame.\<close>

lemma frame_upd_ds:
  assumes "frame w0 p s w" "\<And>q. ds_client (f (w_ds w0)) = Some q \<Longrightarrow> q < length (w_clients w0)"
  shows "frame (upd_ds f w0) p s (upd_ds f w)"
  using assms by (auto simp: frame_def same_def world_ok_def nsubs_def)

subsection \<open>Requests and responses within a frame\<close>

lemma frame_now: "frame w0 p s w \<Longrightarrow> frame w p s w"
  by (simp add: frame_def same_def)

lemma frame_next_write: "frame w0 p s (snd (next_write w)) = frame w0 p s w"
  by (simp add: next_write_def frame_def same_def world_ok_def sent_def cl_def nsubs_def split: list.split)

lemma cl_next_write [simp]: "cl (snd (next_write w)) p = cl w p"
  by (simp add: next_write_def cl_def split: list.split)

lemma reach_ops:
  "reachable c \<Longrightarrow> reachable (snd (newRequest c))"
  "reachable c \<Longrightarrow> 1 \<le> seq \<Longrightarrow> seq < c_seq c \<Longrightarrow> reachable (snd (registerResponseIfAbsent seq c))"
  "reachable c \<Longrightarrow> reachable (unregisterResponse seq c)"
  "reachable c \<Longrightarrow> reachable (snd (rawSend x seq cmd c))"
  "reachable c \<Longrightarrow> reachable (markStale c)"
  by (blast intro: reach_step sys_newRequest sys_register sys_unregister sys_write
      sys_steps_reachable [OF sys_steps_markStale])+

lemma wire_ops [simp]:
  "c_wire (snd (newRequest c)) = c_wire c" "c_wire (snd (registerResponseIfAbsent seq c)) = c_wire c"
  "c_wire (unregisterResponse seq c) = c_wire c" "c_wire (markStale c) = c_wire c"
  "c_wire (snd (rawSend (Some e) seq cmd c)) = c_wire c"
  by (simp_all add: newRequest_def registerResponseIfAbsent_def unregisterResponse_def markStale_def
      stale_cas_def reconn_signal_def rawSend_def)

lemma newRequestP_triple:
  "hoare (frame w0 p s) (newRequestP p)
     (\<lambda>seq w. frame w0 p s w \<and> 1 \<le> seq \<and> seq < c_seq (cl w p)) E R"
proof (unfold hoare_def, intro allI impI)
  fix w assume f: "frame w0 p s w"
  have "frame w0 p s (upd_cl p (\<lambda>c. snd (newRequest c)) w)"
    by (rule frame_upd [OF f]) (simp_all add: reach_ops)
  moreover have "p < length (w_clients w)" using f by (simp add: frame_def)
  ultimately show "case newRequestP p w of (Ok a, w') \<Rightarrow> frame w0 p s w' \<and> 1 \<le> a \<and> a < c_seq (cl w' p)
      | (Er e, w') \<Rightarrow> E e w' | (Pending, w') \<Rightarrow> R w' | (Panic, w') \<Rightarrow> False"
    using reachable_seq [OF frame_reach [OF f]]
    by (simp add: newRequestP_def clientP_def cl_upd_cl) (simp add: newRequest_def)
qed

lemma registerP_triple:
  "hoare (\<lambda>w. frame w0 p s w \<and> 1 \<le> seq \<and> seq < c_seq (cl w p)) (registerP p seq)
     (\<lambda>_. frame w0 p s) E R"
proof (unfold hoare_def, intro allI impI)
  fix w assume f: "frame w0 p s w \<and> 1 \<le> seq \<and> seq < c_seq (cl w p)"
  then have "frame w0 p s (upd_cl p (\<lambda>c. snd (registerResponseIfAbsent seq c)) w)"
    by (intro frame_upd) (simp_all add: reach_ops)
  then show "case registerP p seq w of (Ok a, w') \<Rightarrow> frame w0 p s w'
      | (Er e, w') \<Rightarrow> E e w' | (Pending, w') \<Rightarrow> R w' | (Panic, w') \<Rightarrow> False"
    by (simp add: registerP_def clientP_def)
qed

lemma unregisterP_triple: "hoare (frame w0 p s) (unregisterP p seq) (\<lambda>_. frame w0 p s) E R"
  unfolding unregisterP_def
  by (rule hoare_modify) (auto intro!: frame_upd simp: reach_ops)

lemma markStaleP_triple: "hoare (frame w0 p s) (markStaleP p) (\<lambda>_. frame w0 p s) E R"
  unfolding markStaleP_def
proof (rule hoare_modify)
  fix w assume f: "frame w0 p s w"
  show "frame w0 p s (upd_cl p markStale w)"
    by (rule frame_upd [OF f]) (simp_all add: reach_ops)
qed

lemma rawSendP_triple:
  "hoare (frame w0 p s) (rawSendP p seq cmd) (\<lambda>_. frame w0 p (s @ [cmd])) (\<lambda>_. frame w0 p s) R"
proof (unfold hoare_def, intro allI impI)
  fix w assume f: "frame w0 p s w"
  let ?w = "snd (next_write w)"
  have f': "frame w0 p s ?w" using f by (simp add: frame_next_write)
  have "world_ok (upd_cl p (\<lambda>c. snd (rawSend None seq cmd c)) ?w)"
    using f' by (auto intro!: upd_cl_ok simp: frame_def reach_ops)
  then have ok: "frame w0 p (s @ [cmd]) (upd_cl p (\<lambda>c. snd (rawSend None seq cmd c)) ?w)"
    using f' by (auto simp: frame_def same_def sent_upd_cl rawSend_def nsubs_def cl_upd_cl) (auto simp: sent_def)
  have er: "frame w0 p s (upd_cl p (\<lambda>c. snd (rawSend (Some e) seq cmd c)) ?w)" for e
    by (rule frame_upd [OF f']) (simp_all add: reach_ops)
  show "case rawSendP p seq cmd w of (Ok a, w') \<Rightarrow> frame w0 p (s @ [cmd]) w'
      | (Er e, w') \<Rightarrow> frame w0 p s w' | (Pending, w') \<Rightarrow> R w' | (Panic, w') \<Rightarrow> False"
    using ok er by (simp add: rawSendP_def case_prod_beta split: option.split)
qed

lemma yield_frame: "hoare (frame w0 p s) yieldP (\<lambda>_. frame w0 p s) E R"
  by (rule hoare_yield [OF frame_stable])

lemma gets_frame: "hoare (frame w0 p s) (getsP f) (\<lambda>_. frame w0 p s) E R"
  by (rule hoare_gets)

text \<open>A request either is on the wire, as the next command, or was not sent and is an error.\<close>

abbreviation sends :: "world \<Rightarrow> nat \<Rightarrow> command list \<Rightarrow> int prog \<Rightarrow> command \<Rightarrow> bool" where
  "sends w0 p s m cmd \<equiv> hoare (frame w0 p s) m (\<lambda>_. frame w0 p (s @ [cmd])) (\<lambda>_. frame w0 p s) (frame w0 p s)"

lemma sendAndRegisterRaw_triple:
  "hoare (\<lambda>w. frame w0 p s w \<and> 1 \<le> seq \<and> seq < c_seq (cl w p)) (sendAndRegisterRaw p seq cmd)
     (\<lambda>_. frame w0 p (s @ [cmd])) (\<lambda>_. frame w0 p s) (frame w0 p s)"
  unfolding sendAndRegisterRaw_def
  by (rule hoare_bind [OF registerP_triple] hoare_then [OF yield_frame]
        hoare_bind [where A = "\<lambda>r. case r of Inr _ \<Rightarrow> frame w0 p (s @ [cmd]) | Inl _ \<Rightarrow> frame w0 p s"])+
     (auto intro!: hoare_try hoare_return hoare_raise hoare_then [OF unregisterP_triple]
       hoare_conseq [OF rawSendP_triple [where R = "frame w0 p s"]] hoare_then [where A = "frame w0 p s"]
       split: sum.split)

lemma sendAndRegister_triple:
  "hoare (\<lambda>w. frame w0 p s w \<and> 1 \<le> seq \<and> seq < c_seq (cl w p)) (sendAndRegister p seq cmd)
     (\<lambda>_. frame w0 p (s @ [cmd])) (\<lambda>_. frame w0 p s) (frame w0 p s)"
proof -
  have err: "hoare (frame w0 p s) (thenP (if newly then unregisterP p seq else returnP ())
      (thenP (markStaleP p) (raiseP e))) (\<lambda>_. frame w0 p (s @ [cmd])) (\<lambda>_. frame w0 p s) (frame w0 p s)" for newly e
    by (rule hoare_then [where A = "frame w0 p s"])
       (auto intro!: unregisterP_triple hoare_return hoare_then [OF markStaleP_triple] hoare_raise)
  have main: "hoare (\<lambda>w. frame w0 p s w \<and> 1 \<le> seq \<and> seq < c_seq (cl w p))
     (bindP (registerP p seq) (\<lambda>newly. thenP yieldP (bindP (tryP (rawSendP p seq cmd)) (\<lambda>r. case r of
         Inr _ \<Rightarrow> returnP ()
       | Inl e \<Rightarrow> thenP (if newly then unregisterP p seq else returnP ())
                   (thenP (markStaleP p) (raiseP e))))))
     (\<lambda>_. frame w0 p (s @ [cmd])) (\<lambda>_. frame w0 p s) (frame w0 p s)"
    by (rule hoare_bind [OF registerP_triple] hoare_then [OF yield_frame]
        hoare_bind [where A = "\<lambda>r. case r of Inr _ \<Rightarrow> frame w0 p (s @ [cmd]) | Inl _ \<Rightarrow> frame w0 p s"])+
       (auto intro!: hoare_try hoare_return err
         hoare_conseq [OF rawSendP_triple [where R = "frame w0 p s"]] split: sum.split split del: if_split)
  show ?thesis
    unfolding sendAndRegister_def staleP_def
    by (rule hoare_bind, rule hoare_gets, assumption, rule hoare_if, rule hoare_raise, simp, rule main)
qed

lemma request_triple: "sends w0 p s (request p cmd) cmd"
  unfolding request_def
  by (rule hoare_bind [OF newRequestP_triple], rule hoare_then [OF sendAndRegister_triple])
     (rule hoare_return)

lemma requestRaw_triple: "sends w0 p s (requestRaw p cmd) cmd"
  unfolding requestRaw_def
  by (rule hoare_bind [OF newRequestP_triple], rule hoare_then [OF sendAndRegisterRaw_triple])
     (rule hoare_return)

lemma hoare_state: "(\<And>w1. P w1 \<Longrightarrow> hoare (\<lambda>w. w = w1) m Q E R) \<Longrightarrow> hoare P m Q E R"
  by (simp add: hoare_def)

text \<open>A world in which \<open>p\<close> points to a client object.\<close>

definition live :: "nat \<Rightarrow> world \<Rightarrow> bool" where
  "live p w \<longleftrightarrow> world_ok w \<and> p < length (w_clients w)"

lemma live_stable: "stable (live p)"
  by (auto simp: stable_def live_def env_do_ok env_do_static) (auto simp: world_ok_def)

lemma frame_live: "frame w0 p s w \<Longrightarrow> live p w"
  by (simp add: frame_def live_def)

lemma stable_steps:
  assumes "stable I" "\<And>w. I w \<Longrightarrow> live p w"
  shows "stable (\<lambda>w. I w \<and> sys_step\<^sup>*\<^sup>* c0 (cl w p))"
  unfolding stable_def
proof (intro conjI allI impI)
  fix a w assume f: "I w \<and> sys_step\<^sup>*\<^sup>* c0 (cl w p)"
  then show "I (env_do a w)" using assms(1) by (simp add: stable_def)
  have "wle w (env_do a w)" using f assms(2) env_do_ok by (auto simp: live_def)
  then have "sys_step\<^sup>*\<^sup>* (cl w p) (cl (env_do a w) p)" using f assms(2) by (auto simp: wle_def live_def)
  then show "sys_step\<^sup>*\<^sup>* c0 (cl (env_do a w) p)" using f by (meson rtranclp_trans)
next
  fix t :: nat and w assume f: "I w \<and> sys_step\<^sup>*\<^sup>* c0 (cl w p)"
  then show "I (w\<lparr>w_now := w_now w + int t\<rparr>)" using assms(1) by (simp add: stable_def)
  show "sys_step\<^sup>*\<^sup>* c0 (cl (w\<lparr>w_now := w_now w + int t\<rparr>) p)" using f by (simp add: cl_def)
next
  fix rs w assume f: "I w \<and> sys_step\<^sup>*\<^sup>* c0 (cl w p)"
  then show "I (w\<lparr>w_future := rs\<rparr>)" using assms(1) by (simp add: stable_def)
  show "sys_step\<^sup>*\<^sup>* c0 (cl (w\<lparr>w_future := rs\<rparr>) p)" using f by (simp add: cl_def)
qed

lemma await_receive_reach:
  "reachable c \<Longrightarrow> a < length (c_chans c) \<Longrightarrow> await_receive a c = Some (x, c') \<Longrightarrow> reachable c'"
  by (rule reach_step [OF _ sys_receive])

lemma await_receive_wire: "await_receive a c = Some (x, c') \<Longrightarrow> c_wire c' = c_wire c"
  by (auto simp: await_receive_def Let_def split: list.splits if_splits)

lemma await_receive_subs: "await_receive a c = Some (x, c') \<Longrightarrow> c_subs c' = c_subs c"
  by (auto simp: await_receive_def Let_def split: list.splits if_splits)

lemma steps_chans: "sys_step\<^sup>*\<^sup>* c c' \<Longrightarrow> routed os c \<Longrightarrow> length os \<le> length (c_chans c')"
  using sys_steps_routed [of c c' os] by (fastforce simp: routed_def bufs_def dest: arg_cong [where f = length])

text \<open>A step of the client's system that writes nothing preserves \<open>I\<close>.\<close>

definition silent :: "(world \<Rightarrow> bool) \<Rightarrow> nat \<Rightarrow> bool" where
  "silent I p \<longleftrightarrow> (\<forall>w f. I w \<longrightarrow> sys_step (cl w p) (f (cl w p)) \<longrightarrow> c_wire (f (cl w p)) = c_wire (cl w p)
     \<longrightarrow> I (upd_cl p f w))"

lemma silent_frame: "silent (frame w0 p s) p"
  by (auto simp: silent_def intro!: frame_upd intro: reach_step dest: sys_step_nsubs)

lemma silent_live: "silent (live p) p"
  by (auto simp: silent_def live_def intro!: upd_cl_ok intro: reach_step)

text \<open>What a waiting function needs of an invariant to keep it.\<close>

definition admissible :: "(world \<Rightarrow> bool) \<Rightarrow> nat \<Rightarrow> bool" where
  "admissible I p \<longleftrightarrow> stable I \<and> silent I p \<and> (\<forall>w. I w \<longrightarrow> live p w)"

lemma admissibleD:
  assumes "admissible I p" shows "stable I" "silent I p" "I w \<Longrightarrow> live p w"
  using assms by (simp_all add: admissible_def)

lemma frame_admissible: "admissible (frame w0 p s) p"
  by (simp add: admissible_def frame_stable silent_frame frame_live)

lemma live_admissible: "admissible (live p) p"
  by (simp add: admissible_def live_stable silent_live)

lemma response_ready_ok:
  assumes I: "I w" "silent I p" "live p w" and st: "sys_step\<^sup>*\<^sup>* c0 (cl w p)" and r0: "reachable c0"
    and look: "await_lookup seq c0 = Some a" and ready: "response_ready ctx p a pick w = Some (res, w')"
  shows "I w' \<and> (case res of Ok msg \<Rightarrow> \<exists>r. msg = ResponseMessage r \<and> rs_seq r = seq
      | Er e \<Rightarrow> True | _ \<Rightarrow> False)"
proof -
  obtain os where os: "routed os c0" using reachable_routed [OF r0] by blast
  have "(seq, a) \<in> set (c_responses c0)" using look by (auto simp: await_lookup_def dest: map_of_SomeD)
  then have "a < length os" using os by (auto simp: routed_def)
  then have len: "a < length (c_chans (cl w p))" using steps_chans [OF st os] by simp
  have r: "reachable (cl w p)" using I(3) by (simp add: live_def world_ok_reach)
  have upd: "I (upd_cl p (\<lambda>_. c') w)" if "await_receive a (cl w p) = Some (x, c')" for x c'
    using I(1,2) sys_receive [OF len that] await_receive_wire [OF that] by (simp add: silent_def)
  consider e where "res = Er e" "w' = w"
    | x c' where "await_receive a (cl w p) = Some (x, c')" "w' = upd_cl p (\<lambda>_. c') w"
        "res = (case x of Inl e \<Rightarrow> Er e | Inr msg \<Rightarrow> Ok msg)"
    using select_in [OF ready [unfolded response_ready_def]]
    by (cases "ctx_err ctx w"; cases "await_receive a (cl w p)") auto
  then show ?thesis
  proof cases
    case 2
    then show ?thesis using upd response_matches [OF r0 look st] by (auto split: sum.split)
  qed (use I(1) in simp)
qed

lemma AwaitResponse_ok:
  assumes adm: "admissible I p"
  shows "hoare I (AwaitResponse ctx p seq)
    (\<lambda>msg w. I w \<and> (\<exists>r. msg = ResponseMessage r \<and> rs_seq r = seq)) (\<lambda>_. I) I"
proof -
  note I = admissibleD [OF adm]
  show ?thesis
  unfolding AwaitResponse_def
proof (rule hoare_then [OF hoare_yield [OF I(1)]],
    rule hoare_bind [where A = "\<lambda>ch w. I w \<and> ch = await_lookup seq (cl w p)"])
  show "hoare I (getsP (\<lambda>w. await_lookup seq (cl w p))) (\<lambda>ch w. I w \<and> ch = await_lookup seq (cl w p)) (\<lambda>_. I) I"
    by (rule hoare_gets) simp
next
  fix ch
  show "hoare (\<lambda>w. I w \<and> ch = await_lookup seq (cl w p))
      (case ch of None \<Rightarrow> raiseP ErrConnectionStale | Some a \<Rightarrow> blockP (response_ready ctx p a))
      (\<lambda>msg w. I w \<and> (\<exists>r. msg = ResponseMessage r \<and> rs_seq r = seq)) (\<lambda>_. I) I"
  proof (cases ch)
    case None
    then show ?thesis by (auto intro: hoare_raise)
  next
    case (Some a)
    have "hoare (\<lambda>w. w = w1) (blockP (response_ready ctx p a))
        (\<lambda>msg w. I w \<and> (\<exists>r. msg = ResponseMessage r \<and> rs_seq r = seq)) (\<lambda>_. I) I"
      if w1: "I w1" "await_lookup seq (cl w1 p) = Some a" for w1
    proof (rule hoare_pre [where P' = "\<lambda>w. I w \<and> sys_step\<^sup>*\<^sup>* (cl w1 p) (cl w p)"])
      have r1: "reachable (cl w1 p)" using I(3) [OF w1(1)] by (simp add: live_def world_ok_reach)
      have ok: "I w' \<and> (case res of Ok msg \<Rightarrow> \<exists>r. msg = ResponseMessage r \<and> rs_seq r = seq
          | Er e \<Rightarrow> True | _ \<Rightarrow> False)"
        if "I w \<and> sys_step\<^sup>*\<^sup>* (cl w1 p) (cl w p)" "response_ready ctx p a pick w = Some (res, w')"
        for w pick res w'
        using response_ready_ok [OF _ I(2) I(3) _ r1 w1(2) that(2)] that(1) by blast
      show "hoare (\<lambda>w. I w \<and> sys_step\<^sup>*\<^sup>* (cl w1 p) (cl w p)) (blockP (response_ready ctx p a))
        (\<lambda>msg w. I w \<and> (\<exists>r. msg = ResponseMessage r \<and> rs_seq r = seq)) (\<lambda>_. I) I"
        by (rule hoare_block [OF stable_steps [OF I(1)]], rule I(3)) (assumption, (drule (1) ok, simp)+, blast)
    qed (use w1 in simp)
    note run = this
    have "hoare (\<lambda>w. I w \<and> ch = await_lookup seq (cl w p)) (blockP (response_ready ctx p a))
        (\<lambda>msg w. I w \<and> (\<exists>r. msg = ResponseMessage r \<and> rs_seq r = seq)) (\<lambda>_. I) I"
      by (rule hoare_state) (use run Some in auto)
    then show ?thesis using Some by simp
  qed
qed
qed

lemma awaitResponseValidate_ok:
  assumes adm: "admissible I p"
  shows "hoare I (awaitResponseValidate ctx p seq pre) (\<lambda>_. I) (\<lambda>_. I) I"
  unfolding awaitResponseValidate_def
  by (rule hoare_bind [OF AwaitResponse_ok [OF adm]])
     (auto intro!: hoare_return hoare_raise split: dap_msg.split)

lemma awaitResponseTyped_ok:
  assumes adm: "admissible I p"
  shows "hoare I (awaitResponseTyped T sel ctx p seq) (\<lambda>_. I) (\<lambda>_. I) I"
  unfolding awaitResponseTyped_def
  by (rule hoare_bind [OF AwaitResponse_ok [OF adm]])
     (auto intro!: hoare_return hoare_raise split: dap_msg.split option.split)

subsection \<open>Subscriptions within a frame\<close>

text \<open>\<open>I\<close>, and the subscriptions \<open>is\<close> exist.\<close>

definition hold :: "(world \<Rightarrow> bool) \<Rightarrow> nat \<Rightarrow> nat list \<Rightarrow> world \<Rightarrow> bool" where
  "hold I p is w \<longleftrightarrow> I w \<and> (\<forall>i \<in> set is. i < length (c_subs (cl w p)))"

lemma hold_Nil [simp]: "hold I p [] = I"
  by (rule ext) (simp add: hold_def)

lemma hold_stable:
  assumes "stable I" "\<And>w. I w \<Longrightarrow> live p w"
  shows "stable (hold I p is)"
  unfolding stable_def
proof (intro conjI allI impI)
  fix a w assume h: "hold I p is w"
  then have I: "I w" by (simp add: hold_def)
  have "wle w (env_do a w)" using assms(2) [OF I] env_do_ok by (auto simp: live_def)
  then have "length (c_subs (cl w p)) \<le> length (c_subs (cl (env_do a w) p))"
    using assms(2) [OF I] sys_steps_nsubs by (auto simp: wle_def live_def)
  then show "hold I p is (env_do a w)"
    using h assms(1) by (auto simp: hold_def stable_def intro: less_le_trans)
qed (use assms(1) in \<open>auto simp: hold_def stable_def cl_def\<close>)

lemma hold_live: "(\<And>w. I w \<Longrightarrow> live p w) \<Longrightarrow> hold I p is w \<Longrightarrow> live p w"
  by (simp add: hold_def)

lemma hold_step:
  assumes "silent I p" "\<And>w. I w \<Longrightarrow> live p w" "hold I p is w" "sys_step (cl w p) (f (cl w p))"
    "c_wire (f (cl w p)) = c_wire (cl w p)"
  shows "hold I p is (upd_cl p f w)"
proof -
  have I: "I w" using assms(3) by (simp add: hold_def)
  have l: "live p w" by (rule assms(2) [OF I])
  have "I (upd_cl p f w)" using assms(1,4,5) I by (simp add: silent_def)
  then show ?thesis
    using assms(3) l sys_step_nsubs [OF assms(4)] by (auto simp: hold_def cl_upd_cl live_def intro: less_le_trans)
qed

lemma hold_mono: "set is \<subseteq> set js \<Longrightarrow> hold I p js w \<Longrightarrow> hold I p is w"
  by (auto simp: hold_def)

lemma wire_sub_ops [simp]:
  "c_wire (snd (sub_register t c)) = c_wire c" "c_wire (sub_replay since es i c) = c_wire c"
  "c_wire (sub_remove i c) = c_wire c" "c_wire (sub_close_stop i c) = c_wire c"
  by (simp_all add: sub_register_def sub_replay_def upd_sub_def sub_remove_def sub_close_stop_def)

lemma sub_receive_wire: "sub_receive i c = Some (x, c') \<Longrightarrow> c_wire c' = c_wire c"
  by (auto simp: sub_receive_def upd_sub_def split: list.splits if_splits)

lemma SubscribeP_ok:
  assumes adm: "admissible I p"
  shows "hoare (hold I p is) (SubscribeP p t since) (\<lambda>i. hold I p (i # is)) E R"
proof -
  note I = admissibleD [OF adm]
    show ?thesis
  unfolding SubscribeP_def
proof (rule hoare_bind, rule hoare_gets, assumption,
    rule hoare_then [OF hoare_yield [OF hold_stable [OF I(1,3)]]], assumption,
    rule hoare_bind [where A = "\<lambda>i. hold I p (i # is)"])
  show "hoare (hold I p is) (clientP p (sub_register t)) (\<lambda>i. hold I p (i # is)) E R"
  proof (unfold hoare_def, intro allI impI)
    fix w assume h: "hold I p is w"
    have "hold I p is (upd_cl p (\<lambda>c. snd (sub_register t c)) w)"
      by (rule hold_step [OF I(2,3) h]) (simp_all add: sys_sub_register)
    moreover have "live p w" using h I(3) by (simp add: hold_def)
    ultimately have "hold I p (fst (sub_register t (cl w p)) # is) (upd_cl p (\<lambda>c. snd (sub_register t c)) w)"
      by (simp add: hold_def cl_upd_cl live_def) (simp add: sub_register_def)
    then show "case clientP p (sub_register t) w of (Ok i, w') \<Rightarrow> hold I p (i # is) w'
        | (Er e, w') \<Rightarrow> E e w' | (Pending, w') \<Rightarrow> R w' | (Panic, w') \<Rightarrow> False"
      by (simp add: clientP_def)
  qed
next
  fix entries i
  have "hold I p (i # is) (upd_cl p (sub_replay since entries i) w)" if "hold I p (i # is) w" for w
    by (rule hold_step [OF I(2,3) that]) (use that in \<open>simp_all add: hold_def sys_sub_replay\<close>)
  then show "hoare (hold I p (i # is)) (thenP yieldP (thenP (modifyP (upd_cl p (sub_replay since entries i)))
      (returnP i))) (\<lambda>i. hold I p (i # is)) E R"
    by (intro hoare_then [OF hoare_yield [OF hold_stable [OF I(1,3)]]]
        hoare_then [where A = "hold I p (i # is)"] hoare_modify hoare_return)
qed
qed

lemma cancelP_ok:
  assumes adm: "admissible I p" and i: "i \<in> set is"
  shows "hoare (hold I p is) (cancelP p i) (\<lambda>_. hold I p is) E R"
proof -
  note I = admissibleD [OF adm]
  have a: "hold I p is (upd_cl p (sub_remove i) w)" if "hold I p is w" for w
    by (rule hold_step [OF I(2,3) that]) (use that i in \<open>simp_all add: hold_def sys_sub_remove\<close>)
  have b: "hold I p is (upd_cl p (sub_close_stop i) w)" if "hold I p is w" for w
    by (rule hold_step [OF I(2,3) that]) (use that i in \<open>simp_all add: hold_def sys_sub_stop\<close>)
  show ?thesis
    unfolding cancelP_def
    by (rule hoare_bind, rule hoare_gets, assumption, rule hoare_if, rule hoare_return, assumption,
        rule hoare_then, rule hoare_modify, erule a,
        rule hoare_then [OF hoare_yield [OF hold_stable [OF I(1,3)]]], assumption,
        rule hoare_modify, erule b)
qed

lemma event_case_ok:
  assumes I: "silent I p" "\<And>w. I w \<Longrightarrow> live p w" and h: "hold I p is w" "i \<in> set is"
    and m: "(res, w') \<in> set (event_case p i k w)"
  shows "hold I p is w' \<and> (\<exists>x. res = k x \<and> (\<forall>e. x = Some e \<longrightarrow> ev_typeof e = sub_type (c_subs (cl w p) ! i)))"
proof -
  from m obtain x c' where r: "sub_receive i (cl w p) = Some (x, c')" "w' = upd_cl p (\<lambda>_. c') w" "res = k x"
    by (cases "sub_receive i (cl w p)") (auto simp: event_case_def)
  have i: "i < length (c_subs (cl w p))" using h by (auto simp: hold_def)
  have "hold I p is w'"
    unfolding r(2)
    by (rule hold_step [OF I h(1)]) (use sys_sub_receive [OF i r(1)] sub_receive_wire [OF r(1)] in simp_all)
  moreover have "reachable (cl w p)" using h(1) I(2) by (auto simp: hold_def live_def intro: world_ok_reach)
  then have "bus_inv (cl w p)" by (rule reachable_bus_inv)
  then have "sub_ok (c_subs (cl w p) ! i)" using i by (auto simp: bus_inv_def)
  then have "\<forall>e. x = Some e \<longrightarrow> ev_typeof e = sub_type (c_subs (cl w p) ! i)"
    using r(1) by (auto simp: sub_receive_def sub_ok_def sub_queue_def split: list.splits if_splits)
  ultimately show ?thesis using r(3) by blast
qed

lemma ctx_case_ok: "(res, w') \<in> set (ctx_case ctx w) \<Longrightarrow> w' = w \<and> (\<exists>e. res = Er e \<and> ctx_err ctx w = Some e)"
  by (auto simp: ctx_case_def split: option.splits)


lemma blockP_hold:
  assumes adm: "admissible I p"
    and ready: "\<And>pick w res w'. hold I p is w \<Longrightarrow> f pick w = Some (res, w') \<Longrightarrow>
      hold I p is w' \<and> (case res of Ok a \<Rightarrow> Q a | Er e \<Rightarrow> True | _ \<Rightarrow> False)"
  shows "hoare (hold I p is) (blockP f) (\<lambda>a w. hold I p is w \<and> Q a) (\<lambda>_. hold I p is) (hold I p is)"
proof -
  note I = admissibleD [OF adm]
  show ?thesis
    by (rule hoare_block [OF hold_stable [OF I(1,3)]], assumption) (drule (1) ready, simp)+
qed

text \<open>Subscribe, use, cancel: the pattern of the waiting functions.\<close>

lemma subscribed_ok:
  assumes adm: "admissible I p"
    and body: "\<And>i. hoare (hold I p (i # is)) (body i) (\<lambda>a w. hold I p (i # is) w \<and> Q a)
      (\<lambda>_. hold I p (i # is)) (hold I p (i # is))"
  shows "hoare (hold I p is) (bindP (SubscribeP p t since) (\<lambda>i. deferP (body i) (cancelP p i)))
    (\<lambda>a w. hold I p is w \<and> Q a) (\<lambda>_. hold I p is) (hold I p is)"
proof (rule hoare_bind)
  show "hoare (hold I p is) (SubscribeP p t since) (\<lambda>i. hold I p (i # is)) (\<lambda>_. hold I p is) (hold I p is)"
    by (rule SubscribeP_ok [OF adm])
next
  fix i
  have c: "hoare (hold I p (i # is)) (cancelP p i) (\<lambda>_. hold I p (i # is)) E R" for E R
    by (rule cancelP_ok [OF adm]) simp
  have m: "hold I p (i # is) w \<Longrightarrow> hold I p is w" for w by (simp add: hold_def)
  show "hoare (hold I p (i # is)) (deferP (body i) (cancelP p i))
    (\<lambda>a w. hold I p is w \<and> Q a) (\<lambda>_. hold I p is) (hold I p is)"
  proof -
    have b: "hoare (hold I p (i # is)) (body i) (\<lambda>a w. hold I p (i # is) w \<and> Q a)
        (\<lambda>_. hold I p (i # is)) (hold I p is)"
      by (rule hoare_conseq [OF body]) (use m in auto)
    have q: "hoare (\<lambda>w. hold I p (i # is) w \<and> Q a) (cancelP p i) (\<lambda>_ w. hold I p is w \<and> Q a)
        (\<lambda>_. hold I p is) (hold I p is)" for a
    proof (cases "Q a")
      case True
      show ?thesis by (rule hoare_conseq [OF c]) (use m True in auto)
    qed (simp add: hoare_def)
    have e: "hoare (hold I p (i # is)) (cancelP p i) (\<lambda>_. hold I p is) (\<lambda>_. hold I p is) (hold I p is)"
      by (rule hoare_conseq [OF c]) (use m in auto)
    show ?thesis by (rule hoare_defer [OF b q e])
  qed
qed

lemma awaitInitializedEvent_ok:
  assumes adm: "admissible I p"
  shows "hoare I (awaitInitializedEvent ctx p since) (\<lambda>_. I) (\<lambda>_. I) I"
proof -
  note I = admissibleD [OF adm]
  have ready: "hold I p is w' \<and> (case res of Ok a \<Rightarrow> True | Er e \<Rightarrow> True | _ \<Rightarrow> False)"
    if "hold I p is w" "initialized_ready ctx p i l pick w = Some (res, w')" "i \<in> set is" "l \<in> set is"
    for "is" w i l pick res w'
    using select_in [OF that(2) [unfolded initialized_ready_def]] that(1)
      event_case_ok [OF I(2,3) that(1,3)] event_case_ok [OF I(2,3) that(1,4)]
    by (fastforce dest!: ctx_case_ok simp: lost_result_def split: res.split option.splits dap_event.splits if_splits)
  have "hoare (hold I p []) (awaitInitializedEvent ctx p since) (\<lambda>_ w. hold I p [] w \<and> True)
      (\<lambda>_. hold I p []) (hold I p [])"
    unfolding awaitInitializedEvent_def
    by (rule subscribed_ok [OF adm], rule subscribed_ok [OF adm], rule blockP_hold [OF adm])
       (erule (1) ready, simp_all)
  then show ?thesis by simp
qed

lemma awaitStopOrTerminate_ok:
  assumes adm: "admissible I p"
  shows "hoare I (awaitStopOrTerminate ctx p since) (\<lambda>_. I) (\<lambda>_. I) I"
proof -
  note I = admissibleD [OF adm]
  have ready: "hold I p is w' \<and> (case res of Ok a \<Rightarrow> True | Er e \<Rightarrow> True | _ \<Rightarrow> False)"
    if "hold I p is w" "stop_ready ctx p i t l pick w = Some (res, w')" "i \<in> set is" "t \<in> set is" "l \<in> set is"
    for "is" w i t l pick res w'
    using select_in [OF that(2) [unfolded stop_ready_def]] that(1)
      event_case_ok [OF I(2,3) that(1,3)] event_case_ok [OF I(2,3) that(1,4)] event_case_ok [OF I(2,3) that(1,5)]
    by (fastforce dest!: ctx_case_ok simp: lost_result_def stopped_result_def terminated_result_def
        split: res.split option.splits dap_event.splits if_splits)
  have "hoare (hold I p []) (awaitStopOrTerminate ctx p since) (\<lambda>_ w. hold I p [] w \<and> True)
      (\<lambda>_. hold I p []) (hold I p [])"
    unfolding awaitStopOrTerminate_def
    by (rule subscribed_ok [OF adm], rule subscribed_ok [OF adm], rule subscribed_ok [OF adm],
        rule blockP_hold [OF adm]) (erule (1) ready, simp_all)
  then show ?thesis by simp
qed

end
