(* ===== verification/Session.thy ===== *)
theory Session
  imports ToolLogic
begin

text \<open>
  \<^verbatim>\<open>debuggerSession\<close> of \<^verbatim>\<open>tools.go\<close>: which tools are registered with the MCP server, how a session ends,
  and the context dump that most handlers answer with.  A handler is a program whose result is the text
  of the tool result, or \<open>None\<close> for the nil result that Go returns in one case.
\<close>

subsection \<open>Small programs\<close>

definition textP :: "string \<Rightarrow> string option prog" where
  "textP s = returnP (Some s)"

definition dsP :: "(session \<Rightarrow> 'a) \<Rightarrow> 'a prog" where
  "dsP f = getsP (\<lambda>w. f (w_ds w))"

definition setP :: "(session \<Rightarrow> session) \<Rightarrow> unit prog" where
  "setP f = modifyP (upd_ds f)"

definition nowP :: "int prog" where
  "nowP = getsP w_now"

text \<open>Record the moment a stop was consumed.\<close>

definition stampP :: "unit prog" where
  "stampP = modifyP (\<lambda>w. upd_ds (\<lambda>ds. ds\<lparr>ds_lastStopAt := w_now w\<rparr>) w)"

definition withClient :: "(nat \<Rightarrow> 'a prog) \<Rightarrow> 'a prog" where
  "withClient k = bindP (dsP ds_client) (\<lambda>c. case c of
      None \<Rightarrow> raiseP (ErrNew ''debugger not started'')
    | Some p \<Rightarrow> k p)"

text \<open>Go iterates over a map in an order of its choice: the rank of the keys.\<close>

definition map_order :: "world \<Rightarrow> (string \<times> 'a) list \<Rightarrow> (string \<times> 'a) list" where
  "map_order w xs = sort_key (\<lambda>x. w_rank w (fst x)) xs"

text \<open>The context of a request without a timeout of its own, and with one.\<close>

definition base_ctx :: ctx where
  "base_ctx = CtxReq None"

definition timeout_ctx :: "int \<Rightarrow> int \<Rightarrow> ctx" where
  "timeout_ctx now secs = CtxReq (Some (now + seconds secs))"

subsection \<open>Tool registration\<close>

text \<open>The calls to the MCP server are logged.\<close>

definition serverP :: "server_call list \<Rightarrow> unit prog" where
  "serverP calls = modifyP (\<lambda>w. w\<lparr>w_server := w_server w @ calls\<rparr>)"

definition registerSessionTools :: "unit prog" where
  "registerSessionTools = bindP (dsP ds_capabilities) (\<lambda>caps. serverP (registration caps))"

definition unregisterSessionTools :: "unit prog" where
  "unregisterSessionTools = bindP (dsP sessionToolNames) (\<lambda>names.
     serverP (unregistration names))"

text \<open>\<open>registerTools\<close>: the session before any debug call, and its one tool.\<close>

definition initial_session :: "string \<Rightarrow> session" where
  "initial_session connectAddr = \<lparr>ds_cmd = False, ds_client = None,
     ds_backend = (if connectAddr \<noteq> [] then Some (Connect connectAddr (5 * second)) else None),
     ds_capabilities = no_capabilities, ds_launchMode = [], ds_programPath = [], ds_programArgs = [],
     ds_coreFilePath = [], ds_stoppedThreadID = 0, ds_lastFrameID = - 1, ds_lastStopAt = zero_time,
     ds_breakpoints = [], ds_functionBreakpoints = []\<rparr>"

definition registerTools :: "string \<Rightarrow> world \<Rightarrow> world" where
  "registerTools connectAddr w = w\<lparr>w_ds := initial_session connectAddr,
     w_server := w_server w @ [AddTool ''debug'' debugToolDescription]\<rparr>"

subsection \<open>Ending a session\<close>

text \<open>\<open>Close\<close>, waiting for readLoop when it was started.\<close>

definition closeP :: "nat \<Rightarrow> unit prog" where
  "closeP p = thenP (modifyP (upd_cl p Close))
     (bindP (getsP (\<lambda>w. c_pump (cl w p))) (\<lambda>pc. if pc = PNotStarted then returnP ()
        else blockP (\<lambda>pick w. if c_pump (cl w p) = PExit then Some (Ok (), w) else None)))"

definition killP :: "unit prog" where
  "killP = modifyP (\<lambda>w. if ds_cmd (w_ds w)
     then upd_ds (\<lambda>ds. ds\<lparr>ds_cmd := False\<rparr>) (w\<lparr>w_procs := w_procs w - 1\<rparr>) else w)"

definition cleanup :: "unit prog" where
  "cleanup =
     bindP (dsP ds_client) (\<lambda>c.
     thenP (case c of
         None \<Rightarrow> returnP ()
       | Some p \<Rightarrow> thenP (closeP p) (setP (\<lambda>ds. ds\<lparr>ds_client := None\<rparr>))) (
     thenP killP (
     thenP (setP reset_session)
     unregisterSessionTools)))"

definition stop :: "bool \<Rightarrow> string option prog" where
  "stop detach = withLock (
     bindP (dsP ds_cmd) (\<lambda>cmd. bindP (dsP ds_client) (\<lambda>c.
       if \<not> cmd \<and> c = None then textP ''No debug session active''
       else case (detach, c) of
           (True, Some p) \<Rightarrow>
             bindP (tryP (bindP (DisconnectRequest p False) (\<lambda>seq.
                            awaitResponseValidate base_ctx p seq ''disconnect''))) (\<lambda>_.
             thenP cleanup (textP ''Detached from process (debuggee still running)''))
         | _ \<Rightarrow> thenP cleanup (textP ''Debug session stopped''))))"

subsection \<open>The context dump\<close>

definition location_text :: "stackFrame list \<Rightarrow> string" where
  "location_text frames = (case frames of
      [] \<Rightarrow> []
    | f # _ \<Rightarrow> ''## Current Location'' @ nl @ ''Function: '' @ fr_name f @ nl
        @ (case fr_source f of
             None \<Rightarrow> []
           | Some path \<Rightarrow> ''File: '' @ path @ '':'' @ itoa (fr_line f) @ nl)
        @ nl)"

definition frame_text :: "int \<Rightarrow> stackFrame \<Rightarrow> string" where
  "frame_text i f = ''#'' @ itoa i @ '' (Frame ID: '' @ itoa (fr_id f) @ '') '' @ fr_name f
     @ (case fr_source f of
          None \<Rightarrow> []
        | Some path \<Rightarrow> if path \<noteq> [] then '' at '' @ path @ '':'' @ itoa (fr_line f) else [])
     @ (if fr_hint f = ''subtle'' then '' (runtime)'' else []) @ nl"

definition trace_text :: "stackFrame list \<Rightarrow> string" where
  "trace_text frames = ''## Stack Trace'' @ nl
     @ concat (map2 (\<lambda>i f. frame_text (int i) f) [0..<length frames] frames) @ nl"

definition variable_text :: "dapVariable \<Rightarrow> string" where
  "variable_text v = ''  '' @ v_name v @ (if v_type v \<noteq> [] then '' ('' @ v_type v @ '')'' else [])
     @ '' = '' @ v_value v @ nl"

fun stackTrace_body :: "resp_body \<Rightarrow> stackFrame list option" where
  "stackTrace_body (StackTraceR fs) = Some fs"
| "stackTrace_body _ = None"

fun scopes_body :: "resp_body \<Rightarrow> dapScope list option" where
  "scopes_body (ScopesR ss) = Some ss"
| "scopes_body _ = None"

fun variables_body :: "resp_body \<Rightarrow> dapVariable list option" where
  "variables_body (VariablesR vs) = Some vs"
| "variables_body _ = None"

fun threads_body :: "resp_body \<Rightarrow> (int \<times> string) list option" where
  "threads_body (ThreadsR ts) = Some ts"
| "threads_body _ = None"

definition no_scopes_text :: string where
  "no_scopes_text = ''## Variables'' @ nl @ ''(unable to retrieve scopes)'' @ nl"

definition no_variables_text :: string where
  "no_variables_text = ''  (unable to retrieve variables)'' @ nl"

text \<open>One scope of \<open>writeScopesAndVariables\<close>; errors become text.\<close>

definition scope_text :: "nat \<Rightarrow> dapScope \<Rightarrow> string prog" where
  "scope_text p scope = (let head = ''### '' @ sc_name scope @ nl in
     if sc_ref scope \<le> 0 then returnP head
     else bindP (tryP (bindP (VariablesRequest p (sc_ref scope)) (\<lambda>seq.
                  awaitResponseTyped ''*dap.VariablesResponse'' variables_body base_ctx p seq))) (\<lambda>r.
       returnP (head @ (case r of
           Inl e \<Rightarrow> no_variables_text
         | Inr vs \<Rightarrow> concat (map variable_text vs)))))"

definition writeScopesAndVariables :: "nat \<Rightarrow> int \<Rightarrow> string prog" where
  "writeScopesAndVariables p frameID =
     bindP (tryP (bindP (ScopesRequest p frameID) (\<lambda>seq.
              awaitResponseTyped ''*dap.ScopesResponse'' scopes_body base_ctx p seq))) (\<lambda>r. case r of
         Inl e \<Rightarrow> returnP no_scopes_text
       | Inr scopes \<Rightarrow>
           if scopes = [] then returnP []
           else bindP (mapP (scope_text p) scopes) (\<lambda>ts.
                  returnP (''## Variables'' @ nl @ concat ts)))"

definition target_frame :: "int \<Rightarrow> stackFrame list \<Rightarrow> int" where
  "target_frame frameID frames = (if frameID = 0 \<and> frames \<noteq> [] then fr_id (hd frames) else frameID)"

definition getFullContext :: "int \<Rightarrow> int \<Rightarrow> int \<Rightarrow> string option prog" where
  "getFullContext threadID frameID maxFrames = withClient (\<lambda>p.
     bindP (StackTraceRequest p threadID 0 maxFrames) (\<lambda>seq.
     bindP (wrapP (ErrWrap ''unable to get stack trace: '')
              (awaitResponseTyped ''*dap.StackTraceResponse'' stackTrace_body base_ctx p seq)) (\<lambda>frames.
     thenP (setP (\<lambda>ds. ds\<lparr>ds_lastFrameID := target_frame frameID frames\<rparr>)) (
     bindP (writeScopesAndVariables p (target_frame frameID frames)) (\<lambda>vars.
       textP (location_text frames @ trace_text frames @ vars))))))"

definition thread_lines :: "(int \<times> string) list \<Rightarrow> string" where
  "thread_lines ts = concat (map (\<lambda>(i, n). ''  Thread '' @ itoa i @ '': '' @ n @ nl) ts)"

text \<open>\<open>getThreadList\<close> answers the empty text on every error.\<close>

definition getThreadList :: "string prog" where
  "getThreadList = bindP (dsP ds_client) (\<lambda>c. case c of
      None \<Rightarrow> returnP []
    | Some p \<Rightarrow> bindP (tryP (bindP (ThreadsRequest p) (\<lambda>seq.
                  awaitResponseTyped ''*dap.ThreadsResponse'' threads_body base_ctx p seq))) (\<lambda>r.
        returnP (case r of Inl e \<Rightarrow> [] | Inr ts \<Rightarrow> thread_lines ts)))"

end
