(* ===== verification/Tools.thy ===== *)
theory Tools
  imports Session
begin

text \<open>
  The handlers of the session tools in \<^verbatim>\<open>tools.go\<close>: breakpoints, execution control, inspection.  Each takes
  the fields of its parameter struct.
\<close>

subsection \<open>Breakpoints\<close>

definition clear_failed :: string where
  "clear_failed = ''unable to clear breakpoints''"

definition clear_file :: "nat \<Rightarrow> string \<Rightarrow> unit prog" where
  "clear_file p file = bindP (SetBreakpointsRequest p file []) (\<lambda>seq.
     awaitResponseValidate base_ctx p seq clear_failed)"

definition clearBreakpoints :: "string \<Rightarrow> bool \<Rightarrow> string option prog" where
  "clearBreakpoints file all = withLock (withClient (\<lambda>p.
     if all then
       bindP (getsP (\<lambda>w. map fst (map_order w (ds_breakpoints (w_ds w))))) (\<lambda>files.
       thenP (forP files (clear_file p)) (
       bindP (SetFunctionBreakpointsRequest p []) (\<lambda>seq.
       thenP (awaitResponseValidate base_ctx p seq clear_failed) (
       thenP (setP (\<lambda>ds. ds\<lparr>ds_breakpoints := [], ds_functionBreakpoints := []\<rparr>)) (
       textP ''Cleared all breakpoints'')))))
     else if file \<noteq> [] then
       thenP (clear_file p file) (
       thenP (setP (\<lambda>ds. ds\<lparr>ds_breakpoints := AList.delete file (ds_breakpoints ds)\<rparr>)) (
       textP (''Cleared breakpoints in: '' @ file)))
     else raiseP (ErrNew (''specify 'file' or 'all'' @ [CHR 0x27]))))"

definition lines_of :: "session \<Rightarrow> string \<Rightarrow> int list" where
  "lines_of ds file = (case map_of (ds_breakpoints ds) file of None \<Rightarrow> [] | Some ls \<Rightarrow> ls)"

definition add_function :: "string list \<Rightarrow> string \<Rightarrow> string list" where
  "add_function fs f = (if f \<in> set fs then fs else fs @ [f])"

fun breakpoints_body :: "resp_body \<Rightarrow> dapBreakpoint list option" where
  "breakpoints_body (SetBreakpointsR bs) = Some bs"
| "breakpoints_body _ = None"

definition function_breakpoint :: "nat \<Rightarrow> string \<Rightarrow> string option prog" where
  "function_breakpoint p function =
     bindP (dsP (\<lambda>ds. add_function (ds_functionBreakpoints ds) function)) (\<lambda>newFuncs.
     bindP (SetFunctionBreakpointsRequest p newFuncs) (\<lambda>seq.
     thenP (awaitResponseValidate base_ctx p seq ''unable to set function breakpoint'') (
     thenP (setP (\<lambda>ds. ds\<lparr>ds_functionBreakpoints := newFuncs\<rparr>)) (
     textP (''Breakpoint set on function: '' @ function)))))"

definition line_breakpoint :: "nat \<Rightarrow> string \<Rightarrow> int \<Rightarrow> string option prog" where
  "line_breakpoint p file line =
     bindP (dsP (\<lambda>ds. lines_of ds file)) (\<lambda>existing.
     if line \<in> set existing
     then textP (''Breakpoint already set at '' @ file @ '':'' @ itoa line)
     else
       bindP (SetBreakpointsRequest p file (existing @ [line])) (\<lambda>seq.
       bindP (wrapP (ErrWrap ''unable to set breakpoint: '')
         (awaitResponseTyped ''*dap.SetBreakpointsResponse'' breakpoints_body base_ctx p seq)) (\<lambda>bps.
       if bps = [] then raiseP (ErrNew ''no breakpoints returned'')
       else if \<not> bp_verified (last bps)
         then raiseP (ErrNew (''breakpoint not verified: '' @ bp_message (last bps)))
       else
         thenP (setP (\<lambda>ds. ds\<lparr>ds_breakpoints := AList.update file (existing @ [line]) (ds_breakpoints ds)\<rparr>)) (
         textP (''Breakpoint '' @ itoa (bp_id (last bps)) @ '' set at '' @ file @ '':''
           @ itoa (bp_line (last bps)))))))"

definition breakpoint :: "string \<Rightarrow> int \<Rightarrow> string \<Rightarrow> string option prog" where
  "breakpoint file line function = withLock (withClient (\<lambda>p.
     if function \<noteq> [] then function_breakpoint p function
     else if file = [] \<or> line = 0 then raiseP (ErrNew ''either function or file+line is required'')
     else line_breakpoint p file line))"

subsection \<open>Execution control\<close>

record breakpointSpec =
  bs_file :: string
  bs_line :: int
  bs_function :: string

definition set_cursor :: "nat \<Rightarrow> breakpointSpec \<Rightarrow> unit prog" where
  "set_cursor p t = (let done = (\<lambda>seq. awaitResponseValidate base_ctx p seq ''unable to set run-to-cursor breakpoint'') in
     if bs_function t \<noteq> [] then bindP (SetFunctionBreakpointsRequest p [bs_function t]) done
     else if bs_file t \<noteq> [] \<and> 0 < bs_line t then bindP (SetBreakpointsRequest p (bs_file t) [bs_line t]) done
     else returnP ())"

definition pick_thread :: "int \<Rightarrow> session \<Rightarrow> int" where
  "pick_thread threadID ds = (if threadID = 0 then defaultThreadID ds else threadID)"

text \<open>The status objects of the results.\<close>

definition running_text :: "int \<Rightarrow> string" where
  \<open>running_text tid = ''{"status":"running","threadId":'' @ itoa tid @ ''}''\<close>

definition still_running_text :: "int \<Rightarrow> string" where
  \<open>still_running_text secs = ''{"status":"still_running","elapsedSec":'' @ itoa secs @ ''}''\<close>

definition continueExecution :: "int \<Rightarrow> breakpointSpec option \<Rightarrow> string option prog" where
  "continueExecution threadID target = withLock (withClient (\<lambda>p.
     thenP (case target of None \<Rightarrow> returnP () | Some t \<Rightarrow> set_cursor p t) (
     bindP (dsP (pick_thread threadID)) (\<lambda>tid.
     bindP (ContinueRequest p tid) (\<lambda>seq.
     thenP (awaitResponseValidate base_ctx p seq ''continue failed'') (
     textP (running_text tid)))))))"

text \<open>\<open>pauseAndCaptureContext\<close> waits two seconds for a stop without holding the mutex.  It reads
  \<open>ds.client\<close> again after unlocking: a nil client is dereferenced there.\<close>

definition send_pause :: "int \<Rightarrow> (int \<times> int) prog" where
  "send_pause threadID = withLock (withClient (\<lambda>p.
     bindP (dsP (pick_thread threadID)) (\<lambda>tid.
     bindP nowP (\<lambda>since.
     bindP (PauseRequest p tid) (\<lambda>seq.
     thenP (awaitResponseValidate base_ctx p seq ''unable to pause'') (
     returnP (tid, since)))))))"

definition capture :: "int \<Rightarrow> string option prog" where
  "capture tid = withLock (
     thenP (setP (\<lambda>ds. ds\<lparr>ds_stoppedThreadID := tid\<rparr>)) (
     thenP stampP (getFullContext tid 0 20)))"

definition pauseAndCaptureContext :: "int \<Rightarrow> string option prog" where
  "pauseAndCaptureContext threadID =
     bindP (send_pause threadID) (\<lambda>(tid, since).
     thenP yieldP (
     bindP nowP (\<lambda>now.
     bindP (dsP ds_client) (\<lambda>c. case c of
         None \<Rightarrow> panicP
       | Some p \<Rightarrow>
           bindP (tryP (awaitStopOrTerminate (timeout_ctx now 2) p since)) (\<lambda>r. case r of
               Inr (GotStopped reason stopTid) \<Rightarrow> capture stopTid
             | Inr GotTerminated \<Rightarrow> returnP None
             | Inl e \<Rightarrow> if errors_Is e DeadlineExceeded then capture tid else raiseP e)))))"

definition clamp_timeout :: "int \<Rightarrow> int" where
  "clamp_timeout n = (let t = (if n \<le> 0 then 30 else n) in if 300 < t then 300 else t)"

definition waitForStop :: "int \<Rightarrow> bool \<Rightarrow> int \<Rightarrow> string option prog" where
  "waitForStop timeoutSec pauseIfTimeout threadID =
     bindP (withLock (dsP ds_client)) (\<lambda>c. case c of
         None \<Rightarrow> raiseP (ErrNew ''debugger not started'')
       | Some p \<Rightarrow>
           thenP yieldP (
           bindP (withLock (dsP ds_lastStopAt)) (\<lambda>since.
           bindP nowP (\<lambda>now.
           bindP (tryP (awaitStopOrTerminate (timeout_ctx now (clamp_timeout timeoutSec)) p since)) (\<lambda>r. case r of
               Inr (GotStopped reason tid) \<Rightarrow> capture tid
             | Inr GotTerminated \<Rightarrow> thenP (withLock stampP) (textP ''Program terminated'')
             | Inl e \<Rightarrow>
                 if errors_Is e DeadlineExceeded then
                   if \<not> pauseIfTimeout then textP (still_running_text (clamp_timeout timeoutSec))
                   else pauseAndCaptureContext threadID
                 else raiseP e)))))"

definition pauseExecution :: "int \<Rightarrow> string option prog" where
  "pauseExecution threadID = withLock (withClient (\<lambda>p.
     bindP (PauseRequest p threadID) (\<lambda>seq.
     thenP (awaitResponseValidate base_ctx p seq ''unable to pause execution'') (
     textP ''Paused execution''))))"

definition step_request :: "nat \<Rightarrow> string \<Rightarrow> int \<Rightarrow> int prog" where
  "step_request p mode tid =
     (if mode = ''over'' then NextRequest p tid
      else if mode = ''in'' then StepInRequest p tid
      else if mode = ''out'' then StepOutRequest p tid
      else raiseP (ErrNew (''invalid step mode: '' @ mode @ '' (must be 'over', 'in', or 'out')'')))"

definition step_timeout :: "int \<Rightarrow> int" where
  "step_timeout n = (if n \<le> 0 then 30 else n)"

definition step_timed_out :: "int \<Rightarrow> err" where
  "step_timed_out secs = ErrNew (''step timed out after '' @ itoa secs
     @ ''s; call 'pause' or 'wait-for-stop' to recover'')"

definition step :: "string \<Rightarrow> int \<Rightarrow> int \<Rightarrow> string option prog" where
  "step mode threadID timeoutSec = withLock (withClient (\<lambda>p.
     bindP (dsP (pick_thread threadID)) (\<lambda>tid.
     bindP nowP (\<lambda>since.
     bindP (step_request p mode tid) (\<lambda>seq.
     thenP (awaitResponseValidate base_ctx p seq ''step failed'') (
     bindP nowP (\<lambda>now.
     bindP (tryP (awaitStopOrTerminate (timeout_ctx now (step_timeout timeoutSec)) p since)) (\<lambda>r. case r of
         Inl e \<Rightarrow> if errors_Is e DeadlineExceeded then raiseP (step_timed_out (step_timeout timeoutSec))
                  else raiseP e
       | Inr GotTerminated \<Rightarrow> thenP stampP (textP ''Program terminated'')
       | Inr (GotStopped reason stopTid) \<Rightarrow>
           thenP (setP (\<lambda>ds. ds\<lparr>ds_stoppedThreadID := stopTid\<rparr>)) (
           thenP stampP (getFullContext stopTid 0 20))))))))))"

subsection \<open>Inspection\<close>

fun evaluate_body :: "resp_body \<Rightarrow> (string \<times> string) option" where
  "evaluate_body (EvaluateR r t) = Some (r, t)"
| "evaluate_body _ = None"

definition eval_frame :: "int option \<Rightarrow> session \<Rightarrow> int" where
  "eval_frame frameID ds = (case frameID of
      Some f \<Rightarrow> f
    | None \<Rightarrow> if 0 \<le> ds_lastFrameID ds then ds_lastFrameID ds else 0)"

definition evaluateExpression :: "string \<Rightarrow> int option \<Rightarrow> string \<Rightarrow> string option prog" where
  "evaluateExpression expression frameID context = withLock (withClient (\<lambda>p.
     bindP (dsP (eval_frame frameID)) (\<lambda>frame.
     bindP (EvaluateRequest p expression frame (if context = [] then ''watch'' else context)) (\<lambda>seq.
     bindP (wrapP (ErrWrap ''unable to evaluate expression: '')
       (awaitResponseTyped ''*dap.EvaluateResponse'' evaluate_body base_ctx p seq)) (\<lambda>(result, typ).
     textP (if typ \<noteq> [] then result @ '' (type: '' @ typ @ '')'' else result))))))"

definition setVariable :: "int \<Rightarrow> string \<Rightarrow> string \<Rightarrow> string option prog" where
  "setVariable ref name val = withLock (withClient (\<lambda>p.
     bindP (SetVariableRequest p ref name val) (\<lambda>seq.
     thenP (awaitResponseValidate base_ctx p seq ''unable to set variable'') (
     textP (''Set variable '' @ name @ '' to '' @ val)))))"

definition restart_args :: "string list \<Rightarrow> jargs" where
  "restart_args args = [(''arguments'', JObj [(''request'', JStr ''launch''), (''mode'', JStr ''exec''),
     (''stopOnEntry'', JBool False), (''args'', JStrs args), (''rebuild'', JBool False)])]"

definition restartDebugger :: "string list \<Rightarrow> string option prog" where
  "restartDebugger args = withLock (withClient (\<lambda>p.
     bindP (RestartRequest p (Some (restart_args args))) (\<lambda>seq.
     thenP (awaitResponseValidate base_ctx p seq ''unable to restart debugger'') (
     textP ''Restarted debugging session''))))"

fun sources_body :: "resp_body \<Rightarrow> string list option" where
  "sources_body (LoadedSourcesR ss) = Some ss"
| "sources_body _ = None"

fun modules_body :: "resp_body \<Rightarrow> (string \<times> string) list option" where
  "modules_body (ModulesR ms) = Some ms"
| "modules_body _ = None"

definition info_type :: "string \<Rightarrow> capabilities \<Rightarrow> string" where
  "info_type t caps = (if t \<noteq> [] then t
     else if supportsLoadedSourcesRequest caps then ''sources'' else ''threads'')"

definition info_threads :: "nat \<Rightarrow> string option prog" where
  "info_threads p = bindP (ThreadsRequest p) (\<lambda>seq.
     bindP (wrapP (ErrWrap ''failed to get threads: '')
       (awaitResponseTyped ''*dap.ThreadsResponse'' threads_body base_ctx p seq)) (\<lambda>ts.
     textP (''Threads:'' @ nl @ thread_lines ts)))"

definition info_sources :: "nat \<Rightarrow> capabilities \<Rightarrow> string option prog" where
  "info_sources p caps =
     (if \<not> supportsLoadedSourcesRequest caps
      then raiseP (ErrNew ''loaded sources not supported by this debug adapter'')
      else bindP (LoadedSourcesRequest p) (\<lambda>seq.
        bindP (wrapP (ErrWrap ''failed to get loaded sources: '')
          (awaitResponseTyped ''*dap.LoadedSourcesResponse'' sources_body base_ctx p seq)) (\<lambda>ss.
        textP (''Loaded Sources:'' @ nl @ concat (map (\<lambda>s. ''  '' @ s @ nl) ss)))))"

definition info_modules :: "nat \<Rightarrow> capabilities \<Rightarrow> string option prog" where
  "info_modules p caps =
     (if \<not> supportsModulesRequest caps
      then raiseP (ErrNew ''modules not supported by this debug adapter'')
      else bindP (ModulesRequest p) (\<lambda>seq.
        bindP (wrapP (ErrWrap ''failed to get modules: '')
          (awaitResponseTyped ''*dap.ModulesResponse'' modules_body base_ctx p seq)) (\<lambda>ms.
        textP (''Loaded Modules:'' @ nl
          @ concat (map (\<lambda>(n, path). ''  '' @ n @ '' ('' @ path @ '')'' @ nl) ms)))))"

definition info :: "string \<Rightarrow> string option prog" where
  "info t = withLock (withClient (\<lambda>p. bindP (dsP ds_capabilities) (\<lambda>caps.
     let ty = info_type t caps in
     if ty = ''threads'' then info_threads p
     else if ty = ''sources'' then info_sources p caps
     else if ty = ''modules'' then info_modules p caps
     else raiseP (ErrNew (''invalid type: '' @ ty @ '' (must be 'threads', 'sources', or 'modules')'')))))"

fun disassemble_body :: "resp_body \<Rightarrow> dapInstruction list option" where
  "disassemble_body (DisassembleR ds) = Some ds"
| "disassemble_body _ = None"

definition instruction_text :: "dapInstruction \<Rightarrow> string" where
  "instruction_text i = ''  '' @ in_address i @ ''  '' @ in_instruction i
     @ (case in_location i of
          None \<Rightarrow> []
        | Some path \<Rightarrow> if path \<noteq> [] then ''  ; '' @ path @ '':'' @ itoa (in_line i) else []) @ nl"

definition disassembleCode :: "string \<Rightarrow> int \<Rightarrow> int \<Rightarrow> string option prog" where
  "disassembleCode address offset count = withLock (withClient (\<lambda>p.
     bindP (DisassembleRequest p address offset (if count = 0 then 20 else count)) (\<lambda>seq.
     bindP (wrapP (ErrWrap ''unable to disassemble: '')
       (awaitResponseTyped ''*dap.DisassembleResponse'' disassemble_body base_ctx p seq)) (\<lambda>is.
     textP (''Disassembly:'' @ nl @ concat (map instruction_text is))))))"

text \<open>A failure that speaks of a thread is answered with the list of threads.\<close>

definition with_threads :: "err \<Rightarrow> string \<Rightarrow> err" where
  "with_threads e threadList = ErrWrapThen [] e
     (nl @ nl @ ''Available threads (use info tool with type 'threads' to refresh):'' @ nl @ threadList)"

definition context_tool :: "int \<Rightarrow> int \<Rightarrow> int \<Rightarrow> string option prog" where
  "context_tool threadID frameID maxFrames = withLock (
     bindP (dsP (pick_thread threadID)) (\<lambda>tid.
     bindP (tryP (getFullContext tid frameID (if maxFrames = 0 then 20 else maxFrames))) (\<lambda>r. case r of
         Inr res \<Rightarrow> returnP res
       | Inl e \<Rightarrow>
           if contains (err_text e) ''threadId'' \<or> contains (err_text e) ''thread'' then
             bindP getThreadList (\<lambda>threadList.
               if threadList \<noteq> [] then raiseP (with_threads e threadList) else raiseP e)
           else raiseP e)))"

end
