(* ===== verification/Debug.thy ===== *)
theory Debug
  imports Tools
begin

text \<open>
  Starting a session (\<open>debug\<close>), re-establishing it after a reconnect (\<open>reinitialize\<close>, the hook of the
  reconnect loop) and the \<open>reconnect\<close> tool of \<^verbatim>\<open>tools.go\<close>.
\<close>

subsection \<open>The parameters of debug\<close>

record debugParams =
  dp_mode :: string
  dp_path :: string
  dp_args :: "string list"
  dp_coreFilePath :: string
  dp_processId :: int
  dp_breakpoints :: "breakpointSpec list"
  dp_stopOnEntry :: bool
  dp_port :: string
  dp_debugger :: string
  dp_gdbPath :: string

definition debug_port :: "string \<Rightarrow> string" where
  "debug_port port = (let p = (if port = [] then ''0'' else port) in
     if has_prefix p '':'' then p else CHR '':'' # p)"

definition is_connect :: "backend option \<Rightarrow> bool" where
  "is_connect b = (case b of Some (Connect a t) \<Rightarrow> True | _ \<Rightarrow> False)"

definition valid_modes :: "string list" where
  "valid_modes = [''source'', ''binary'', ''core'', ''attach'']"

text \<open>The mode after normalisation, or why it is refused.\<close>

definition debug_mode :: "backend option \<Rightarrow> string \<Rightarrow> err + string" where
  "debug_mode b mode = (if is_connect b then Inr ''attach''
     else if mode \<in> set valid_modes then Inr mode
     else Inl (ErrNew (''invalid mode: '' @ mode @ '' (must be 'source', 'binary', 'core', or 'attach')'')))"

definition check_params :: "bool \<Rightarrow> string \<Rightarrow> debugParams \<Rightarrow> err option" where
  "check_params connected mode dp =
     (if mode = ''attach'' \<and> \<not> connected \<and> dp_processId dp = 0
        then Some (ErrNew ''processId is required for attach mode'')
      else if mode \<noteq> ''attach'' \<and> dp_path dp = []
        then Some (ErrNew (''path is required for '' @ mode @ '' mode''))
      else if mode = ''core'' \<and> dp_coreFilePath dp = []
        then Some (ErrNew ''coreFilePath is required for core mode'')
      else None)"

text \<open>\<open>gdb\<close> is what \<^verbatim>\<open>exec.LookPath\<close> finds.\<close>

definition select_backend :: "string option \<Rightarrow> debugParams \<Rightarrow> err + backend" where
  "select_backend gdb dp = (let debugger = (if dp_debugger dp = [] then ''delve'' else dp_debugger dp) in
     if debugger = ''delve'' then Inr Delve
     else if debugger = ''gdb'' then
       (if dp_gdbPath dp \<noteq> [] then Inr (Gdb (dp_gdbPath dp))
        else case gdb of
            Some path \<Rightarrow> Inr (Gdb path)
          | None \<Rightarrow> Inl (ErrNew ''GDB not found in PATH. Install GDB 14+ or set the gdbPath parameter''))
     else Inl (ErrNew (''unsupported debugger: '' @ debugger @ '' (must be 'delve' or 'gdb')'')))"

definition liftP :: "err + 'a \<Rightarrow> 'a prog" where
  "liftP r = (case r of Inl e \<Rightarrow> raiseP e | Inr a \<Rightarrow> returnP a)"

subsection \<open>Starting and connecting\<close>

text \<open>The operating system as this call meets it; the port is part of the command line.\<close>

definition exec_of :: "debugParams \<Rightarrow> world \<Rightarrow> exec_env" where
  "exec_of dp w = w_exec w (debug_port (dp_port dp))"

definition spawnP :: "backend \<Rightarrow> debugParams \<Rightarrow> string prog" where
  "spawnP b dp = bindP (getsP (\<lambda>w. Spawn b (exec_of dp w))) (\<lambda>r. case r of
      SpawnFailed killed e \<Rightarrow> raiseP e
    | Spawned proc addr \<Rightarrow>
        thenP (modifyP (\<lambda>w. upd_ds (\<lambda>ds. ds\<lparr>ds_cmd := proc\<rparr>)
                 (w\<lparr>w_procs := w_procs w + (if proc then 1 else 0)\<rparr>)))
          (returnP addr))"

text \<open>A new client object becomes the session's client.\<close>

definition install_client :: "client \<Rightarrow> nat prog" where
  "install_client c = bindP (getsP (\<lambda>w. length (w_clients w))) (\<lambda>p.
     thenP (modifyP (\<lambda>w. upd_ds (\<lambda>ds. ds\<lparr>ds_client := Some p\<rparr>) (w\<lparr>w_clients := w_clients w @ [c]\<rparr>)))
       (returnP p))"

definition connect_client :: "backend \<Rightarrow> string \<Rightarrow> nat prog" where
  "connect_client b listenAddr =
     (if TransportMode b = ''tcp'' then
        bindP (getsP (\<lambda>w. newDAPClient (w_dial w listenAddr) (is_redialer b) listenAddr)) (\<lambda>r.
        bindP (liftP r) install_client)
      else if TransportMode b = ''stdio'' then
        bindP (getsP (\<lambda>w. newDAPClientFromRWC (w_stdio w))) install_client
      else raiseP (ErrNew (''unsupported transport mode: '' @ TransportMode b)))"

definition startP :: "nat \<Rightarrow> unit prog" where
  "startP p = modifyP (upd_cl p (\<lambda>c. Start (SetReinitHook c)))"

definition stop_on_entry :: "debugParams \<Rightarrow> bool" where
  "stop_on_entry dp \<longleftrightarrow> dp_stopOnEntry dp \<or> dp_breakpoints dp = []"

text \<open>The launch or attach request of a mode.\<close>

definition launch_command :: "backend \<Rightarrow> string \<Rightarrow> string \<Rightarrow> debugParams \<Rightarrow> err + command" where
  "launch_command b cwd mode dp =
     (let wrap = (\<lambda>f r. case r of Inl e \<Rightarrow> Inl e | Inr args \<Rightarrow> Inr (f args)) in
      if mode = ''source'' \<or> mode = ''binary''
        then wrap Launch (LaunchArgs b cwd mode (dp_path dp) (stop_on_entry dp) (dp_args dp))
      else if mode = ''core'' then wrap Launch (CoreArgs b (dp_path dp) (dp_coreFilePath dp))
      else wrap Attach (AttachArgs b (dp_processId dp)))"

definition response_failed :: "string \<Rightarrow> dap_msg \<Rightarrow> unit prog" where
  "response_failed text msg = (case msg of
      ResponseMessage r \<Rightarrow> if \<not> rs_success r then raiseP (ErrNew (text @ rs_message r)) else returnP ()
    | _ \<Rightarrow> returnP ())"

definition initial_breakpoint :: "nat \<Rightarrow> breakpointSpec \<Rightarrow> unit prog" where
  "initial_breakpoint p bp =
     (if bs_function bp \<noteq> [] then
        bindP (SetFunctionBreakpointsRequest p [bs_function bp]) (\<lambda>seq.
          awaitResponseValidate base_ctx p seq ''unable to set function breakpoint'')
      else if bs_file bp \<noteq> [] \<and> 0 < bs_line bp then
        bindP (SetBreakpointsRequest p (bs_file bp) [bs_line bp]) (\<lambda>seq.
          awaitResponseValidate base_ctx p seq ''unable to set breakpoint'')
      else returnP ())"

subsection \<open>Waiting for the first stop\<close>

datatype startup = SEntry int | SStop int | STerminated

definition startup_ready :: "nat \<Rightarrow> nat \<Rightarrow> nat \<Rightarrow> nat \<Rightarrow> nat \<Rightarrow> world \<Rightarrow> (startup res \<times> world) option" where
  "startup_ready p stopSub termSub lostSub pick w = select pick
     (event_case p stopSub (\<lambda>x. case x of
          Some (StoppedEvent reason tid) \<Rightarrow> Ok (if reason = ''entry'' then SEntry tid else SStop tid)
        | _ \<Rightarrow> Er ErrConnectionStale) w
      @ event_case p termSub (\<lambda>x. if x = None then Er ErrConnectionStale else Ok STerminated) w
      @ event_case p lostSub (\<lambda>x. case x of
          Some (ConnectionLostEvent e) \<Rightarrow> Er (ErrWrap ''debug startup: '' (ErrStaleBecause e))
        | _ \<Rightarrow> Er ErrConnectionStale) w
      @ ctx_case base_ctx w)"

text \<open>One turn of the wait loop; the result is the thread to show, 0 when the program has ended.\<close>

definition wait_turn :: "nat \<Rightarrow> nat \<Rightarrow> nat \<Rightarrow> nat \<Rightarrow> (unit + int) prog" where
  "wait_turn p stopSub termSub lostSub =
     bindP (blockP (startup_ready p stopSub termSub lostSub)) (\<lambda>ev. case ev of
         SEntry tid \<Rightarrow> bindP (ContinueRequest p tid) (\<lambda>_. returnP (Inl ()))
       | SStop tid \<Rightarrow>
           thenP (setP (\<lambda>ds. ds\<lparr>ds_stoppedThreadID := tid\<rparr>)) (thenP stampP (returnP (Inr tid)))
       | STerminated \<Rightarrow> thenP stampP (returnP (Inr 0)))"

definition wait_first_stop :: "nat \<Rightarrow> int \<Rightarrow> string option prog" where
  "wait_first_stop p since =
     bindP (SubscribeP p StoppedT since) (\<lambda>stopSub. deferP (
     bindP (SubscribeP p TerminatedT since) (\<lambda>termSub. deferP (
     bindP (SubscribeP p ConnectionLostT since) (\<lambda>lostSub. deferP (
       bindP (loopP (\<lambda>_. wait_turn p stopSub termSub lostSub) ()) (\<lambda>tid.
       getFullContext (if tid = 0 then 1 else tid) 0 20))
     (cancelP p lostSub)))
     (cancelP p termSub)))
     (cancelP p stopSub))"

definition core_context :: "nat \<Rightarrow> int \<Rightarrow> string option prog" where
  "core_context p since =
     bindP (awaitStopOrTerminate base_ctx p since) (\<lambda>ev.
     thenP (case ev of
         GotStopped reason tid \<Rightarrow> setP (\<lambda>ds. ds\<lparr>ds_stoppedThreadID := tid\<rparr>)
       | GotTerminated \<Rightarrow> returnP ()) (
     thenP (setP (\<lambda>ds. if ds_stoppedThreadID ds = 0 then ds\<lparr>ds_stoppedThreadID := 1\<rparr> else ds)) (
     thenP stampP (
     bindP (dsP ds_stoppedThreadID) (\<lambda>tid. getFullContext tid 0 20)))))"

definition attach_text :: "debugParams \<Rightarrow> string" where
  "attach_text dp = (if dp_breakpoints dp = []
     then ''Attach debug session ready. Set breakpoints with the 'breakpoint' tool, then call 'wait-for-stop' when ready to block for a hit.''
     else ''Attach debug session ready. Breakpoints set. Call 'wait-for-stop' when an external trigger is expected to hit a breakpoint.'')"

definition started_text :: "string \<Rightarrow> string" where
  "started_text path = ''Debug session started for '' @ path
     @ ''. Use 'breakpoint' to set breakpoints and 'continue' to run.''"

subsection \<open>debug\<close>

text \<open>From the checks of the parameters to the backend that will serve the session.\<close>

definition prepare :: "debugParams \<Rightarrow> (string \<times> backend) prog" where
  "prepare dp =
     bindP (dsP ds_backend) (\<lambda>b0.
     bindP (liftP (debug_mode b0 (dp_mode dp))) (\<lambda>mode.
     case check_params (is_connect b0) mode dp of
         Some e \<Rightarrow> raiseP e
       | None \<Rightarrow>
           if is_connect b0 then returnP (mode, the b0)
           else bindP (getsP (\<lambda>w. select_backend (w_gdb w) dp)) (\<lambda>sel.
                bindP (liftP sel) (\<lambda>b.
                thenP (setP (\<lambda>ds. ds\<lparr>ds_backend := Some b\<rparr>)) (returnP (mode, b))))))"

text \<open>The DAP handshake: initialize, launch or attach, breakpoints, configurationDone.  The answer is the
  time from which events of this start count.\<close>

definition configure :: "nat \<Rightarrow> debugParams \<Rightarrow> int \<Rightarrow> command \<Rightarrow> int prog" where
  "configure p dp since c =
     bindP (request p c) (\<lambda>launchSeq.
     bindP (AwaitResponse base_ctx p launchSeq) (\<lambda>msg.
     thenP (response_failed ''unable to start debug session: '' msg) (
     thenP (wrapP (ErrWrap ''debug startup: '') (awaitInitializedEvent base_ctx p since)) (
     thenP (forP (dp_breakpoints dp) (initial_breakpoint p)) (
     bindP (ConfigurationDoneRequest p) (\<lambda>configSeq.
     thenP (awaitResponseValidate base_ctx p configSeq ''unable to complete configuration'') (
     returnP since)))))))"

definition handshake :: "nat \<Rightarrow> backend \<Rightarrow> string \<Rightarrow> debugParams \<Rightarrow> int prog" where
  "handshake p b mode dp =
     bindP (InitializeRequest base_ctx p (AdapterID b)) (\<lambda>caps.
     thenP (setP (\<lambda>ds. ds\<lparr>ds_capabilities := caps, ds_launchMode := mode, ds_programPath := dp_path dp,
                         ds_programArgs := dp_args dp, ds_coreFilePath := dp_coreFilePath dp\<rparr>)) (
     bindP nowP (\<lambda>since.
     bindP (getsP (\<lambda>w. launch_command b (ex_cwd (exec_of dp w)) mode dp)) (\<lambda>cmd.
     bindP (liftP cmd) (configure p dp since)))))"

definition first_result :: "nat \<Rightarrow> string \<Rightarrow> debugParams \<Rightarrow> int \<Rightarrow> string option prog" where
  "first_result p mode dp since =
     (if mode = ''core'' then core_context p since
      else if mode = ''attach'' then textP (attach_text dp)
      else if dp_breakpoints dp \<noteq> [] \<and> \<not> dp_stopOnEntry dp then wait_first_stop p since
      else textP (started_text (dp_path dp)))"

definition debug :: "debugParams \<Rightarrow> string option prog" where
  "debug dp = withLock (
     thenP cleanup (
     bindP (prepare dp) (\<lambda>(mode, b).
     bindP (spawnP b dp) (\<lambda>listenAddr.
     bindP (connect_client b listenAddr) (\<lambda>p.
     thenP (startP p) (
     bindP (handshake p b mode dp) (\<lambda>since.
     thenP stampP (
     thenP registerSessionTools (
     first_result p mode dp since)))))))))"

subsection \<open>reinitialize\<close>

definition reinit_file :: "ctx \<Rightarrow> nat \<Rightarrow> nat \<Rightarrow> nat \<Rightarrow> string \<times> int list \<Rightarrow> unit prog" where
  "reinit_file ctx p n applied x = (case x of (file, specs) \<Rightarrow>
     let progress = '' ('' @ itoa (int applied) @ ''/'' @ itoa (int n) @ '' applied)'' in
     bindP (wrapP (\<lambda>e. ErrWrapThen (''reinitialize: SetBreakpointsRequest for '' @ file @ '' failed: '') e progress)
              (SetBreakpointsRequestRaw p file specs)) (\<lambda>seq.
     wrapP (\<lambda>e. ErrWrapThen (''reinitialize: SetBreakpoints response for '' @ file @ '': '') e progress)
       (awaitResponseValidate ctx p seq (''reinitialize SetBreakpoints '' @ file))))"

primrec reinit_files :: "ctx \<Rightarrow> nat \<Rightarrow> nat \<Rightarrow> nat \<Rightarrow> (string \<times> int list) list \<Rightarrow> unit prog" where
  "reinit_files ctx p n applied [] = returnP ()"
| "reinit_files ctx p n applied (x # xs) =
     thenP (reinit_file ctx p n applied x) (reinit_files ctx p n (Suc applied) xs)"

definition reinit_functions :: "ctx \<Rightarrow> nat \<Rightarrow> string list \<Rightarrow> unit prog" where
  "reinit_functions ctx p fs =
     (if fs = [] then returnP ()
      else bindP (wrapP (ErrWrap ''reinitialize: SetFunctionBreakpointsRequest: '')
                    (SetFunctionBreakpointsRequestRaw p fs)) (\<lambda>seq.
           wrapP (ErrWrap ''reinitialize: SetFunctionBreakpoints response: '')
             (awaitResponseValidate ctx p seq ''reinitialize SetFunctionBreakpoints'')))"

text \<open>Initialize; attach, up to the adapter's InitializedEvent.\<close>

definition reinit_initialize :: "ctx \<Rightarrow> nat \<Rightarrow> backend \<Rightarrow> unit prog" where
  "reinit_initialize ctx p b =
     bindP (wrapP (ErrWrap ''reinitialize: InitializeRequest failed: '')
              (InitializeRequestRaw ctx p (AdapterID b))) (\<lambda>caps.
     setP (\<lambda>ds. ds\<lparr>ds_capabilities := caps\<rparr>))"

definition reinit_attach :: "ctx \<Rightarrow> nat \<Rightarrow> backend \<Rightarrow> unit prog" where
  "reinit_attach ctx p b =
     bindP (wrapP (ErrWrap ''reinitialize: AttachArgs failed: '') (liftP (AttachArgs b 0))) (\<lambda>args.
     bindP nowP (\<lambda>since.
     bindP (wrapP (ErrWrap ''reinitialize: AttachRequest send failed: '') (AttachRequestRaw p args)) (\<lambda>attachSeq.
     bindP (wrapP (ErrWrap ''reinitialize: attach response: '') (AwaitResponse ctx p attachSeq)) (\<lambda>msg.
     thenP (response_failed ''reinitialize: attach failed: '' msg) (
     wrapP (ErrWrap ''reinitialize: waiting for InitializedEvent: '') (awaitInitializedEvent ctx p since))))))"

text \<open>Re-apply the breakpoints and end the configuration.\<close>

definition reinit_configure :: "ctx \<Rightarrow> nat \<Rightarrow> unit prog" where
  "reinit_configure ctx p =
     bindP (getsP (\<lambda>w. map_order w (ds_breakpoints (w_ds w)))) (\<lambda>files.
     thenP (reinit_files ctx p (length files) 0 files) (
     bindP (dsP ds_functionBreakpoints) (\<lambda>fs.
     thenP (reinit_functions ctx p fs) (
     bindP (wrapP (ErrWrap ''reinitialize: ConfigurationDoneRequest: '') (ConfigurationDoneRequestRaw p)) (\<lambda>seq.
     wrapP (ErrWrap ''reinitialize: ConfigurationDone response: '')
       (awaitResponseValidate ctx p seq ''reinitialize ConfigurationDone''))))))"

definition reinitialize :: "ctx \<Rightarrow> unit prog" where
  "reinitialize ctx = withLock (
     bindP (dsP ds_client) (\<lambda>c. bindP (dsP ds_backend) (\<lambda>b. case (c, b) of
         (None, _) \<Rightarrow> raiseP (ErrNew ''reinitialize: no DAP client'')
       | (Some p, None) \<Rightarrow> raiseP (ErrNew ''reinitialize: no backend'')
       | (Some p, Some b) \<Rightarrow>
           thenP (reinit_initialize ctx p b) (
           thenP (reinit_attach ctx p b) (
           thenP (reinit_configure ctx p) (
           setP (\<lambda>ds. ds\<lparr>ds_stoppedThreadID := 0, ds_lastFrameID := - 1, ds_lastStopAt := zero_time\<rparr>)))))))"

subsection \<open>reconnect\<close>

text \<open>Go's \<^verbatim>\<open>%q\<close> on text in ASCII.\<close>

definition hex_digit :: "nat \<Rightarrow> char" where
  "hex_digit n = char_of (if n < 10 then 48 + n else 87 + n)"

definition quote_char :: "char \<Rightarrow> string" where
  "quote_char c = (let n = (of_char c :: nat) in
     if n = 34 \<or> n = 92 then [CHR 0x5C, c]
     else if n = 7 then [CHR 0x5C, CHR ''a''] else if n = 8 then [CHR 0x5C, CHR ''b'']
     else if n = 9 then [CHR 0x5C, CHR ''t''] else if n = 10 then [CHR 0x5C, CHR ''n'']
     else if n = 11 then [CHR 0x5C, CHR ''v''] else if n = 12 then [CHR 0x5C, CHR ''f'']
     else if n = 13 then [CHR 0x5C, CHR ''r'']
     else if n < 32 \<or> n = 127 then [CHR 0x5C, CHR ''x'', hex_digit (n div 16), hex_digit (n mod 16)]
     else [c])"

definition go_quote :: "string \<Rightarrow> string" where
  "go_quote s = [CHR 0x22] @ concat (map quote_char s) @ [CHR 0x22]"

definition bool_text :: "bool \<Rightarrow> string" where
  "bool_text b = (if b then ''true'' else ''false'')"

definition still_reconnecting_text :: "int \<Rightarrow> 32 word \<Rightarrow> string \<Rightarrow> bool \<Rightarrow> string" where
  \<open>still_reconnecting_text secs attempts lastErr already =
     ''{"status":"still_reconnecting","elapsed_sec":'' @ itoa secs @ '',"attempts":'' @ itoa (uint attempts)
     @ '',"last_error":'' @ go_quote lastErr @ '',"already_reconnecting":'' @ bool_text already @ ''}''\<close>

definition recovered_text :: "int \<Rightarrow> 32 word \<Rightarrow> string" where
  \<open>recovered_text secs attempts =
     ''{"status":"healthy","recovered_in_sec":'' @ itoa secs @ '',"attempts_before_success":''
     @ itoa (uint attempts) @ ''}''\<close>

definition healthy_text :: string where
  \<open>healthy_text = ''{"status":"healthy"}''\<close>

text \<open>One turn of the polling loop: leave it, or sleep 100 ms.\<close>

definition poll_interval :: int where "poll_interval = 100000000"

definition poll_turn :: "nat \<Rightarrow> int \<Rightarrow> (unit + unit) prog" where
  "poll_turn p deadline =
     bindP (getsP (\<lambda>w. c_stale (cl w p) \<and> w_now w < deadline)) (\<lambda>again.
     if \<not> again then returnP (Inr ())
     else bindP nowP (\<lambda>t0. bindP (blockP (\<lambda>pick w. select pick
            (ctx_case base_ctx w @ (if t0 + poll_interval \<le> w_now w then [(Ok (), w)] else [])))) (\<lambda>_.
          returnP (Inl ()))))"

definition poll_stale :: "nat \<Rightarrow> int \<Rightarrow> unit prog" where
  "poll_stale p deadline = loopP (\<lambda>_. poll_turn p deadline) ()"

definition supports_redial :: "backend option \<Rightarrow> bool" where
  "supports_redial b = (case b of None \<Rightarrow> False | Some b \<Rightarrow> is_redialer b)"

definition reconnect_status :: "nat \<Rightarrow> int \<Rightarrow> 32 word \<Rightarrow> string option prog" where
  "reconnect_status p start before =
     bindP nowP (\<lambda>now. let secs = (now - start) div second in
     bindP (getsP (\<lambda>w. cl w p)) (\<lambda>c.
       if c_stale c then textP (still_reconnecting_text secs (c_attempts c)
         (case c_lastErr c of None \<Rightarrow> [] | Some s \<Rightarrow> s) (0 < before))
       else textP (recovered_text secs (c_attempts c - before))))"

definition reconnect :: "bool \<Rightarrow> int \<Rightarrow> string option prog" where
  "reconnect force waitTimeoutSec =
     bindP (withLock (dsP (\<lambda>ds. (ds_client ds, ds_backend ds)))) (\<lambda>(c, b). case c of
         None \<Rightarrow> raiseP (ErrNew ''debugger not started'')
       | Some p \<Rightarrow>
           if force \<and> \<not> supports_redial b then
             raiseP (ErrNew ''reconnect: backend does not support redial (current backend is SpawnBackend; reconnect is only meaningful for ConnectBackend sessions)'')
           else
             thenP (if force then markStaleP p else returnP ()) (
             thenP yieldP (
             bindP (staleP p) (\<lambda>stale.
             if \<not> stale then textP healthy_text
             else if \<not> supports_redial b then
               raiseP (ErrNew ''reconnect: connection stale but backend does not support redial; call 'stop' and start a new debug session'')
             else
               bindP (getsP (\<lambda>w. c_attempts (cl w p))) (\<lambda>before.
               bindP nowP (\<lambda>start.
               thenP (poll_stale p (start + seconds (clamp_timeout waitTimeoutSec))) (
               reconnect_status p start before)))))))"

end
