(* ===== verification/Plans.thy ===== *)
theory Plans
  imports Debug "HOL-Library.Sublist"
begin

text \<open>
  A calculus for the handlers that run under the session mutex: which commands a program sends, and what it
  does to the session, whatever the other goroutines do meanwhile.
\<close>

subsection \<open>Handlers as plans\<close>

text \<open>\<open>plan w0 p s m t\<close>: within the frame of \<open>w0\<close>, after the commands \<open>s\<close>, the program \<open>m\<close> sends exactly
  the commands \<open>t\<close> when it succeeds, and a prefix of them when it fails or is still waiting.\<close>

definition progress :: "world \<Rightarrow> nat \<Rightarrow> command list \<Rightarrow> command list \<Rightarrow> world \<Rightarrow> bool" where
  "progress w0 p s t w \<longleftrightarrow> (\<exists>u. prefix u t \<and> frame w0 p (s @ u) w)"

definition plan :: "world \<Rightarrow> nat \<Rightarrow> command list \<Rightarrow> 'a prog \<Rightarrow> command list \<Rightarrow> bool" where
  "plan w0 p s m t \<longleftrightarrow>
     hoare (frame w0 p s) m (\<lambda>_. frame w0 p (s @ t)) (\<lambda>_. progress w0 p s t) (progress w0 p s t)"

lemma progress_start: "frame w0 p s w \<Longrightarrow> progress w0 p s t w"
  unfolding progress_def by (intro exI [of _ "[]"]) simp

lemma progress_end: "frame w0 p (s @ t) w \<Longrightarrow> progress w0 p s t w"
  unfolding progress_def by blast

lemma progress_append: "progress w0 p s t w \<Longrightarrow> progress w0 p s (t @ t') w"
  unfolding progress_def by (meson prefix_prefix)

lemma progress_later: "progress w0 p (s @ t) t' w \<Longrightarrow> progress w0 p s (t @ t') w"
  unfolding progress_def by (metis append.assoc same_prefix_prefix)

lemma plan_bind [triple]:
  assumes "plan w0 p s m t" "\<And>a. plan w0 p (s @ t) (k a) t'"
  shows "plan w0 p s (bindP m k) (t @ t')"
  unfolding plan_def
proof (rule hoare_bind)
  show "hoare (frame w0 p s) m (\<lambda>_. frame w0 p (s @ t)) (\<lambda>_. progress w0 p s (t @ t')) (progress w0 p s (t @ t'))"
    by (rule hoare_conseq [OF assms(1) [unfolded plan_def]]) (auto intro: progress_append)
  show "hoare (frame w0 p (s @ t)) (k a) (\<lambda>_. frame w0 p (s @ t @ t')) (\<lambda>_. progress w0 p s (t @ t'))
      (progress w0 p s (t @ t'))" for a
    by (rule hoare_conseq [OF assms(2) [of a, unfolded plan_def]]) (auto intro: progress_later)
qed

lemma plan_then [triple]:
  "plan w0 p s m t \<Longrightarrow> plan w0 p (s @ t) k t' \<Longrightarrow> plan w0 p s (thenP m k) (t @ t')"
  unfolding thenP_def by (rule plan_bind)

lemma plan_return [triple]: "plan w0 p s (returnP a) []"
  unfolding plan_def by (rule hoare_return) simp

lemma plan_raise [triple]: "plan w0 p s (raiseP e) t"
  unfolding plan_def by (rule hoare_raise) (rule progress_start)

lemma plan_wrap [triple]: "plan w0 p s m t \<Longrightarrow> plan w0 p s (wrapP f m) t"
  unfolding plan_def by (rule hoare_wrap)

lemma plan_gets [triple]: "plan w0 p s (getsP f) []"
  unfolding plan_def by (rule hoare_gets) simp

lemma plan_request [triple]: "plan w0 p s (request p cmd) [cmd]"
  unfolding plan_def
  by (rule hoare_conseq [OF request_triple]) (auto intro: progress_start)

lemma plan_requestRaw [triple]: "plan w0 p s (requestRaw p cmd) [cmd]"
  unfolding plan_def
  by (rule hoare_conseq [OF requestRaw_triple]) (auto intro: progress_start)

lemma plan_of_ok:
  assumes "hoare (frame w0 p s) m (\<lambda>_. frame w0 p s) (\<lambda>_. frame w0 p s) (frame w0 p s)"
  shows "plan w0 p s m []"
  unfolding plan_def by (rule hoare_conseq [OF assms]) (auto intro: progress_start)

lemma plan_validate [triple]: "plan w0 p s (awaitResponseValidate ctx p seq pre) []"
  by (rule plan_of_ok, rule awaitResponseValidate_ok, rule frame_admissible)

lemma plan_typed [triple]: "plan w0 p s (awaitResponseTyped T sel ctx p seq) []"
  by (rule plan_of_ok, rule awaitResponseTyped_ok, rule frame_admissible)

lemma plan_await [triple]: "plan w0 p s (AwaitResponse ctx p seq) []"
  by (rule plan_of_ok, rule hoare_conseq [OF AwaitResponse_ok [OF frame_admissible]]) auto

lemma plan_initialized [triple]: "plan w0 p s (awaitInitializedEvent ctx p since) []"
  by (rule plan_of_ok, rule awaitInitializedEvent_ok, rule frame_admissible)

lemma plan_stop_or_term [triple]: "plan w0 p s (awaitStopOrTerminate ctx p since) []"
  by (rule plan_of_ok, rule awaitStopOrTerminate_ok, rule frame_admissible)

lemma plan_if [triple]: "(b \<Longrightarrow> plan w0 p s m t) \<Longrightarrow> (\<not> b \<Longrightarrow> plan w0 p s n t) \<Longrightarrow> plan w0 p s (if b then m else n) t"
  by simp

lemma plan_for:
  assumes "\<And>x s. x \<in> set xs \<Longrightarrow> plan w0 p s (f x) (g x)"
  shows "plan w0 p s (forP xs f) (concat (map g xs))"
  using assms
proof (induction xs arbitrary: s)
  case Nil
  then show ?case by (simp add: plan_return)
next
  case (Cons x xs)
  then show ?case by (simp add: plan_then)
qed

lemma plan_text: "plan w0 p s (textP t) []"
  unfolding textP_def by (rule plan_return)

lemma plan_ask:
  assumes "\<And>seq s. plan w0 p s (k seq) []"
  shows "plan w0 p s (bindP (request p cmd) k) [cmd]"
proof -
  have "plan w0 p s (bindP (request p cmd) k) ([cmd] @ [])"
    by (rule plan_bind [OF plan_request]) (rule assms)
  then show ?thesis by simp
qed

lemma plan_answer:
  assumes "\<And>b s. plan w0 p s (k b) []"
  shows "plan w0 p s (bindP (wrapP f (awaitResponseTyped T sel ctx p seq)) k) []"
proof -
  have "plan w0 p s (bindP (wrapP f (awaitResponseTyped T sel ctx p seq)) k) ([] @ [])"
    by (rule plan_bind [OF plan_wrap [OF plan_typed]]) (rule assms)
  then show ?thesis by simp
qed

lemma plan_checked: "plan w0 p s (thenP (awaitResponseValidate ctx p seq pre) (textP t)) []"
proof -
  have "plan w0 p s (thenP (awaitResponseValidate ctx p seq pre) (textP t)) ([] @ [])"
    by (rule plan_then [OF plan_validate plan_text])
  then show ?thesis by simp
qed

subsection \<open>From the frame to the handler\<close>

lemma withLock_eq:
  "withLock m w = (case m (w\<lparr>w_locked := True\<rparr>) of
      (Ok a, w') \<Rightarrow> (Ok a, w'\<lparr>w_locked := False\<rparr>) | (Er e, w') \<Rightarrow> (Er e, w'\<lparr>w_locked := False\<rparr>)
    | (Pending, w') \<Rightarrow> (Pending, w') | (Panic, w') \<Rightarrow> (Panic, w'))"
  by (simp add: withLock_def thenP_def bindP_def lockP_def modifyP_def deferP_def tryP_def unlockP_def
      raiseP_def returnP_def split: res.split prod.split)

lemma frame_enter:
  assumes "world_ok w" "ds_client (w_ds w) = Some p"
  shows "frame (w\<lparr>w_locked := True\<rparr>) p (sent w p) (w\<lparr>w_locked := True\<rparr>)"
  using assms by (auto simp: frame_def same_def world_ok_def sent_def cl_def)

text \<open>The result of a locked handler on a session with a client: what its body establishes, with the mutex
  released unless it is still waiting; it does not panic.\<close>

lemma locked_handler:
  assumes "world_ok w" "ds_client (w_ds w) = Some p"
    and "hoare (frame (w\<lparr>w_locked := True\<rparr>) p (sent w p)) (k p) Q E R"
    and "withLock (withClient k) w = (res, w')"
    and "\<And>a v b. Q a v \<Longrightarrow> C (Ok a) (v\<lparr>w_locked := b\<rparr>)" "\<And>e v b. E e v \<Longrightarrow> C (Er e) (v\<lparr>w_locked := b\<rparr>)"
    and "\<And>v b. R v \<Longrightarrow> C Pending (v\<lparr>w_locked := b\<rparr>)"
  shows "C res w' \<and> res \<noteq> Panic"
proof -
  let ?w = "w\<lparr>w_locked := True\<rparr>"
  have "withClient k ?w = k p ?w"
    using assms(2) by (simp add: withClient_def dsP_def bindP_def getsP_def)
  then have e: "withLock (withClient k) w = (case k p ?w of
      (Ok a, w') \<Rightarrow> (Ok a, w'\<lparr>w_locked := False\<rparr>) | (Er e, w') \<Rightarrow> (Er e, w'\<lparr>w_locked := False\<rparr>)
    | (Pending, w') \<Rightarrow> (Pending, w') | (Panic, w') \<Rightarrow> (Panic, w'))"
    by (simp add: withLock_eq)
  obtain r v where k: "k p ?w = (r, v)" by force
  note D = hoare_D [OF assms(3) frame_enter [OF assms(1,2)]]
  have v: "v = v\<lparr>w_locked := w_locked v\<rparr>" by simp
  show ?thesis
  proof (cases r)
    case Pending
    then show ?thesis using assms(4) k D(3) [of v] assms(7) [of v "w_locked v"] by (auto simp: e)
  qed (use assms(4) k D assms(5,6) in \<open>auto simp: e\<close>)
qed

lemma frame_obs:
  assumes "frame w0 p s v"
  shows "w_ds (v\<lparr>w_locked := b\<rparr>) = w_ds w0" "sent (v\<lparr>w_locked := b\<rparr>) p = s" "world_ok (v\<lparr>w_locked := b\<rparr>)"
    "w_server (v\<lparr>w_locked := b\<rparr>) = w_server w0" "w_procs (v\<lparr>w_locked := b\<rparr>) = w_procs w0"
  using assms by (auto simp: frame_def same_def sent_def cl_def world_ok_def)

lemma progress_obs:
  assumes "progress w0 p s t v"
  shows "w_ds (v\<lparr>w_locked := b\<rparr>) = w_ds w0" "world_ok (v\<lparr>w_locked := b\<rparr>)"
    "\<exists>u. prefix u t \<and> sent (v\<lparr>w_locked := b\<rparr>) p = s @ u"
    "w_server (v\<lparr>w_locked := b\<rparr>) = w_server w0" "w_procs (v\<lparr>w_locked := b\<rparr>) = w_procs w0"
  using assms by (auto simp: progress_def dest: frame_obs)

text \<open>What a locked handler can be observed to do: the commands it sent and the session it leaves.  \<open>f\<close> is
  its effect on the session when it succeeds with the plan \<open>t\<close>.\<close>

definition did :: "world \<Rightarrow> nat \<Rightarrow> command list \<Rightarrow> (session \<Rightarrow> session) \<Rightarrow> 'a res \<Rightarrow> world \<Rightarrow> bool" where
  "did w p t f res w' \<longleftrightarrow> world_ok w' \<and> (case res of
      Ok a \<Rightarrow> w_ds w' = f (w_ds w) \<and> sent w' p = sent w p @ t
    | Panic \<Rightarrow> False
    | _ \<Rightarrow> w_ds w' = w_ds w \<and> (\<exists>u. prefix u t \<and> sent w' p = sent w p @ u))"

text \<open>\<open>effect w0 p s m t f\<close>: a plan whose success also changes the session by \<open>f\<close>.\<close>

definition effect :: "world \<Rightarrow> nat \<Rightarrow> command list \<Rightarrow> 'a prog \<Rightarrow> command list \<Rightarrow> (session \<Rightarrow> session) \<Rightarrow> bool" where
  "effect w0 p s m t f \<longleftrightarrow> hoare (frame w0 p s) m (\<lambda>_. frame (upd_ds f w0) p (s @ t))
     (\<lambda>_. progress w0 p s t) (progress w0 p s t)"

lemma effect_bind:
  assumes "plan w0 p s m t" "\<And>a. effect w0 p (s @ t) (k a) t' f"
  shows "effect w0 p s (bindP m k) (t @ t') f"
  unfolding effect_def
proof (rule hoare_bind)
  show "hoare (frame w0 p s) m (\<lambda>_. frame w0 p (s @ t)) (\<lambda>_. progress w0 p s (t @ t')) (progress w0 p s (t @ t'))"
    by (rule hoare_conseq [OF assms(1) [unfolded plan_def]]) (auto intro: progress_append)
  show "hoare (frame w0 p (s @ t)) (k a) (\<lambda>_. frame (upd_ds f w0) p (s @ t @ t')) (\<lambda>_. progress w0 p s (t @ t'))
      (progress w0 p s (t @ t'))" for a
    by (rule hoare_conseq [OF assms(2) [of a, unfolded effect_def]]) (auto intro: progress_later)
qed

lemma effect_then: "plan w0 p s m t \<Longrightarrow> effect w0 p (s @ t) k t' f \<Longrightarrow> effect w0 p s (thenP m k) (t @ t') f"
  unfolding thenP_def by (rule effect_bind)

text \<open>Reading the session reads that of the frame.\<close>

lemma hoare_ds:
  "hoare (frame w0 p s) (k (g (w_ds w0))) Q E R \<Longrightarrow> hoare (frame w0 p s) (bindP (dsP g) k) Q E R"
  by (auto simp: hoare_def dsP_def getsP_def bindP_def frame_def same_def)

lemma effect_ds: "effect w0 p s (k (g (w_ds w0))) t f \<Longrightarrow> effect w0 p s (bindP (dsP g) k) t f"
  unfolding effect_def by (rule hoare_ds)

lemma plan_ds: "plan w0 p s (k (g (w_ds w0))) t \<Longrightarrow> plan w0 p s (bindP (dsP g) k) t"
  unfolding plan_def by (rule hoare_ds)

lemma plan_ds_ask:
  assumes "\<And>seq s. plan w0 p s (k (g (w_ds w0)) seq) []"
  shows "plan w0 p s (bindP (dsP g) (\<lambda>x. bindP (request p (cmd x)) (k x))) [cmd (g (w_ds w0))]"
  by (rule plan_ds, rule plan_ask, rule assms)

lemma effect_raise: "effect w0 p s (raiseP e) t f"
  unfolding effect_def by (rule hoare_raise) (rule progress_start)

lemma effect_if: "(b \<Longrightarrow> effect w0 p s m t f) \<Longrightarrow> (\<not> b \<Longrightarrow> effect w0 p s n t f) \<Longrightarrow>
    effect w0 p s (if b then m else n) t f"
  by simp

lemma set_frame:
  assumes "\<And>d. ds_client (f d) = ds_client d"
  shows "hoare (frame w0 p s) (setP f) (\<lambda>_. frame (upd_ds f w0) p s) E R"
  unfolding setP_def
proof (rule hoare_modify)
  fix w assume f: "frame w0 p s w"
  show "frame (upd_ds f w0) p s (upd_ds f w)"
    by (rule frame_upd_ds [OF f]) (use f assms in \<open>auto simp: frame_def same_def world_ok_def\<close>)
qed

lemma effect_set:
  assumes "\<And>d. ds_client (f d) = ds_client d"
  shows "effect w0 p s (thenP (setP f) (returnP a)) [] f"
  unfolding effect_def by (rule hoare_then [OF set_frame [OF assms]], rule hoare_return) simp

lemma effect_plan: "plan w0 p s m t \<Longrightarrow> f (w_ds w0) = w_ds w0 \<Longrightarrow> effect w0 p s m t f"
  by (simp add: plan_def effect_def upd_ds_def)

lemma handler_did:
  assumes "world_ok w" "ds_client (w_ds w) = Some p"
    and "\<And>w0 s. w_ds w0 = w_ds w \<Longrightarrow> w_rank w0 = w_rank w \<Longrightarrow> effect w0 p s (k p) t f"
    and "withLock (withClient k) w = (res, w')"
  shows "did w p t f res w'"
proof -
  let ?w = "w\<lparr>w_locked := True\<rparr>"
  have h: "hoare (frame ?w p (sent w p)) (k p) (\<lambda>a v. frame (upd_ds f ?w) p (sent w p @ t) v)
        (\<lambda>_. progress ?w p (sent w p) t) (progress ?w p (sent w p) t)"
    using assms(3) [of ?w "sent w p"] by (simp add: effect_def)
  have "did w p t f res w' \<and> res \<noteq> Panic"
    by (rule locked_handler [OF assms(1,2) h assms(4)])
       (auto simp: did_def dest: frame_obs progress_obs)
  then show ?thesis by simp
qed

text \<open>Without a client a handler only reports so.\<close>

lemma handler_none:
  assumes "ds_client (w_ds w) = None"
  shows "withLock (withClient k) w = (Er (ErrNew ''debugger not started''), w\<lparr>w_locked := False\<rparr>)"
  using assms by (simp add: withLock_eq withClient_def dsP_def bindP_def getsP_def raiseP_def)

subsection \<open>Concrete runs\<close>

text \<open>A session with a started client, to an adapter that answers as written in the rounds.\<close>

definition demo_session :: session where
  "demo_session = (initial_session ''h:1'')\<lparr>ds_client := Some 0\<rparr>"

definition demo_world :: "session \<Rightarrow> round list \<Rightarrow> world" where
  "demo_world ds rs = \<lparr>w_clients = [demo_start], w_ds = ds, w_locked = False,
     w_now = 100, w_cancelled = False, w_future = rs, w_writes = [], w_rank = length, w_server = [],
     w_procs = 0, w_exec = (\<lambda>port. demo_exec), w_dial = (\<lambda>a. Inl 3), w_gdb = None, w_stdio = 9\<rparr>"

definition acts_round :: "env_act list \<Rightarrow> round" where
  "acts_round acts = \<lparr>r_dt = 1, r_acts = acts, r_pick = 0\<rparr>"

definition arrives :: "nat \<Rightarrow> dap_msg \<Rightarrow> env_act list" where
  "arrives p m = replicate 2 (APump p InGo False) @ APump p (InMsg m) False # replicate 4 (APump p InGo False)"

definition bridges :: "nat \<Rightarrow> nat \<Rightarrow> env_act list" where
  "bridges p i = replicate 2 (ABridge p i False)"

definition accepts :: "nat \<Rightarrow> int \<Rightarrow> resp_body \<Rightarrow> round" where
  "accepts p seq body = acts_round (arrives p
     (ResponseMessage \<lparr>rs_seq = seq, rs_success = True, rs_message = [], rs_body = body\<rparr>))"

definition refuses :: "nat \<Rightarrow> int \<Rightarrow> round" where
  "refuses p seq = acts_round (arrives p
     (ResponseMessage \<lparr>rs_seq = seq, rs_success = False, rs_message = ''no'', rs_body = ErrorR\<rparr>))"

definition quiet :: round where "quiet = acts_round []"

lemma demo_world_ok: "ds_client ds = Some 0 \<Longrightarrow> world_ok (demo_world ds rs)"
  by (auto simp: world_ok_def demo_world_def cl_def reachable_demo_start)

lemma demo_fields [simp]: "w_ds (demo_world ds rs) = ds" "sent (demo_world ds rs) 0 = []"
  by (simp_all add: demo_world_def sent_def cl_def demo_start_def Start_def startReadLoop_def SetReinitHook_def
    newDAPClientInternal_def)

definition verified :: resp_body where
  "verified = SetBreakpointsR [\<lparr>bp_id = 5, bp_verified = True, bp_message = [], bp_line = 7\<rparr>]"

lemma run_Ok: "fst r = Ok a \<Longrightarrow> r = (Ok a, snd r)"
  by (cases r) simp

end
