(* ===== verification/Keeping.thy ===== *)
theory Keeping
  imports Plans
begin

text \<open>
  A second calculus: programs that may move to where the program stopped and may add to the wire, but keep the
  rest of the session.  It covers the handlers whose requests depend on what the adapter answers.
\<close>

subsection \<open>What inspection and execution leave alone\<close>

text \<open>The session up to where the program stopped, and the wire, which only grows.\<close>

definition moved :: "session \<Rightarrow> session \<Rightarrow> bool" where
  "moved ds ds' \<longleftrightarrow> ds' = ds\<lparr>ds_stoppedThreadID := ds_stoppedThreadID ds', ds_lastFrameID := ds_lastFrameID ds',
     ds_lastStopAt := ds_lastStopAt ds'\<rparr>"

lemma moved_refl [simp]: "moved ds ds"
  by (simp add: moved_def)

lemma movedD:
  assumes "moved ds ds'"
  shows "ds_cmd ds' = ds_cmd ds" "ds_client ds' = ds_client ds" "ds_backend ds' = ds_backend ds"
    "ds_capabilities ds' = ds_capabilities ds" "ds_launchMode ds' = ds_launchMode ds"
    "ds_programPath ds' = ds_programPath ds" "ds_programArgs ds' = ds_programArgs ds"
    "ds_coreFilePath ds' = ds_coreFilePath ds" "ds_breakpoints ds' = ds_breakpoints ds"
    "ds_functionBreakpoints ds' = ds_functionBreakpoints ds"
  using assms by (cases ds; cases ds'; simp add: moved_def)+

lemma moved_trans: "moved ds ds' \<Longrightarrow> moved ds' ds'' \<Longrightarrow> moved ds ds''"
  by (cases ds; cases ds'; cases ds'') (simp add: moved_def)

definition kept :: "world \<Rightarrow> nat \<Rightarrow> nat \<Rightarrow> world \<Rightarrow> bool" where
  "kept w0 p k w \<longleftrightarrow> world_ok w \<and> w_locked w \<and> p < length (w_clients w) \<and> ds_client (w_ds w) = Some p
     \<and> moved (w_ds w0) (w_ds w) \<and> prefix (sent w0 p) (sent w p)
     \<and> w_server w = w_server w0 \<and> w_procs w = w_procs w0 \<and> w_rank w = w_rank w0 \<and> k \<le> nsubs w p"

definition keeps :: "world \<Rightarrow> nat \<Rightarrow> nat \<Rightarrow> 'a prog \<Rightarrow> bool" where
  "keeps w0 p k m \<longleftrightarrow> hoare (kept w0 p k) m (\<lambda>_. kept w0 p k) (\<lambda>_. kept w0 p k) (kept w0 p k)"

named_theorems keeping

lemma keeps_bind [keeping]: "keeps w0 p k m \<Longrightarrow> (\<And>a. keeps w0 p k (h a)) \<Longrightarrow> keeps w0 p k (bindP m h)"
  unfolding keeps_def by (rule hoare_bind)

lemma keeps_then [keeping]: "keeps w0 p k m \<Longrightarrow> keeps w0 p k h \<Longrightarrow> keeps w0 p k (thenP m h)"
  unfolding keeps_def by (rule hoare_then)

lemma keeps_try [keeping]: "keeps w0 p k m \<Longrightarrow> keeps w0 p k (tryP m)"
  unfolding keeps_def by (rule hoare_try) (auto elim: hoare_conseq)

lemma keeps_wrap [keeping]: "keeps w0 p k m \<Longrightarrow> keeps w0 p k (wrapP f m)"
  unfolding keeps_def by (rule hoare_wrap)

lemma keeps_return [keeping]: "keeps w0 p k (returnP a)"
  unfolding keeps_def by (rule hoare_return)

lemma keeps_raise [keeping]: "keeps w0 p k (raiseP e)"
  unfolding keeps_def by (rule hoare_raise)

lemma keeps_gets [keeping]: "keeps w0 p k (getsP f)" "keeps w0 p k (dsP g)" "keeps w0 p k nowP"
  unfolding keeps_def dsP_def nowP_def by (rule hoare_gets, assumption)+

lemma keeps_text [keeping]: "keeps w0 p k (textP t)"
  unfolding textP_def by (rule keeps_return)

lemma keeps_if [keeping]: "keeps w0 p k m \<Longrightarrow> keeps w0 p k n \<Longrightarrow> keeps w0 p k (if b then m else n)"
  by simp

lemma keeps_mapP [keeping]:
  assumes "\<And>x. keeps w0 p k (f x)"
  shows "keeps w0 p k (mapP f xs)"
  by (induction xs) (auto intro!: keeping assms)

lemma keeps_plan:
  assumes "\<And>w1 s. plan w1 p s m (t w1 s)"
  shows "keeps w0 p k m"
  unfolding keeps_def
proof (rule hoare_state)
  fix w1 assume kp: "kept w0 p k w1"
  then have f: "frame w1 p (sent w1 p) w1" by (simp add: kept_def frame_def same_def)
  have end_ok: "kept w0 p k v" if "frame w1 p (sent w1 p @ u) v" for u v
    using that kp by (auto simp: kept_def frame_def same_def)
  show "hoare (\<lambda>w. w = w1) m (\<lambda>_. kept w0 p k) (\<lambda>_. kept w0 p k) (kept w0 p k)"
    by (rule hoare_conseq [OF assms [of w1 "sent w1 p", unfolded plan_def]])
       (use f end_ok in \<open>auto simp: progress_def\<close>)
qed

lemma keeps_request [keeping]: "keeps w0 p k (request p cmd)"
  by (rule keeps_plan) (rule plan_request)

lemma keeps_await [keeping]:
  "keeps w0 p k (awaitResponseValidate ctx p seq pre)" "keeps w0 p k (awaitResponseTyped T sel ctx p seq)"
  "keeps w0 p k (awaitStopOrTerminate ctx p since)"
  by (rule keeps_plan, rule plan_validate plan_typed plan_stop_or_term)+

lemma keeps_requests [keeping]:
  "keeps w0 p k (ThreadsRequest p)" "keeps w0 p k (StackTraceRequest p t i n)" "keeps w0 p k (ScopesRequest p i)"
  "keeps w0 p k (VariablesRequest p r)" "keeps w0 p k (NextRequest p t)" "keeps w0 p k (StepInRequest p t)"
  "keeps w0 p k (StepOutRequest p t)" "keeps w0 p k (ContinueRequest p t)" "keeps w0 p k (LoadedSourcesRequest p)"
  "keeps w0 p k (ModulesRequest p)" "keeps w0 p k (SetFunctionBreakpointsRequest p fs)" "keeps w0 p k (SetBreakpointsRequest p f ls)"
  unfolding ThreadsRequest_def StackTraceRequest_def ScopesRequest_def VariablesRequest_def NextRequest_def
    StepInRequest_def StepOutRequest_def ContinueRequest_def LoadedSourcesRequest_def ModulesRequest_def
    SetFunctionBreakpointsRequest_def SetBreakpointsRequest_def
  by (rule keeps_request)+

lemma keeps_modify:
  assumes "\<And>w. moved (w_ds w) (f w)" "\<And>w. ds_client (f w) = ds_client (w_ds w)"
  shows "keeps w0 p k (modifyP (\<lambda>w. upd_ds (\<lambda>_. f w) w))"
  unfolding keeps_def
proof (rule hoare_modify)
  fix w assume kp: "kept w0 p k w"
  then have "moved (w_ds w0) (f w)" using assms(1) [of w] by (auto simp: kept_def elim: moved_trans)
  then show "kept w0 p k (upd_ds (\<lambda>_. f w) w)"
    using kp assms(2) [of w] by (auto simp: kept_def world_ok_def nsubs_def)
qed

lemma keeps_stamp [keeping]: "keeps w0 p k stampP"
  unfolding stampP_def using keeps_modify [of "\<lambda>w. (w_ds w)\<lparr>ds_lastStopAt := w_now w\<rparr>"]
  by (simp add: moved_def upd_ds_def)

lemma keeps_setP:
  assumes "\<And>ds. moved ds (f ds)" "\<And>ds. ds_client (f ds) = ds_client ds"
  shows "keeps w0 p k (setP f)"
  using keeps_modify [of "\<lambda>w. f (w_ds w)"] assms by (simp add: setP_def upd_ds_def [abs_def])

lemma keeps_set [keeping]:
  "keeps w0 p k (setP (\<lambda>ds. ds\<lparr>ds_stoppedThreadID := i\<rparr>))" "keeps w0 p k (setP (\<lambda>ds. ds\<lparr>ds_lastFrameID := i\<rparr>))"
  "keeps w0 p k (setP (\<lambda>ds. if ds_stoppedThreadID ds = 0 then ds\<lparr>ds_stoppedThreadID := 1\<rparr> else ds))"
  by (rule keeps_setP; simp add: moved_def)+

lemma keeps_withClient [keeping]:
  assumes "keeps w0 p k (h p)" shows "keeps w0 p k (withClient h)"
  using assms by (auto simp: keeps_def hoare_def withClient_def dsP_def bindP_def getsP_def kept_def)

lemma keeps_getThreadList [keeping]: "keeps w0 p k getThreadList"
proof -
  have "keeps w0 p k (tryP (bindP (ThreadsRequest p) (\<lambda>seq.
      awaitResponseTyped ''*dap.ThreadsResponse'' threads_body base_ctx p seq)))"
    by (intro keeping)
  then have "keeps w0 p k (case c of None \<Rightarrow> returnP [] | Some q \<Rightarrow> bindP (tryP (bindP (ThreadsRequest q) (\<lambda>seq.
      awaitResponseTyped ''*dap.ThreadsResponse'' threads_body base_ctx q seq))) (\<lambda>r.
        returnP (case r of Inl e \<Rightarrow> [] | Inr ts \<Rightarrow> thread_lines ts)))" if "c = Some p" for c
    using that by (simp add: keeps_bind keeps_return)
  then show ?thesis
    by (auto simp: getThreadList_def keeps_def hoare_def dsP_def bindP_def getsP_def kept_def)
qed

lemma keeps_scope [keeping]: "keeps w0 p k (scope_text p scope)"
  unfolding scope_text_def Let_def by (intro keeping)

lemma keeps_getFullContext [keeping]: "keeps w0 p k (getFullContext t f n)"
  unfolding getFullContext_def writeScopesAndVariables_def
  by (intro keeping) (auto split: sum.split intro!: keeping)

lemma keeps_step_request [keeping]: "keeps w0 p k (step_request p mode t)"
  unfolding step_request_def by (intro keeping)

lemma keeps_step [keeping]:
  "keeps w0 p k (case r of Inl e \<Rightarrow> if errors_Is e DeadlineExceeded then raiseP (step_timed_out n) else raiseP e
       | Inr GotTerminated \<Rightarrow> thenP stampP (textP ''Program terminated'')
       | Inr (GotStopped reason stopTid) \<Rightarrow>
           thenP (setP (\<lambda>ds. ds\<lparr>ds_stoppedThreadID := stopTid\<rparr>)) (
           thenP stampP (getFullContext stopTid 0 20)))"
  by (auto split: sum.split stop_or_term.split intro!: keeping)

lemma keeps_info [keeping]: "keeps w0 p k (info_threads p)" "keeps w0 p k (info_sources p caps)" "keeps w0 p k (info_modules p caps)"
  unfolding info_threads_def info_sources_def info_modules_def by (intro keeping; simp)+

lemma keeps_cursor [keeping]: "keeps w0 p k (set_cursor p t)"
  unfolding set_cursor_def Let_def by (intro keeping)

lemma kept_admissible: "admissible (kept w0 p k) p"
  unfolding admissible_def
proof (intro conjI allI impI)
  show "stable (kept w0 p k)"
    unfolding stable_def
  proof (intro conjI allI impI)
    fix a w assume k: "kept w0 p k w"
    then show "kept w0 p k (env_do a w)"
      using env_do_nsubs [of w p a] by (simp add: kept_def env_do_ok env_do_static env_do_locked)
  qed (auto simp: kept_def world_ok_def sent_def cl_def nsubs_def)
  show "silent (kept w0 p k) p"
    unfolding silent_def
  proof (intro allI impI)
    fix w f assume k: "kept w0 p k w" and f: "sys_step (cl w p) (f (cl w p))" "c_wire (f (cl w p)) = c_wire (cl w p)"
    have "world_ok (upd_cl p f w)" by (rule upd_cl_ok) (use k f in \<open>auto simp: kept_def intro: reach_step\<close>)
    moreover have "nsubs w p \<le> nsubs (upd_cl p f w) p" using sys_step_nsubs [OF f(1)] by (simp add: nsubs_def cl_upd_cl)
    moreover have "sent (upd_cl p f w) p = sent w p" using f(2) by (simp add: sent_upd_cl) (simp add: sent_def)
    ultimately show "kept w0 p k (upd_cl p f w)" using k by (simp add: kept_def)
  qed
qed (simp add: kept_def live_def)

text \<open>With subscriptions in hand, \<open>keeps\<close> is used at the number of subscriptions they need.\<close>

lemma hold_kept: "hold (kept w0 p k) p is = kept w0 p (Max (insert k (Suc ` set is)))"
  by (rule ext) (auto simp: hold_def kept_def nsubs_def Suc_le_eq)

lemma keeps_hold:
  assumes "\<And>k. keeps w0 p k m"
  shows "hoare (hold (kept w0 p k) p is) m (\<lambda>_. hold (kept w0 p k) p is) (\<lambda>_. hold (kept w0 p k) p is)
    (hold (kept w0 p k) p is)"
  using assms [unfolded keeps_def] by (simp add: hold_kept)

lemma hoare_loop:
  assumes "\<And>s. hoare I (body s) (\<lambda>_. I) E R" "\<And>w. I w \<Longrightarrow> R w"
  shows "hoare I (loopP body s) (\<lambda>_. I) E R"
proof -
  have "hoare I (loop_fuel n body s) (\<lambda>_. I) E R" for n
  proof (induction n arbitrary: s)
    case 0
    then show ?case using assms(2) by (simp add: hoare_def)
  next
    case (Suc n)
    show ?case
      unfolding loop_fuel.simps
      by (rule hoare_bind [OF assms(1)]) (auto split: sum.split intro: Suc hoare_return)
  qed
  note fuel = this
  show ?thesis
    unfolding hoare_def loopP_def by (intro allI impI) (rule fuel [unfolded hoare_def, rule_format])
qed

lemma startup_block:
  assumes adm: "admissible I p" and "s \<in> set is" "t \<in> set is" "l \<in> set is"
  shows "hoare (hold I p is) (blockP (startup_ready p s t l)) (\<lambda>_. hold I p is) (\<lambda>_. hold I p is) (hold I p is)"
proof -
  note I = admissibleD [OF adm]
  have ready: "hold I p is w' \<and> (case res of Ok a \<Rightarrow> True | Er e \<Rightarrow> True | _ \<Rightarrow> False)"
    if "hold I p is w" "startup_ready p s t l pick w = Some (res, w')" for w pick res w'
    using select_in [OF that(2) [unfolded startup_ready_def]] that(1)
      event_case_ok [OF I(2,3) that(1) assms(2)] event_case_ok [OF I(2,3) that(1) assms(3)] event_case_ok [OF I(2,3) that(1) assms(4)]
    by (fastforce dest!: ctx_case_ok split: res.split option.splits dap_event.splits if_splits)
  show ?thesis
    by (rule hoare_conseq [OF blockP_hold [OF adm, where Q = "\<lambda>_. True"]]) (auto dest: ready)
qed

lemma keeps_wait_turn:
  assumes "s \<in> set is" "t \<in> set is" "l \<in> set is"
  shows "hoare (hold (kept w0 p k) p is) (wait_turn p s t l) (\<lambda>_. hold (kept w0 p k) p is)
    (\<lambda>_. hold (kept w0 p k) p is) (hold (kept w0 p k) p is)"
  unfolding wait_turn_def
  by (rule hoare_bind [OF startup_block [OF kept_admissible assms]]) (auto split: startup.split intro!: keeps_hold keeping)

lemma keeps_subscribed:
  assumes "\<And>i. hoare (hold (kept w0 p k) p (i # is)) (body i) (\<lambda>_. hold (kept w0 p k) p (i # is))
      (\<lambda>_. hold (kept w0 p k) p (i # is)) (hold (kept w0 p k) p (i # is))"
  shows "hoare (hold (kept w0 p k) p is) (bindP (SubscribeP p t since) (\<lambda>i. deferP (body i) (cancelP p i)))
    (\<lambda>_. hold (kept w0 p k) p is) (\<lambda>_. hold (kept w0 p k) p is) (hold (kept w0 p k) p is)"
proof -
  have "hoare (hold (kept w0 p k) p is) (bindP (SubscribeP p t since) (\<lambda>i. deferP (body i) (cancelP p i)))
    (\<lambda>_ w. hold (kept w0 p k) p is w \<and> True) (\<lambda>_. hold (kept w0 p k) p is) (hold (kept w0 p k) p is)"
    by (rule subscribed_ok [OF kept_admissible]) (simp add: assms)
  then show ?thesis by simp
qed

lemma keeps_wait_first_stop [keeping]: "keeps w0 p k (wait_first_stop p since)"
proof -
  have body: "hoare (hold (kept w0 p k) p [l, t, s]) (bindP (loopP (\<lambda>_. wait_turn p s t l) ()) (\<lambda>tid.
       getFullContext (if tid = 0 then 1 else tid) 0 20)) (\<lambda>_. hold (kept w0 p k) p [l, t, s])
       (\<lambda>_. hold (kept w0 p k) p [l, t, s]) (hold (kept w0 p k) p [l, t, s])" for l t s
    by (rule hoare_bind [OF hoare_loop [OF keeps_wait_turn]]) (auto intro!: keeps_hold keeping)
  have "hoare (hold (kept w0 p k) p []) (wait_first_stop p since) (\<lambda>_. hold (kept w0 p k) p [])
      (\<lambda>_. hold (kept w0 p k) p []) (hold (kept w0 p k) p [])"
    unfolding wait_first_stop_def by (rule keeps_subscribed)+ (rule body)
  then show ?thesis by (simp add: keeps_def)
qed

lemma keeps_core_context [keeping]: "keeps w0 p k (core_context p since)"
  unfolding core_context_def by (intro keeping) (auto split: stop_or_term.split intro!: keeping)

lemma keeps_first_result [keeping]: "keeps w0 p k (first_result p mode dp since)"
  unfolding first_result_def by (intro keeping)


lemma kept_enter:
  assumes "world_ok w" "ds_client (w_ds w) = Some p"
  shows "kept w p 0 (w\<lparr>w_locked := True\<rparr>)"
  using assms by (auto simp: kept_def world_ok_def sent_def cl_def)

text \<open>What is retained across a handler.\<close>

definition retained :: "world \<Rightarrow> nat \<Rightarrow> world \<Rightarrow> bool" where
  "retained w p w' \<longleftrightarrow> world_ok w' \<and> moved (w_ds w) (w_ds w') \<and> prefix (sent w p) (sent w' p)
     \<and> w_server w' = w_server w \<and> w_procs w' = w_procs w"

lemma kept_leave: "kept w p 0 v \<Longrightarrow> retained w p v \<and> retained w p (v\<lparr>w_locked := False\<rparr>)"
  by (auto simp: kept_def retained_def world_ok_def sent_def cl_def)

lemma keeps_handler:
  assumes "world_ok w" "ds_client (w_ds w) = Some p" "keeps w p 0 m" "withLock m w = (res, w')"
  shows "retained w p w' \<and> res \<noteq> Panic"
proof -
  obtain r v where m: "m (w\<lparr>w_locked := True\<rparr>) = (r, v)" by force
  have "kept w p 0 v \<and> r \<noteq> Panic"
    using assms(3) kept_enter [OF assms(1,2)] m unfolding keeps_def hoare_def by (cases r) fastforce+
  then show ?thesis using assms(4) m kept_leave [of w p v] by (cases r) (auto simp: withLock_eq)
qed

end
