(* ===== verification/BreakpointProperties.thy ===== *)
theory BreakpointProperties
  imports Plans "HOL-Library.Multiset"
begin

text \<open>
  Breakpoints: what the tools send, that session and adapter keep agreeing on what is set, and that
  \<open>reinitialize\<close> gives a new connection exactly the breakpoints the session has recorded.
\<close>

subsection \<open>Breakpoints\<close>

lemma effect_text_set:
  assumes "\<And>d. ds_client (f d) = ds_client d"
  shows "effect w0 p s (thenP (setP f) (textP t)) [] f"
  unfolding textP_def by (rule effect_set [OF assms])

lemma effect_cong: "effect w0 p s m t f \<Longrightarrow> f (w_ds w0) = g (w_ds w0) \<Longrightarrow> effect w0 p s m t g"
  by (simp add: effect_def upd_ds_def)

lemma line_breakpoint_effect:
  assumes "line \<notin> set (lines_of (w_ds w0) file)"
  shows "effect w0 p s (line_breakpoint p file line) [SetBreakpoints file (lines_of (w_ds w0) file @ [line])]
    (\<lambda>ds. ds\<lparr>ds_breakpoints := AList.update file (lines_of ds file @ [line]) (ds_breakpoints ds)\<rparr>)"
proof -
  let ?old = "lines_of (w_ds w0) file"
  let ?set = "\<lambda>ds. ds\<lparr>ds_breakpoints := AList.update file (?old @ [line]) (ds_breakpoints ds)\<rparr>"
  have "effect w0 p s (line_breakpoint p file line) ([SetBreakpoints file (?old @ [line])] @ [] @ []) ?set"
    unfolding line_breakpoint_def SetBreakpointsRequest_def
    by (rule effect_ds, subst if_not_P [OF assms], rule effect_bind [OF plan_request],
        rule effect_bind [OF plan_wrap [OF plan_typed]])
       (auto intro!: effect_if effect_raise effect_text_set)
  then show ?thesis by (auto intro: effect_cong)
qed


lemma function_breakpoint_effect:
  "effect w0 p s (function_breakpoint p function)
      [SetFunctionBreakpoints (add_function (ds_functionBreakpoints (w_ds w0)) function)]
     (\<lambda>ds. ds\<lparr>ds_functionBreakpoints := add_function (ds_functionBreakpoints ds) function\<rparr>)"
proof -
  let ?new = "add_function (ds_functionBreakpoints (w_ds w0)) function"
  have "effect w0 p s (function_breakpoint p function) ([SetFunctionBreakpoints ?new] @ [] @ [])
      (\<lambda>ds. ds\<lparr>ds_functionBreakpoints := ?new\<rparr>)"
    unfolding function_breakpoint_def SetFunctionBreakpointsRequest_def
    by (rule effect_ds, rule effect_bind [OF plan_request], rule effect_then [OF plan_validate],
        rule effect_text_set) simp
  then show ?thesis by (auto intro: effect_cong)
qed

text \<open>Function breakpoints accumulate in the same way, without duplicates.\<close>

theorem breakpoint_sends_all_functions:
  assumes "world_ok w" and "ds_client (w_ds w) = Some p" and "function \<noteq> []"
    and "breakpoint file line function w = (res, w')"
  shows "did w p [SetFunctionBreakpoints (add_function (ds_functionBreakpoints (w_ds w)) function)]
    (\<lambda>ds. ds\<lparr>ds_functionBreakpoints := add_function (ds_functionBreakpoints ds) function\<rparr>) res w'"
proof (rule handler_did [OF assms(1,2)])
  show "withLock (withClient (\<lambda>p. function_breakpoint p function)) w = (res, w')"
    using assms(3,4) by (simp add: breakpoint_def)
  show "effect w0 p s (function_breakpoint p function)
      [SetFunctionBreakpoints (add_function (ds_functionBreakpoints (w_ds w)) function)]
     (\<lambda>ds. ds\<lparr>ds_functionBreakpoints := add_function (ds_functionBreakpoints ds) function\<rparr>)"
    if "w_ds w0 = w_ds w" for w0 s
    using function_breakpoint_effect [of w0 p s "function"] that by simp
qed

lemma clear_file_plan: "plan w0 p s (clear_file p file) [SetBreakpoints file []]"
  unfolding clear_file_def SetBreakpointsRequest_def
  using plan_bind [OF plan_request plan_validate, of w0 p s] by simp

text \<open>Clearing everything sends an empty list for every file that has breakpoints, and then for the
  functions; the session forgets them only when all of that was accepted.\<close>

lemma clear_all_did:
  assumes "world_ok w" and "ds_client (w_ds w) = Some p" and "clearBreakpoints file True w = (res, w')"
  shows "did w p (map (\<lambda>x. SetBreakpoints (fst x) []) (map_order w (ds_breakpoints (w_ds w)))
      @ [SetFunctionBreakpoints []])
    (\<lambda>ds. ds\<lparr>ds_breakpoints := [], ds_functionBreakpoints := []\<rparr>) res w'"
proof (rule handler_did [OF assms(1,2)])
  let ?body = "\<lambda>p. bindP (getsP (\<lambda>w. map fst (map_order w (ds_breakpoints (w_ds w))))) (\<lambda>files.
       thenP (forP files (clear_file p)) (
       bindP (SetFunctionBreakpointsRequest p []) (\<lambda>seq.
       thenP (awaitResponseValidate base_ctx p seq clear_failed) (
       thenP (setP (\<lambda>ds. ds\<lparr>ds_breakpoints := [], ds_functionBreakpoints := []\<rparr>)) (
       textP ''Cleared all breakpoints'')))))"
  show "withLock (withClient ?body) w = (res, w')"
    using assms(3) by (simp add: clearBreakpoints_def)
  fix w0 :: world and s assume w0: "w_ds w0 = w_ds w" "w_rank w0 = w_rank w"
  let ?files = "map fst (map_order w (ds_breakpoints (w_ds w)))"
  have rest: "effect w0 p s' (thenP (forP ?files (clear_file p)) (
       bindP (SetFunctionBreakpointsRequest p []) (\<lambda>seq.
       thenP (awaitResponseValidate base_ctx p seq clear_failed) (
       thenP (setP (\<lambda>ds. ds\<lparr>ds_breakpoints := [], ds_functionBreakpoints := []\<rparr>)) (
       textP ''Cleared all breakpoints'')))))
      (concat (map (\<lambda>f. [SetBreakpoints f []]) ?files) @ [SetFunctionBreakpoints []] @ [] @ [])
      (\<lambda>ds. ds\<lparr>ds_breakpoints := [], ds_functionBreakpoints := []\<rparr>)" for s'
    unfolding SetFunctionBreakpointsRequest_def
    by (rule effect_then [OF plan_for [OF clear_file_plan]], rule effect_bind [OF plan_request],
        rule effect_then [OF plan_validate], rule effect_text_set) simp
  have gets: "frame w0 p s v \<Longrightarrow> map fst (map_order v (ds_breakpoints (w_ds v))) = ?files" for v
    using w0 by (simp add: frame_def same_def map_order_def)
  have "effect w0 p s (?body p) (concat (map (\<lambda>f. [SetBreakpoints f []]) ?files) @ [SetFunctionBreakpoints []] @ [] @ [])
      (\<lambda>ds. ds\<lparr>ds_breakpoints := [], ds_functionBreakpoints := []\<rparr>)"
    using rest [of s] gets unfolding effect_def hoare_def bindP_def getsP_def by simp
  moreover have "concat (map (\<lambda>f. [SetBreakpoints f []]) ?files) = map (\<lambda>x. SetBreakpoints (fst x) []) (map_order w (ds_breakpoints (w_ds w)))"
    by (simp add: concat_map_singleton comp_def)
  ultimately show "effect w0 p s (?body p) (map (\<lambda>x. SetBreakpoints (fst x) []) (map_order w (ds_breakpoints (w_ds w)))
      @ [SetFunctionBreakpoints []]) (\<lambda>ds. ds\<lparr>ds_breakpoints := [], ds_functionBreakpoints := []\<rparr>)"
    by simp
qed


subsection \<open>The adapter's view\<close>

text \<open>What a DAP server has after a sequence of requests: \<open>setBreakpoints\<close> replaces the lines of its file,
  \<open>setFunctionBreakpoints\<close> all functions, and a new connection starts with none.\<close>

record adapter =
  ad_lines :: "string \<Rightarrow> int list"
  ad_functions :: "string list"

definition fresh_adapter :: adapter where
  "fresh_adapter = \<lparr>ad_lines = (\<lambda>_. []), ad_functions = []\<rparr>"

fun adapter_step :: "command \<Rightarrow> adapter \<Rightarrow> adapter" where
  "adapter_step (SetBreakpoints f ls) ad = ad\<lparr>ad_lines := (ad_lines ad)(f := ls)\<rparr>"
| "adapter_step (SetFunctionBreakpoints fs) ad = ad\<lparr>ad_functions := fs\<rparr>"
| "adapter_step _ ad = ad"

definition adapter_after :: "command list \<Rightarrow> adapter \<Rightarrow> adapter" where
  "adapter_after cmds ad = fold adapter_step cmds ad"

lemma adapter_after_simps [simp]:
  "adapter_after [] ad = ad" "adapter_after (c # cs) ad = adapter_after cs (adapter_step c ad)"
  "adapter_after (cs @ ds) ad = adapter_after ds (adapter_after cs ad)"
  by (simp_all add: adapter_after_def)

text \<open>The session and the adapter agree.\<close>

definition agree :: "session \<Rightarrow> adapter \<Rightarrow> bool" where
  "agree ds ad \<longleftrightarrow> ad_lines ad = lines_of ds \<and> ad_functions ad = ds_functionBreakpoints ds"

text \<open>The breakpoint fields of a session are well-formed: a map, no line or function twice.\<close>

definition bp_ok :: "session \<Rightarrow> bool" where
  "bp_ok ds \<longleftrightarrow> distinct (map fst (ds_breakpoints ds)) \<and> (\<forall>x \<in> set (ds_breakpoints ds). distinct (snd x))
     \<and> distinct (ds_functionBreakpoints ds)"

lemma lines_of_update:
  "lines_of (ds\<lparr>ds_breakpoints := AList.update f ls (ds_breakpoints ds)\<rparr>) = (lines_of ds)(f := ls)"
  by (rule ext) (simp add: lines_of_def update_conv)

lemma lines_of_delete:
  "lines_of (ds\<lparr>ds_breakpoints := AList.delete f (ds_breakpoints ds)\<rparr>) = (lines_of ds)(f := [])"
  by (rule ext) (simp add: lines_of_def delete_conv)

lemma didD:
  assumes "did w p t f res w'"
  shows "world_ok w'" "res \<noteq> Panic" "res = Ok a \<Longrightarrow> w_ds w' = f (w_ds w) \<and> sent w' p = sent w p @ t"
  using assms by (auto simp: did_def split: res.splits)

lemma breakpoint_known:
  assumes "ds_client (w_ds w) = Some p" "file \<noteq> []" "line \<noteq> 0" "line \<in> set (lines_of (w_ds w) file)"
  shows "breakpoint file line [] w
    = (Ok (Some (''Breakpoint already set at '' @ file @ '':'' @ itoa line)), w\<lparr>w_locked := False\<rparr>)"
  using assms
  by (simp add: breakpoint_def withLock_eq withClient_def line_breakpoint_def dsP_def bindP_def getsP_def
      textP_def returnP_def)

text \<open>The breakpoint tool, in all its branches, as one effect on session and wire.\<close>

definition breakpoint_cmds :: "session \<Rightarrow> string \<Rightarrow> int \<Rightarrow> string \<Rightarrow> command list" where
  "breakpoint_cmds ds file line function =
     (if function \<noteq> [] then [SetFunctionBreakpoints (add_function (ds_functionBreakpoints ds) function)]
      else if file = [] \<or> line = 0 \<or> line \<in> set (lines_of ds file) then []
      else [SetBreakpoints file (lines_of ds file @ [line])])"

definition breakpoint_session :: "string \<Rightarrow> int \<Rightarrow> string \<Rightarrow> session \<Rightarrow> session" where
  "breakpoint_session file line function ds =
     (if function \<noteq> [] then ds\<lparr>ds_functionBreakpoints := add_function (ds_functionBreakpoints ds) function\<rparr>
      else if file = [] \<or> line = 0 \<or> line \<in> set (lines_of ds file) then ds
      else ds\<lparr>ds_breakpoints := AList.update file (lines_of ds file @ [line]) (ds_breakpoints ds)\<rparr>)"

lemma breakpoint_did:
  assumes "world_ok w" "ds_client (w_ds w) = Some p" "breakpoint file line function w = (res, w')"
  shows "did w p (breakpoint_cmds (w_ds w) file line function) (breakpoint_session file line function) res w'"
proof (rule handler_did [OF assms(1,2)])
  show "withLock (withClient (\<lambda>p. if function \<noteq> [] then function_breakpoint p function
     else if file = [] \<or> line = 0 then raiseP (ErrNew ''either function or file+line is required'')
     else line_breakpoint p file line)) w = (res, w')"
    using assms(3) by (simp add: breakpoint_def)
  fix w0 :: world and s assume w0: "w_ds w0 = w_ds w"
  let ?ds = "w_ds w0"
  have known: "effect w0 p s (line_breakpoint p file line) [] (\<lambda>ds. ds)" if "line \<in> set (lines_of ?ds file)"
    unfolding line_breakpoint_def
    by (rule effect_ds, subst if_P [OF that]) (simp add: textP_def effect_plan plan_return)
  have "effect w0 p s (if function \<noteq> [] then function_breakpoint p function
     else if file = [] \<or> line = 0 then raiseP (ErrNew ''either function or file+line is required'')
     else line_breakpoint p file line) (breakpoint_cmds ?ds file line function)
     (breakpoint_session file line function)"
    by (rule effect_if)
       (auto simp: breakpoint_cmds_def intro!: effect_raise
         intro: effect_cong [OF function_breakpoint_effect] effect_cong [OF line_breakpoint_effect] effect_cong [OF known]
         simp: breakpoint_session_def)
  then show "effect w0 p s (if function \<noteq> [] then function_breakpoint p function
     else if file = [] \<or> line = 0 then raiseP (ErrNew ''either function or file+line is required'')
     else line_breakpoint p file line) (breakpoint_cmds (w_ds w) file line function)
     (breakpoint_session file line function)"
    by (simp add: w0)
qed

lemma lines_of_functions [simp]: "lines_of (ds\<lparr>ds_functionBreakpoints := fs\<rparr>) = lines_of ds"
  by (rule ext) (simp add: lines_of_def)

lemma agree_breakpoint:
  assumes "agree ds ad"
  shows "agree (breakpoint_session file line function ds) (adapter_after (breakpoint_cmds ds file line function) ad)"
  using assms by (simp add: agree_def breakpoint_cmds_def breakpoint_session_def lines_of_update)

lemma set_alist_update: "set (AList.update k v xs) \<subseteq> insert (k, v) (set xs)"
  by (induction xs) auto

lemma bp_ok_breakpoint:
  assumes "bp_ok ds" shows "bp_ok (breakpoint_session file line function ds)"
proof -
  have "distinct (lines_of ds file)"
    using assms by (auto simp: bp_ok_def lines_of_def split: option.splits dest: map_of_SomeD)
  then have "distinct (snd x)" if "line \<notin> set (lines_of ds file)"
      "x \<in> set (AList.update file (lines_of ds file @ [line]) (ds_breakpoints ds))" for x
    using that subsetD [OF set_alist_update that(2)] assms by (auto simp: bp_ok_def)
  then show ?thesis
    using assms by (auto simp: breakpoint_session_def bp_ok_def distinct_update add_function_def)
qed

text \<open>Every successful breakpoint call, whichever kind, leaves session and adapter in agreement when they
  were before, and keeps the recorded breakpoints a duplicate-free map.\<close>

theorem breakpoint_keeps_agreement:
  assumes "world_ok w" and "ds_client (w_ds w) = Some p" and "agree (w_ds w) (adapter_after (sent w p) ad)"
    and "bp_ok (w_ds w)" and "breakpoint file line function w = (Ok a, w')"
  shows "agree (w_ds w') (adapter_after (sent w' p) ad) \<and> bp_ok (w_ds w')"
  using didD(3) [OF breakpoint_did [OF assms(1,2,5)] refl] agree_breakpoint [OF assms(3)]
    bp_ok_breakpoint [OF assms(4)]
  by simp

subsection \<open>Clearing\<close>

lemma clear_files_adapter:
  "adapter_after (map (\<lambda>x. SetBreakpoints (fst x) []) xs) ad
    = ad\<lparr>ad_lines := (\<lambda>f. if f \<in> fst ` set xs then [] else ad_lines ad f)\<rparr>"
proof (induction xs arbitrary: ad)
  case (Cons x xs)
  show ?case by (cases ad) (auto simp: Cons fun_eq_iff)
qed simp

text \<open>After a successful clear of everything neither the session nor the adapter has a breakpoint left.\<close>

theorem clear_all_leaves_none:
  assumes "world_ok w" and "ds_client (w_ds w) = Some p" and "agree (w_ds w) (adapter_after (sent w p) ad)"
    and "clearBreakpoints file True w = (Ok a, w')"
  shows "agree (w_ds w') (adapter_after (sent w' p) ad) \<and> ds_breakpoints (w_ds w') = []
    \<and> ds_functionBreakpoints (w_ds w') = [] \<and> ad_lines (adapter_after (sent w' p) ad) = (\<lambda>_. [])"
proof -
  note d = didD(3) [OF clear_all_did [OF assms(1,2,4)] refl]
  have "set (map_order w (ds_breakpoints (w_ds w))) = set (ds_breakpoints (w_ds w))" by (simp add: map_order_def)
  moreover have "lines_of (w_ds w) f = []" if "f \<notin> fst ` set (ds_breakpoints (w_ds w))" for f
  proof -
    have "map_of (ds_breakpoints (w_ds w)) f = None" using that by (simp add: map_of_eq_None_iff)
    then show ?thesis by (simp add: lines_of_def)
  qed
  ultimately have "ad_lines (adapter_after (sent w' p) ad) = (\<lambda>_. [])"
    using d assms(3) by (intro ext) (simp add: clear_files_adapter agree_def)
  moreover have "lines_of (w_ds w') = (\<lambda>_. [])" using d by (intro ext) (simp add: lines_of_def)
  ultimately show ?thesis using d by (simp add: agree_def)
qed

subsection \<open>reinitialize\<close>

definition reinit_cmds :: "world \<Rightarrow> backend \<Rightarrow> jargs \<Rightarrow> command list" where
  "reinit_cmds w b args = [Initialize (AdapterID b), Attach args]
     @ map (\<lambda>(f, ls). SetBreakpoints f ls) (map_order w (ds_breakpoints (w_ds w)))
     @ (if ds_functionBreakpoints (w_ds w) = [] then [] else [SetFunctionBreakpoints (ds_functionBreakpoints (w_ds w))])
     @ [ConfigurationDone]"

lemma reinit_file_plan: "plan w0 p s (reinit_file ctx p n k x) [case x of (f, ls) \<Rightarrow> SetBreakpoints f ls]"
proof -
  obtain f ls where x: "x = (f, ls)" by force
  have "plan w0 p s (reinit_file ctx p n k x) ([SetBreakpoints f ls] @ [])"
    unfolding reinit_file_def x Let_def SetBreakpointsRequestRaw_def prod.case
    by (rule plan_bind [OF plan_wrap [OF plan_requestRaw] plan_wrap [OF plan_validate]])
  then show ?thesis by (simp add: x)
qed

lemma reinit_files_plan:
  "plan w0 p s (reinit_files ctx p n k xs) (map (\<lambda>(f, ls). SetBreakpoints f ls) xs)"
proof (induction xs arbitrary: s k)
  case (Cons x xs)
  show ?case using plan_then [OF reinit_file_plan Cons] by (simp add: case_prod_beta)
qed (simp add: plan_return)

lemma reinit_functions_plan:
  "plan w0 p s (reinit_functions ctx p fs) (if fs = [] then [] else [SetFunctionBreakpoints fs])"
proof (cases "fs = []")
  case False
  have "plan w0 p s (reinit_functions ctx p fs) ([SetFunctionBreakpoints fs] @ [])"
    unfolding reinit_functions_def if_not_P [OF False] SetFunctionBreakpointsRequestRaw_def
    by (rule plan_bind [OF plan_wrap [OF plan_requestRaw] plan_wrap [OF plan_validate]])
  then show ?thesis using False by simp
qed (simp add: reinit_functions_def plan_return)

lemma hoare_gets_frame:
  assumes "\<And>v. frame w0 p s v \<Longrightarrow> g v = x" "hoare (frame w0 p s) (k x) Q E R"
  shows "hoare (frame w0 p s) (bindP (getsP g) k) Q E R"
  using assms by (auto simp: hoare_def getsP_def bindP_def)

lemma plan_gets_frame:
  assumes "\<And>v. frame w0 p s v \<Longrightarrow> g v = x" "plan w0 p s (k x) t"
  shows "plan w0 p s (bindP (getsP g) k) t"
  using assms unfolding plan_def by (rule hoare_gets_frame)

lemma reinit_configure_plan:
  "plan w0 p s (reinit_configure ctx p) (map (\<lambda>(f, ls). SetBreakpoints f ls) (map_order w0 (ds_breakpoints (w_ds w0)))
     @ (if ds_functionBreakpoints (w_ds w0) = [] then [] else [SetFunctionBreakpoints (ds_functionBreakpoints (w_ds w0))])
     @ [ConfigurationDone] @ [])"
  unfolding reinit_configure_def ConfigurationDoneRequestRaw_def
proof (rule plan_gets_frame)
  show "frame w0 p s v \<Longrightarrow> map_order v (ds_breakpoints (w_ds v)) = map_order w0 (ds_breakpoints (w_ds w0))" for v
    by (simp add: frame_def same_def map_order_def)
  show "plan w0 p s (thenP (reinit_files ctx p (length (map_order w0 (ds_breakpoints (w_ds w0)))) 0
        (map_order w0 (ds_breakpoints (w_ds w0)))) (bindP (dsP ds_functionBreakpoints) (\<lambda>fs.
      thenP (reinit_functions ctx p fs) (bindP (wrapP (ErrWrap ''reinitialize: ConfigurationDoneRequest: '')
        (requestRaw p ConfigurationDone)) (\<lambda>seq. wrapP (ErrWrap ''reinitialize: ConfigurationDone response: '')
          (awaitResponseValidate ctx p seq ''reinitialize ConfigurationDone''))))))
    (map (\<lambda>(f, ls). SetBreakpoints f ls) (map_order w0 (ds_breakpoints (w_ds w0)))
     @ (if ds_functionBreakpoints (w_ds w0) = [] then [] else [SetFunctionBreakpoints (ds_functionBreakpoints (w_ds w0))])
     @ [ConfigurationDone] @ [])"
    by (rule plan_then [OF reinit_files_plan], rule plan_ds, rule plan_then [OF reinit_functions_plan],
        rule plan_bind [OF plan_wrap [OF plan_requestRaw] plan_wrap [OF plan_validate]])
qed

lemma plan_response_failed: "plan w0 p s (response_failed text msg) []"
  unfolding response_failed_def by (cases msg) (auto intro: plan_raise plan_return)


lemma wrapP_return: "wrapP f (returnP a) = returnP a"
  by (rule ext) (simp add: wrapP_def returnP_def)

lemma reinit_attach_plan:
  assumes "AttachArgs b 0 = Inr args"
  shows "plan w0 p s (reinit_attach ctx p b) ([] @ [Attach args] @ [] @ [] @ [])"
  unfolding reinit_attach_def assms liftP_def sum.case nowP_def AttachRequestRaw_def wrapP_return bindP_return
  by (rule plan_bind [OF plan_gets], rule plan_bind [OF plan_wrap [OF plan_requestRaw]],
      rule plan_bind [OF plan_wrap [OF plan_await]], rule plan_then [OF plan_response_failed],
      rule plan_wrap [OF plan_initialized])

lemma reinit_initialize_plan:
  "plan w0 p s (wrapP (ErrWrap ''reinitialize: InitializeRequest failed: '')
      (InitializeRequestRaw ctx p (AdapterID b))) ([Initialize (AdapterID b)] @ [] @ [])"
  unfolding InitializeRequestRaw_def initialize_result_def
  by (rule plan_wrap, rule plan_bind [OF plan_requestRaw], rule plan_bind [OF plan_await])
     (auto intro: plan_raise plan_return split: dap_msg.split resp_body.split)

text \<open>A failed or unfinished re-initialisation may have replaced the capabilities, nothing else.\<close>

definition caps_only :: "session \<Rightarrow> session \<Rightarrow> bool" where
  "caps_only ds ds' \<longleftrightarrow> (\<exists>caps. ds' = ds\<lparr>ds_capabilities := caps\<rparr>)"

lemma caps_only_refl: "caps_only ds ds"
  unfolding caps_only_def by (rule exI [of _ "ds_capabilities ds"]) simp

definition reinit_did :: "world \<Rightarrow> nat \<Rightarrow> command list \<Rightarrow> 'a res \<Rightarrow> world \<Rightarrow> bool" where
  "reinit_did w p t res w' \<longleftrightarrow> world_ok w' \<and> (case res of
      Ok a \<Rightarrow> (\<exists>caps. w_ds w' = reinit_session caps (w_ds w)) \<and> sent w' p = sent w p @ t
    | Panic \<Rightarrow> False
    | _ \<Rightarrow> caps_only (w_ds w) (w_ds w') \<and> (\<exists>u. prefix u t \<and> sent w' p = sent w p @ u))"

definition reinit_reset :: "session \<Rightarrow> session" where
  "reinit_reset ds = ds\<lparr>ds_stoppedThreadID := 0, ds_lastFrameID := - 1, ds_lastStopAt := zero_time\<rparr>"

lemma effect_setP: "(\<And>d. ds_client (f d) = ds_client d) \<Longrightarrow> effect w0 p s (setP f) [] f"
  unfolding effect_def using set_frame [of f w0 p s] by simp

lemma reinit_tail:
  assumes "AttachArgs b 0 = Inr args"
  shows "effect w0 p s (thenP (reinit_attach ctx p b) (thenP (reinit_configure ctx p) (setP reinit_reset)))
    (([] @ [Attach args] @ [] @ [] @ [])
     @ (map (\<lambda>(f, ls). SetBreakpoints f ls) (map_order w0 (ds_breakpoints (w_ds w0)))
        @ (if ds_functionBreakpoints (w_ds w0) = [] then [] else [SetFunctionBreakpoints (ds_functionBreakpoints (w_ds w0))])
        @ [ConfigurationDone] @ []) @ []) reinit_reset"
  by (rule effect_then [OF reinit_attach_plan [OF assms]], rule effect_then [OF reinit_configure_plan],
      rule effect_setP) (simp add: reinit_reset_def)

lemma hoare_ex:
  assumes "\<And>x. hoare (P x) m Q E R" shows "hoare (\<lambda>w. \<exists>x. P x w) m Q E R"
proof -
  show ?thesis
    unfolding hoare_def
  proof (intro allI impI, elim exE)
    fix w x assume "P x w"
    with assms [of x] show "case m w of (Ok a, w') \<Rightarrow> Q a w' | (Er e, w') \<Rightarrow> E e w' | (Pending, w') \<Rightarrow> R w'
        | (Panic, w') \<Rightarrow> False"
      unfolding hoare_def by (elim allE impE) assumption
  qed
qed

lemma reinit_body:
  assumes args: "AttachArgs b 0 = Inr args" and same: "w_ds w0 = w_ds w" "w_rank w0 = w_rank w"
  shows "hoare (frame w0 p s) (thenP (reinit_initialize ctx p b) (thenP (reinit_attach ctx p b)
      (thenP (reinit_configure ctx p) (setP reinit_reset))))
    (\<lambda>_ v. \<exists>w1 caps. w_ds w1 = reinit_session caps (w_ds w) \<and> frame w1 p (s @ reinit_cmds w b args) v)
    (\<lambda>_ v. \<exists>w1. caps_only (w_ds w) (w_ds w1) \<and> progress w1 p s (reinit_cmds w b args) v)
    (\<lambda>v. \<exists>w1. caps_only (w_ds w) (w_ds w1) \<and> progress w1 p s (reinit_cmds w b args) v)"
proof -
  let ?E = "\<lambda>v. \<exists>w1. caps_only (w_ds w) (w_ds w1) \<and> progress w1 p s (reinit_cmds w b args) v"
  let ?I = "[Initialize (AdapterID b)]"
  have co: "caps_only (w_ds w) (w_ds w0)" by (simp add: same caps_only_refl)
  have first: "hoare (frame w0 p s) (wrapP (ErrWrap ''reinitialize: InitializeRequest failed: '')
      (InitializeRequestRaw ctx p (AdapterID b))) (\<lambda>_. frame w0 p (s @ ?I)) (\<lambda>_. ?E) ?E"
    by (rule hoare_conseq [OF reinit_initialize_plan [unfolded plan_def]])
       (use co in \<open>auto simp: reinit_cmds_def intro: progress_append [where t = ?I, simplified]\<close>)
  have tail: "hoare (frame (upd_ds (\<lambda>ds. ds\<lparr>ds_capabilities := caps\<rparr>) w0) p (s @ ?I))
      (thenP (reinit_attach ctx p b) (thenP (reinit_configure ctx p) (setP reinit_reset)))
      (\<lambda>_ v. \<exists>w1 caps. w_ds w1 = reinit_session caps (w_ds w) \<and> frame w1 p (s @ reinit_cmds w b args) v)
      (\<lambda>_. ?E) ?E" for caps
  proof -
    let ?w1 = "upd_ds (\<lambda>ds. ds\<lparr>ds_capabilities := caps\<rparr>) w0"
    define t2 where "t2 = (([] @ [Attach args] @ [] @ [] @ [])
     @ (map (\<lambda>(f, ls). SetBreakpoints f ls) (map_order ?w1 (ds_breakpoints (w_ds ?w1)))
        @ (if ds_functionBreakpoints (w_ds ?w1) = [] then [] else [SetFunctionBreakpoints (ds_functionBreakpoints (w_ds ?w1))])
        @ [ConfigurationDone] @ []) @ [])"
    have "map_order ?w1 (ds_breakpoints (w_ds ?w1)) = map_order w (ds_breakpoints (w_ds w))"
      by (simp add: same map_order_def)
    then have cmds: "reinit_cmds w b args = ?I @ t2" by (simp add: t2_def reinit_cmds_def same)
    have co1: "caps_only (w_ds w) (w_ds ?w1)" by (auto simp: caps_only_def same)
    have ds: "w_ds (upd_ds reinit_reset ?w1) = reinit_session caps (w_ds w)"
      by (simp add: same reinit_reset_def reinit_session_def)
    show ?thesis
      unfolding cmds
      by (rule hoare_conseq [OF reinit_tail [OF args, of ?w1, folded t2_def, unfolded effect_def]])
         (use co1 ds progress_later [of ?w1 p s ?I t2] in fastforce)+
  qed
  have init: "hoare (frame w0 p s) (reinit_initialize ctx p b)
      (\<lambda>_ v. \<exists>caps. frame (upd_ds (\<lambda>ds. ds\<lparr>ds_capabilities := caps\<rparr>) w0) p (s @ ?I) v) (\<lambda>_. ?E) ?E"
    unfolding reinit_initialize_def
  proof (rule hoare_bind [OF first])
    fix caps
    show "hoare (frame w0 p (s @ ?I)) (setP (\<lambda>ds. ds\<lparr>ds_capabilities := caps\<rparr>))
      (\<lambda>_ v. \<exists>caps. frame (upd_ds (\<lambda>ds. ds\<lparr>ds_capabilities := caps\<rparr>) w0) p (s @ ?I) v) (\<lambda>_. ?E) ?E"
      by (rule hoare_conseq [OF set_frame [where E = "\<lambda>_. ?E" and R = ?E]]) auto
  qed
  show ?thesis
  proof (rule hoare_then [OF init])
    show "hoare (\<lambda>v. \<exists>caps. frame (upd_ds (\<lambda>ds. ds\<lparr>ds_capabilities := caps\<rparr>) w0) p (s @ ?I) v)
      (thenP (reinit_attach ctx p b) (thenP (reinit_configure ctx p) (setP reinit_reset)))
      (\<lambda>_ v. \<exists>w1 caps. w_ds w1 = reinit_session caps (w_ds w) \<and> frame w1 p (s @ reinit_cmds w b args) v)
      (\<lambda>_. ?E) ?E"
      by (rule hoare_ex, rule tail)
  qed
qed


lemma reinit_inv:
  assumes "frame w0 p s v" "caps_only (w_ds w) (w_ds w0)"
  shows "caps_only (w_ds w) (w_ds (v\<lparr>w_locked := b\<rparr>))"
  using frame_obs [OF assms(1)] assms(2) by simp

lemma reinit_did:
  assumes "world_ok w" and client: "ds_client (w_ds w) = Some p" and backend: "ds_backend (w_ds w) = Some b"
    and args: "AttachArgs b 0 = Inr args" and run: "reinitialize ctx w = (res, w')"
  shows "reinit_did w p (reinit_cmds w b args) res w'"
proof -
  let ?w = "w\<lparr>w_locked := True\<rparr>"
  let ?body = "thenP (reinit_initialize ctx p b) (thenP (reinit_attach ctx p b)
      (thenP (reinit_configure ctx p) (setP reinit_reset)))"
  have run': "withLock ?body w = (res, w')"
    using run client backend unfolding reinitialize_def withLock_eq reinit_reset_def [abs_def]
    by (simp add: dsP_def bindP_def getsP_def)
  obtain r v where k: "?body ?w = (r, v)" by force
  have D: "hoare (frame ?w p (sent w p)) ?body
    (\<lambda>_ v. \<exists>w1 caps. w_ds w1 = reinit_session caps (w_ds w) \<and> frame w1 p (sent w p @ reinit_cmds w b args) v)
    (\<lambda>_ v. \<exists>w1. caps_only (w_ds w) (w_ds w1) \<and> progress w1 p (sent w p) (reinit_cmds w b args) v)
    (\<lambda>v. \<exists>w1. caps_only (w_ds w) (w_ds w1) \<and> progress w1 p (sent w p) (reinit_cmds w b args) v)"
    by (rule reinit_body [OF args]) simp_all
  note D = hoare_D [OF D frame_enter [OF assms(1) client]]
  have v: "v = v\<lparr>w_locked := w_locked v\<rparr>" by simp
  have fail: "world_ok (v\<lparr>w_locked := l\<rparr>) \<and> caps_only (w_ds w) (w_ds (v\<lparr>w_locked := l\<rparr>)) \<and>
      (\<exists>u. prefix u t \<and> sent (v\<lparr>w_locked := l\<rparr>) p = s @ u)"
    if "\<exists>w1. caps_only (w_ds w) (w_ds w1) \<and> progress w1 p s t v" for l s t
    using that by (auto dest: progress_obs [where b = l])
  show ?thesis
  proof (cases r)
    case (Ok a)
    then show ?thesis using D(1) k run' by (fastforce simp: withLock_eq reinit_did_def dest: frame_obs)
  next
    case (Er e)
    then show ?thesis
      using fail [OF D(2) [of e v], of False] k run' by (auto simp: withLock_eq reinit_did_def)
  next
    case Pending
    then show ?thesis
      using fail [OF D(3) [of v], of "w_locked v"] k run' v by (auto simp: withLock_eq reinit_did_def)
  next
    case Panic
    then show ?thesis using D(4) [of v] k by simp
  qed
qed


text \<open>A successful re-initialisation tells the new connection, in this order, who the client is, what to attach
  to, every recorded breakpoint and that the configuration is done; an adapter that started with no breakpoint then
  has exactly those of the session, which kept them and forgot only where the program had stopped.\<close>

lemma adapter_replay:
  assumes "distinct (map fst xs)"
  shows "adapter_after (map (\<lambda>(f, ls). SetBreakpoints f ls) xs) ad
    = ad\<lparr>ad_lines := (\<lambda>f. case map_of xs f of None \<Rightarrow> ad_lines ad f | Some ls \<Rightarrow> ls)\<rparr>"
  using assms
proof (induction xs arbitrary: ad)
  case (Cons x xs)
  obtain f ls where x: "x = (f, ls)" by force
  have "map_of xs f = None" using Cons.prems by (simp add: x map_of_eq_None_iff)
  then show ?case using Cons by (cases ad) (auto simp: x fun_eq_iff split: option.splits)
qed simp

lemma map_order_map:
  assumes "distinct (map fst xs)"
  shows "map_of (map_order w xs) = map_of xs" and "distinct (map fst (map_order w xs))"
proof -
  have m: "mset (map_order w xs) = mset xs" by (simp add: map_order_def)
  have "mset (map fst (map_order w xs)) = mset (map fst xs)" using m by simp
  then show d: "distinct (map fst (map_order w xs))" using assms by (metis mset_eq_imp_distinct_iff)
  have "set (map_order w xs) = set xs" using m by (metis set_mset_mset)
  then show "map_of (map_order w xs) = map_of xs" using d assms by (simp add: map_of_inject_set)
qed

lemma agree_reinit:
  assumes "bp_ok (w_ds w)"
  shows "agree (reinit_session caps (w_ds w)) (adapter_after (reinit_cmds w b args) fresh_adapter)"
proof -
  have d: "distinct (map fst (ds_breakpoints (w_ds w)))" using assms by (simp add: bp_ok_def)
  show ?thesis
    unfolding reinit_cmds_def adapter_after_simps adapter_replay [OF map_order_map(2) [OF d]] map_order_map(1) [OF d]
    by (auto simp: agree_def fresh_adapter_def reinit_session_def lines_of_def fun_eq_iff split: option.splits)
qed

text \<open>C5. A successful re-initialisation sends the handshake and every recorded breakpoint, so that a fresh adapter
  then has exactly what the session has recorded; of the session only the thread and frame state is reset.\<close>

theorem reinitialize_restores_breakpoints:
  assumes "world_ok w" and "ds_client (w_ds w) = Some p" and "ds_backend (w_ds w) = Some b" and "bp_ok (w_ds w)"
    and "AttachArgs b 0 = Inr args" and "reinitialize ctx w = (Ok u, w')"
  shows "sent w' p = sent w p @ reinit_cmds w b args
    \<and> agree (w_ds w') (adapter_after (reinit_cmds w b args) fresh_adapter)
    \<and> (\<exists>caps. w_ds w' = reinit_session caps (w_ds w))"
proof -
  from reinit_did [OF assms(1,2,3,5,6)] obtain caps
    where c: "w_ds w' = reinit_session caps (w_ds w)" "sent w' p = sent w p @ reinit_cmds w b args"
    by (auto simp: reinit_did_def)
  then show ?thesis using agree_reinit [OF assms(4), of caps b args] by auto
qed

text \<open>C15. A re-initialisation that fails, or is still waiting, has sent only a part of these commands, in order, and has
  not lost a recorded breakpoint: at most the capabilities of the session are new.\<close>

theorem reinitialize_failure_keeps_breakpoints:
  assumes "world_ok w" and "ds_client (w_ds w) = Some p" and "ds_backend (w_ds w) = Some b"
    and "AttachArgs b 0 = Inr args" and "reinitialize ctx w = (res, w')" and "\<forall>u. res \<noteq> Ok u"
  shows "res \<noteq> Panic \<and> ds_breakpoints (w_ds w') = ds_breakpoints (w_ds w)
    \<and> ds_functionBreakpoints (w_ds w') = ds_functionBreakpoints (w_ds w)
    \<and> ds_stoppedThreadID (w_ds w') = ds_stoppedThreadID (w_ds w)
    \<and> (\<exists>u. prefix u (reinit_cmds w b args) \<and> sent w' p = sent w p @ u)"
  using reinit_did [OF assms(1-5)] assms(6)
  by (cases res) (auto simp: reinit_did_def caps_only_def)

subsection \<open>Concrete runs\<close>

definition demo_line :: world where
  "demo_line = demo_world (demo_session\<lparr>ds_breakpoints := [(''a.go'', [3])]\<rparr>) [quiet, quiet, accepts 0 1 verified]"

lemma demo_line_facts: "world_ok demo_line" "ds_client (w_ds demo_line) = Some 0"
    "w_ds demo_line = demo_session\<lparr>ds_breakpoints := [(''a.go'', [3])]\<rparr>" "sent demo_line 0 = []"
  by (simp_all add: demo_line_def demo_world_ok demo_session_def)

lemma demo_line_run:
  "breakpoint ''a.go'' 7 [] demo_line = (Ok (Some ''Breakpoint 5 set at a.go:7''), snd (breakpoint ''a.go'' 7 [] demo_line))"
  by (rule run_Ok) code_simp


definition agreed :: adapter where
  "agreed = \<lparr>ad_lines = (\<lambda>f. if f = ''a.go'' then [3] else []), ad_functions = []\<rparr>"

lemma demo_line_agrees: "agree (w_ds demo_line) (adapter_after (sent demo_line 0) agreed)" "bp_ok (w_ds demo_line)"
  by (auto simp: agree_def agreed_def bp_ok_def demo_line_facts(3,4) demo_session_def initial_session_def lines_of_def)

theorem breakpoint_keeps_agreement_witness:
  "agree (w_ds (snd (breakpoint ''a.go'' 7 [] demo_line)))
      (adapter_after (sent (snd (breakpoint ''a.go'' 7 [] demo_line)) 0) agreed)
    \<and> bp_ok (w_ds (snd (breakpoint ''a.go'' 7 [] demo_line)))"
  by (rule breakpoint_keeps_agreement [OF demo_line_facts(1,2) demo_line_agrees demo_line_run])

definition demo_function :: world where
  "demo_function = demo_world (demo_session\<lparr>ds_functionBreakpoints := [''main.f'']\<rparr>)
     [quiet, quiet, accepts 0 1 verified]"

theorem breakpoint_sends_all_functions_witness:
  "ds_functionBreakpoints (w_ds (snd (breakpoint [] 0 ''main.g'' demo_function))) = [''main.f'', ''main.g'']
    \<and> sent (snd (breakpoint [] 0 ''main.g'' demo_function)) 0 = [SetFunctionBreakpoints [''main.f'', ''main.g'']]"
proof -
  have ok: "world_ok demo_function" "ds_client (w_ds demo_function) = Some 0"
      "w_ds demo_function = demo_session\<lparr>ds_functionBreakpoints := [''main.f'']\<rparr>" "sent demo_function 0 = []"
    by (simp_all add: demo_function_def demo_world_ok demo_session_def)
  have run: "breakpoint [] 0 ''main.g'' demo_function
      = (Ok (Some ''Breakpoint set on function: main.g''), snd (breakpoint [] 0 ''main.g'' demo_function))"
    by (rule run_Ok) code_simp
  show ?thesis
    using breakpoint_sends_all_functions [OF ok(1,2) _ run] by (simp add: did_def ok(3,4) add_function_def)
qed

definition demo_clear :: world where
  "demo_clear = demo_world (demo_session\<lparr>ds_breakpoints := [(''a.go'', [3])]\<rparr>)
     [quiet, quiet, accepts 0 1 verified, quiet, quiet, accepts 0 2 verified]"

theorem clear_all_leaves_none_witness:
  "ds_breakpoints (w_ds (snd (clearBreakpoints [] True demo_clear))) = []
    \<and> ad_lines (adapter_after (sent (snd (clearBreakpoints [] True demo_clear)) 0) agreed) ''a.go'' = []"
proof -
  have ok: "world_ok demo_clear" "ds_client (w_ds demo_clear) = Some 0"
      "agree (w_ds demo_clear) (adapter_after (sent demo_clear 0) agreed)"
    by (auto simp: demo_clear_def demo_world_ok demo_session_def agree_def agreed_def initial_session_def lines_of_def)
  have "clearBreakpoints [] True demo_clear
      = (Ok (Some ''Cleared all breakpoints''), snd (clearBreakpoints [] True demo_clear))"
    by (rule run_Ok) code_simp
  from clear_all_leaves_none [OF ok this] show ?thesis by (simp add: fun_eq_iff)
qed

text \<open>A re-initialisation that succeeds, and one that the adapter refuses at the first breakpoint.\<close>

definition reinit_start :: "round list" where
  "reinit_start = [quiet, quiet, accepts 0 1 (InitializeR no_capabilities), quiet, quiet,
     accepts 0 2 (OtherR ''*dap.AttachResponse''),
     quiet, quiet, quiet, quiet, acts_round (arrives 0 (EventMessage InitializedEvent) @ bridges 0 0), quiet, quiet]"

definition demo_reinit :: world where
  "demo_reinit = demo_world (demo_session\<lparr>ds_breakpoints := [(''a.go'', [3])]\<rparr>)
     (reinit_start @ [quiet, quiet, accepts 0 3 verified, quiet, quiet, accepts 0 4 (OtherR [])])"

definition demo_refused :: world where
  "demo_refused = demo_world (demo_session\<lparr>ds_breakpoints := [(''a.go'', [3])]\<rparr>)
     (reinit_start @ [quiet, quiet, refuses 0 3])"

lemma demo_reinit_facts: "world_ok demo_reinit" "ds_client (w_ds demo_reinit) = Some 0"
    "ds_backend (w_ds demo_reinit) = Some (Connect ''h:1'' (5 * second))" "bp_ok (w_ds demo_reinit)"
  by (simp_all add: demo_reinit_def demo_world_ok demo_session_def initial_session_def bp_ok_def)

lemma attach_remote: "AttachArgs (Connect ''h:1'' (5 * second)) 0 = Inr [(''request'', JStr ''attach''), (''mode'', JStr ''remote'')]"
  by code_simp

theorem reinitialize_restores_breakpoints_witness:
  "ad_lines (adapter_after (sent (snd (reinitialize (CtxClient 0) demo_reinit)) 0) fresh_adapter) ''a.go'' = [3]"
proof -
  have run: "reinitialize (CtxClient 0) demo_reinit = (Ok (), snd (reinitialize (CtxClient 0) demo_reinit))"
    by (rule run_Ok) code_simp
  show ?thesis
    using reinitialize_restores_breakpoints [OF demo_reinit_facts attach_remote run]
    by (auto simp: agree_def demo_reinit_def demo_session_def lines_of_def reinit_session_def)
qed

theorem reinitialize_failure_keeps_breakpoints_witness:
  "ds_breakpoints (w_ds (snd (reinitialize (CtxClient 0) demo_refused))) = [(''a.go'', [3])]"
proof -
  have ok: "world_ok demo_refused" "ds_client (w_ds demo_refused) = Some 0"
    "ds_backend (w_ds demo_refused) = Some (Connect ''h:1'' (5 * second))"
    by (simp_all add: demo_refused_def demo_world_ok demo_session_def initial_session_def)
  have "\<not> (case fst (reinitialize (CtxClient 0) demo_refused) of Ok u \<Rightarrow> True | _ \<Rightarrow> False)" by code_simp
  then have "\<forall>u. fst (reinitialize (CtxClient 0) demo_refused) \<noteq> Ok u" by auto
  with reinitialize_failure_keeps_breakpoints [OF ok attach_remote prod.collapse [symmetric]] show ?thesis
    by (simp add: demo_refused_def)
qed

end
