(* ===== verification/SessionProperties.thy ===== *)
theory SessionProperties
  imports Keeping BreakpointProperties
begin

text \<open>
  The life of a session: what ending one leaves behind and what starting one establishes.
\<close>

subsection \<open>Ending a session\<close>

text \<open>Nothing but the client objects and the clock changes while a handler waits.\<close>

definition still :: "world \<Rightarrow> world \<Rightarrow> bool" where
  "still w0 w \<longleftrightarrow> world_ok w \<and> w_locked w \<and> same w0 w"

lemma still_stable: "stable (still w0)"
  unfolding stable_def
proof (intro conjI allI impI)
  fix a w assume "still w0 w"
  then show "still w0 (env_do a w)"
    by (simp add: still_def same_def env_do_ok env_do_static env_do_locked)
qed (auto simp: still_def same_def world_ok_def)

lemma hoare_gets_fixed:
  assumes "\<And>v. P v \<Longrightarrow> g v = x" "hoare P (k x) Q E R"
  shows "hoare P (bindP (getsP g) k) Q E R"
  using assms by (auto simp: hoare_def getsP_def bindP_def)

lemma closeP_still:
  "hoare (still w0) (closeP p) (\<lambda>_ v. still w0 v \<and> c_pump (cl v p) \<in> {PNotStarted, PExit}) E (still w0)"
proof -
  have close: "hoare (still w0) (modifyP (upd_cl p Close)) (\<lambda>_. still w0) E (still w0)"
    by (rule hoare_modify) (auto simp: still_def same_def steps_upd [OF steps_Close])
  have wait: "hoare (still w0) (blockP (\<lambda>pick w. if c_pump (cl w p) = PExit then Some (Ok (), w) else None))
      (\<lambda>_ v. still w0 v \<and> c_pump (cl v p) \<in> {PNotStarted, PExit}) E (still w0)"
    by (rule hoare_block [OF still_stable]) (auto split: if_splits)
  have rest: "hoare (still w0) (bindP (getsP (\<lambda>w. c_pump (cl w p))) (\<lambda>pc. if pc = PNotStarted then returnP ()
        else blockP (\<lambda>pick w. if c_pump (cl w p) = PExit then Some (Ok (), w) else None)))
      (\<lambda>_ v. still w0 v \<and> c_pump (cl v p) \<in> {PNotStarted, PExit}) E (still w0)"
  proof (rule hoare_bind [where A = "\<lambda>pc v. still w0 v \<and> pc = c_pump (cl v p)"])
    show "hoare (still w0) (getsP (\<lambda>w. c_pump (cl w p))) (\<lambda>pc v. still w0 v \<and> pc = c_pump (cl v p)) E (still w0)"
      by (rule hoare_gets) simp
    show "hoare (\<lambda>v. still w0 v \<and> pc = c_pump (cl v p)) (if pc = PNotStarted then returnP ()
        else blockP (\<lambda>pick w. if c_pump (cl w p) = PExit then Some (Ok (), w) else None))
      (\<lambda>_ v. still w0 v \<and> c_pump (cl v p) \<in> {PNotStarted, PExit}) E (still w0)" for pc
      by (rule hoare_if, rule hoare_return, simp, rule hoare_pre [OF _ wait], simp)
  qed
  show ?thesis unfolding closeP_def by (rule hoare_then [OF close rest])
qed

definition cleaned :: "world \<Rightarrow> world \<Rightarrow> bool" where
  "cleaned w w' \<longleftrightarrow> world_ok w' \<and> w_ds w' = reset_session ((w_ds w)\<lparr>ds_client := None, ds_cmd := False\<rparr>)
     \<and> w_server w' = w_server w @ unregistration always_tools
     \<and> w_procs w' = w_procs w - (if ds_cmd (w_ds w) then 1 else 0)
     \<and> (\<forall>p. ds_client (w_ds w) = Some p \<longrightarrow> c_pump (cl w' p) \<in> {PNotStarted, PExit})"

lemma cleanup_rest:
  assumes "still w0 v" "f (w_ds w0) = (w_ds w0)\<lparr>ds_client := None\<rparr>"
  shows "thenP killP (thenP (setP reset_session) unregisterSessionTools) (upd_ds f v)
    = (Ok (), v\<lparr>w_ds := reset_session ((w_ds w0)\<lparr>ds_client := None, ds_cmd := False\<rparr>),
         w_server := w_server w0 @ unregistration always_tools,
         w_procs := w_procs w0 - (if ds_cmd (w_ds w0) then 1 else 0)\<rparr>)"
  using assms(1)
  by (simp add: thenP_def bindP_def setP_def modifyP_def killP_def unregisterSessionTools_def dsP_def getsP_def serverP_def
      still_def same_def assms(2) reset_session_def sessionToolNames_def gated_tools_def no_capabilities_def upd_ds_def)


lemma cleaned_rest:
  assumes "still w0 v" "\<And>p. ds_client (w_ds w0) = Some p \<Longrightarrow> c_pump (cl v p) \<in> {PNotStarted, PExit}"
  shows "cleaned w0 (v\<lparr>w_ds := reset_session ((w_ds w0)\<lparr>ds_client := None, ds_cmd := False\<rparr>),
         w_server := w_server w0 @ unregistration always_tools,
         w_procs := w_procs w0 - (if ds_cmd (w_ds w0) then 1 else 0)\<rparr>)"
  using assms by (auto simp: cleaned_def still_def world_ok_def reset_session_def cl_def)

lemma cleanup_cleans:
  "hoare (still w0) cleanup (\<lambda>_ v. cleaned w0 v \<and> w_locked v \<and> length (w_clients v) = length (w_clients w0)
      \<and> w_exec v = w_exec w0 \<and> w_gdb v = w_gdb w0 \<and> w_rank v = w_rank w0 \<and> w_dial v = w_dial w0) E (still w0)"
proof -
  let ?Q = "\<lambda>v. cleaned w0 v \<and> w_locked v \<and> length (w_clients v) = length (w_clients w0)
      \<and> w_exec v = w_exec w0 \<and> w_gdb v = w_gdb w0 \<and> w_rank v = w_rank w0 \<and> w_dial v = w_dial w0"
  let ?rest = "thenP killP (thenP (setP reset_session) unregisterSessionTools)"
  have rest: "hoare (\<lambda>v. \<exists>u f. still w0 u \<and> v = upd_ds f u \<and> f (w_ds w0) = (w_ds w0)\<lparr>ds_client := None\<rparr>
      \<and> (\<forall>p. ds_client (w_ds w0) = Some p \<longrightarrow> c_pump (cl u p) \<in> {PNotStarted, PExit})) ?rest (\<lambda>_. ?Q) E (still w0)"
    unfolding hoare_def
  proof (intro allI impI, elim exE conjE)
    fix v u f
    assume u: "still w0 u" "v = upd_ds f u" "f (w_ds w0) = (w_ds w0)\<lparr>ds_client := None\<rparr>"
      "\<forall>p. ds_client (w_ds w0) = Some p \<longrightarrow> c_pump (cl u p) \<in> {PNotStarted, PExit}"
    show "case ?rest v of (Ok a, v) \<Rightarrow> ?Q v | (Er e, v) \<Rightarrow> E e v | (Pending, v) \<Rightarrow> still w0 v | (Panic, v) \<Rightarrow> False"
      using u(1) cleaned_rest [OF u(1)] u(4)
      unfolding u(2) cleanup_rest [of w0 u f, OF u(1,3)] by (simp add: still_def same_def)
  qed
  have mid: "hoare (still w0) (case ds_client (w_ds w0) of None \<Rightarrow> returnP ()
       | Some p \<Rightarrow> thenP (closeP p) (setP (\<lambda>ds. ds\<lparr>ds_client := None\<rparr>)))
      (\<lambda>_ v. \<exists>u f. still w0 u \<and> v = upd_ds f u \<and> f (w_ds w0) = (w_ds w0)\<lparr>ds_client := None\<rparr>
        \<and> (\<forall>p. ds_client (w_ds w0) = Some p \<longrightarrow> c_pump (cl u p) \<in> {PNotStarted, PExit})) E (still w0)"
  proof (cases "ds_client (w_ds w0)")
    case None
    then have "still w0 v \<Longrightarrow> still w0 v \<and> v = upd_ds (\<lambda>ds. ds) v \<and> w_ds w0 = (w_ds w0)\<lparr>ds_client := None\<rparr>" for v
      by (simp add: upd_ds_def)
    then show ?thesis using None by (force intro: hoare_return)
  next
    case (Some p)
    have "hoare (\<lambda>v. still w0 v \<and> c_pump (cl v p) \<in> {PNotStarted, PExit}) (setP (\<lambda>ds. ds\<lparr>ds_client := None\<rparr>))
        (\<lambda>_ v. \<exists>u f. still w0 u \<and> v = upd_ds f u \<and> f (w_ds w0) = (w_ds w0)\<lparr>ds_client := None\<rparr>
          \<and> (\<forall>p. ds_client (w_ds w0) = Some p \<longrightarrow> c_pump (cl u p) \<in> {PNotStarted, PExit})) E (still w0)"
      unfolding setP_def by (rule hoare_modify) (use Some in force)
    then show ?thesis unfolding Some option.case by (rule hoare_then [OF closeP_still])
  qed
  show ?thesis
    unfolding cleanup_def dsP_def
    by (rule hoare_gets_fixed [where x = "ds_client (w_ds w0)"], simp add: still_def same_def,
        rule hoare_then [OF mid rest])
qed

lemma still_plan:
  assumes "\<And>w1 s. plan w1 p s m (t w1 s)" "p < length (w_clients w0)"
  shows "hoare (still w0) m (\<lambda>_. still w0) (\<lambda>_. still w0) (still w0)"
proof (rule hoare_state)
  fix w1 assume k: "still w0 w1"
  then have f: "frame w1 p (sent w1 p) w1" using assms(2) by (simp add: still_def frame_def same_def)
  have end_ok: "still w0 v" if "frame w1 p u v" for u v
    using that k by (auto simp: still_def frame_def same_def)
  show "hoare (\<lambda>w. w = w1) m (\<lambda>_. still w0) (\<lambda>_. still w0) (still w0)"
    by (rule hoare_conseq [OF assms(1) [of w1 "sent w1 p", unfolded plan_def]])
       (use f end_ok in \<open>auto simp: progress_def\<close>)
qed

lemma still_enter: "world_ok w \<Longrightarrow> still w (w\<lparr>w_locked := True\<rparr>)"
  by (auto simp: still_def same_def world_ok_def)

lemma cleaned_unlock: "cleaned w v \<Longrightarrow> cleaned w (v\<lparr>w_locked := b\<rparr>)"
  by (auto simp: cleaned_def world_ok_def cl_def)

lemma stop_ended:
  assumes "world_ok w" and "active (w_ds w)" and "stop detach w = (res, w')"
  shows "case res of Ok text \<Rightarrow> cleaned w w' | Pending \<Rightarrow> w_ds w' = w_ds w \<and> w_server w' = w_server w | _ \<Rightarrow> False"
proof -
  let ?E = "\<lambda>_ _. False"
  have clean: "hoare (still w) (thenP cleanup (textP t)) (\<lambda>_. cleaned w) ?E (still w)" for t
    unfolding textP_def
    by (rule hoare_then [OF hoare_conseq [OF cleanup_cleans]], assumption, erule conjunct1) (auto intro: hoare_return)
  have detach: "hoare (still w) (bindP (tryP (bindP (DisconnectRequest p False) (\<lambda>seq.
      awaitResponseValidate base_ctx p seq ''disconnect''))) (\<lambda>_. thenP cleanup (textP t))) (\<lambda>_. cleaned w) ?E (still w)"
    if "ds_client (w_ds w) = Some p" for p t
  proof (rule hoare_bind [where A = "\<lambda>_. still w"])
    have p: "p < length (w_clients w)" using assms(1) that by (simp add: world_ok_def)
    have "plan w1 p s (bindP (DisconnectRequest p False) (\<lambda>seq. awaitResponseValidate base_ctx p seq ''disconnect''))
        ([Disconnect False] @ [])" for w1 s
      unfolding DisconnectRequest_def by (rule plan_bind [OF plan_request plan_validate])
    then show "hoare (still w) (tryP (bindP (DisconnectRequest p False) (\<lambda>seq.
        awaitResponseValidate base_ctx p seq ''disconnect''))) (\<lambda>_. still w) ?E (still w)"
      by (intro hoare_try [OF still_plan [OF _ p]]) auto
  qed (rule clean)
  have body: "hoare (still w) (bindP (dsP ds_cmd) (\<lambda>cmd. bindP (dsP ds_client) (\<lambda>c.
       if \<not> cmd \<and> c = None then textP ''No debug session active''
       else case (detach, c) of
           (True, Some p) \<Rightarrow>
             bindP (tryP (bindP (DisconnectRequest p False) (\<lambda>seq.
                            awaitResponseValidate base_ctx p seq ''disconnect''))) (\<lambda>_.
             thenP cleanup (textP ''Detached from process (debuggee still running)''))
         | _ \<Rightarrow> thenP cleanup (textP ''Debug session stopped'')))) (\<lambda>_. cleaned w) ?E (still w)"
    unfolding dsP_def
    by (rule hoare_gets_fixed [where x = "ds_cmd (w_ds w)"], simp add: still_def same_def,
        rule hoare_gets_fixed [where x = "ds_client (w_ds w)"], simp add: still_def same_def)
       (use assms(2) in \<open>auto simp: active_def clean detach split: bool.split option.split\<close>)
  obtain r v where m: "bindP (dsP ds_cmd) (\<lambda>cmd. bindP (dsP ds_client) (\<lambda>c.
       if \<not> cmd \<and> c = None then textP ''No debug session active''
       else case (detach, c) of
           (True, Some p) \<Rightarrow>
             bindP (tryP (bindP (DisconnectRequest p False) (\<lambda>seq.
                            awaitResponseValidate base_ctx p seq ''disconnect''))) (\<lambda>_.
             thenP cleanup (textP ''Detached from process (debuggee still running)''))
         | _ \<Rightarrow> thenP cleanup (textP ''Debug session stopped''))) (w\<lparr>w_locked := True\<rparr>) = (r, v)"
    by force
  note D = hoare_D [OF body still_enter [OF assms(1)]]
  show ?thesis
    using assms(3) D(1) [of _ v] D(2) [of _ v] D(3) [of v] D(4) [of v] m
    by (cases r) (auto simp: stop_def withLock_eq still_def same_def dest: cleaned_unlock)
qed


text \<open>C31. The tools that depend on a capability are not removed when the session ends: \<open>cleanup\<close> forgets the
  capabilities before \<open>unregisterSessionTools\<close> asks for the names, so that restart, set-variable and disassemble stay
  offered, next to \<open>debug\<close>, without a session.\<close>

theorem stop_leaves_gated_tools:
  assumes "world_ok w" and "active (w_ds w)" and "stop detach w = (Ok r, w')"
    and "w_server w = earlier @ registration caps"
  shows "set (offered (w_server w') []) = {''debug''} \<union> set (gated_tools caps)
    \<union> (set (offered earlier []) - set always_tools)"
proof -
  have "cleaned w w'" using stop_ended [OF assms(1-3)] by simp
  then have "w_server w' = earlier @ registration caps @ unregistration always_tools"
    using assms(4) by (simp add: cleaned_def)
  moreover have "set (gated_tools caps) \<inter> set always_tools = {}" by (auto simp: gated_tools_def always_tools_def)
  ultimately show ?thesis
    by (simp add: offered_append offered_registration offered_unregistration) blast
qed

subsection \<open>Starting a session\<close>

lemma prepare_cases:
  assumes "prepare dp v = (res, v1)"
  shows "case res of
      Ok (mode, b) \<Rightarrow> v1 = upd_ds (\<lambda>ds. ds\<lparr>ds_backend := Some b\<rparr>) v \<and> debug_mode (ds_backend (w_ds v)) (dp_mode dp) = Inr mode
        \<and> check_params (is_connect (ds_backend (w_ds v))) mode dp = None
        \<and> (if is_connect (ds_backend (w_ds v)) then ds_backend (w_ds v) = Some b else select_backend (w_gdb v) dp = Inr b)
    | Er e \<Rightarrow> v1 = v
    | _ \<Rightarrow> False"
  using assms
  by (auto simp: prepare_def dsP_def getsP_def bindP_def liftP_def raiseP_def returnP_def setP_def modifyP_def thenP_def
      upd_ds_def is_connect_def split: sum.splits option.splits if_splits backend.splits)

lemma spawnP_cases:
  assumes "spawnP b dp v = (res, v1)"
  shows "case res of
      Ok addr \<Rightarrow> \<exists>proc. Spawn b (exec_of dp v) = Spawned proc addr \<and>
        v1 = upd_ds (\<lambda>ds. ds\<lparr>ds_cmd := proc\<rparr>) (v\<lparr>w_procs := w_procs v + (if proc then 1 else 0)\<rparr>)
    | Er e \<Rightarrow> v1 = v
    | _ \<Rightarrow> False"
  using assms by (auto simp: spawnP_def bindP_def getsP_def raiseP_def thenP_def modifyP_def returnP_def split: spawned.splits)

lemma connect_cases:
  assumes "connect_client b addr v = (res, v1)"
  shows "case res of
      Ok p \<Rightarrow> p = length (w_clients v) \<and> (\<exists>n r. v1 = upd_ds (\<lambda>ds. ds\<lparr>ds_client := Some p\<rparr>)
        (v\<lparr>w_clients := w_clients v @ [newDAPClientInternal n r]\<rparr>))
    | Er e \<Rightarrow> v1 = v
    | _ \<Rightarrow> False"
  using assms
  by (auto simp: connect_client_def install_client_def bindP_def getsP_def liftP_def raiseP_def thenP_def modifyP_def returnP_def
      newDAPClient_def newDAPClientFromRWC_def split: if_splits sum.splits) ((rule exI)+, rule refl)+

definition initial_cmds :: "breakpointSpec \<Rightarrow> command list" where
  "initial_cmds bp = (if bs_function bp \<noteq> [] then [SetFunctionBreakpoints [bs_function bp]]
     else if bs_file bp \<noteq> [] \<and> 0 < bs_line bp then [SetBreakpoints (bs_file bp) [bs_line bp]] else [])"

lemma initial_breakpoint_plan: "plan w0 p s (initial_breakpoint p bp) (initial_cmds bp)"
proof -
  have "plan w0 p s (bindP (request p cmd) (\<lambda>seq. awaitResponseValidate base_ctx p seq t)) [cmd]" for cmd t
    by (rule plan_ask, rule plan_validate)
  then show ?thesis
    by (simp add: initial_breakpoint_def initial_cmds_def SetFunctionBreakpointsRequest_def SetBreakpointsRequest_def plan_return)
qed

definition start_cmds :: "backend \<Rightarrow> command \<Rightarrow> debugParams \<Rightarrow> command list" where
  "start_cmds b c dp = [Initialize (AdapterID b), c] @ concat (map initial_cmds (dp_breakpoints dp)) @ [ConfigurationDone]"

definition start_session :: "capabilities \<Rightarrow> string \<Rightarrow> debugParams \<Rightarrow> session \<Rightarrow> session" where
  "start_session caps mode dp ds = ds\<lparr>ds_capabilities := caps, ds_launchMode := mode, ds_programPath := dp_path dp,
     ds_programArgs := dp_args dp, ds_coreFilePath := dp_coreFilePath dp\<rparr>"

lemma hoare_weaken: "hoare P m Q E R \<Longrightarrow> (\<And>e w. E e w \<Longrightarrow> E' e w) \<Longrightarrow> (\<And>w. R w \<Longrightarrow> R' w) \<Longrightarrow> hoare P m Q E' R'"
  by (erule hoare_conseq) auto

lemma plan_safe:
  assumes "plan w0 p s m t"
  shows "hoare (frame w0 p s) m (\<lambda>_. frame w0 p (s @ t)) (\<lambda>_. world_ok) world_ok"
  by (rule hoare_weaken [OF assms [unfolded plan_def]]) (auto simp: progress_def frame_def)

lemma configure_plan:
  "plan w0 p s (configure p dp since c)
   ([c] @ [] @ [] @ [] @ concat (map initial_cmds (dp_breakpoints dp)) @ [ConfigurationDone] @ [] @ [])"
  unfolding configure_def ConfigurationDoneRequest_def
  by (rule plan_bind [OF plan_request], rule plan_bind [OF plan_await], rule plan_then [OF plan_response_failed],
      rule plan_then [OF plan_wrap [OF plan_initialized]], rule plan_then [OF plan_for [OF initial_breakpoint_plan]],
      rule plan_bind [OF plan_request], rule plan_then [OF plan_validate], rule plan_return)

lemma InitializeRequest_plan: "plan w0 p s (InitializeRequest ctx p a) ([Initialize a] @ [] @ [])"
  unfolding InitializeRequest_def initialize_result_def
  by (rule plan_bind [OF plan_request], rule plan_bind [OF plan_await])
     (auto intro: plan_raise plan_return split: dap_msg.split resp_body.split)


text \<open>The state right after the client has been started.\<close>

definition connected :: "world \<Rightarrow> debugParams \<Rightarrow> string \<Rightarrow> backend \<Rightarrow> nat \<Rightarrow> world \<Rightarrow> bool" where
  "connected w dp mode b p v \<longleftrightarrow> frame v p [] v \<and> p = length (w_clients w)
     \<and> debug_mode (ds_backend (w_ds w)) (dp_mode dp) = Inr mode
     \<and> (if is_connect (ds_backend (w_ds w)) then ds_backend (w_ds w) = Some b else select_backend (w_gdb w) dp = Inr b)
     \<and> (\<exists>cmd. w_ds v = (reset_session (w_ds w))\<lparr>ds_cmd := cmd, ds_client := Some p, ds_backend := Some b\<rparr>)
     \<and> w_server v = w_server w @ unregistration always_tools \<and> w_exec v = w_exec w"

lemma start_connected:
  assumes c: "cleaned w v" "w_locked v" "length (w_clients v) = length (w_clients w)" "w_exec v = w_exec w" "w_gdb v = w_gdb w"
    and run: "prepare dp v = (Ok (mode, b), v1)" "spawnP b dp v1 = (Ok addr, v2)" "connect_client b addr v2 = (Ok p, v3)"
  shows "connected w dp mode b p (upd_cl p (\<lambda>c. Start (SetReinitHook c)) v3)"
proof -
  have bk: "ds_backend (w_ds v) = ds_backend (w_ds w)" using c(1) by (simp add: cleaned_def reset_session_def)
  note v1 = prepare_cases [OF run(1), simplified]
  obtain cmd where v2: "v2 = upd_ds (\<lambda>ds. ds\<lparr>ds_cmd := cmd\<rparr>) (v1\<lparr>w_procs := w_procs v1 + (if cmd then 1 else 0)\<rparr>)"
    using spawnP_cases [OF run(2)] by auto
  obtain n r where v3: "p = length (w_clients v2)" "v3 = upd_ds (\<lambda>ds. ds\<lparr>ds_client := Some p\<rparr>)
      (v2\<lparr>w_clients := w_clients v2 @ [newDAPClientInternal n r]\<rparr>)"
    using connect_cases [OF run(3)] by auto
  let ?c = "Start (SetReinitHook (newDAPClientInternal n r))"
  let ?v = "upd_cl p (\<lambda>c. Start (SetReinitHook c)) v3"
  have r: "reachable ?c"
    by (rule reach_step [OF reach_step [OF reach_init sys_set_hook] sys_start])
       (simp_all add: SetReinitHook_def newDAPClientInternal_def)
  have cs: "w_clients ?v = w_clients v @ [?c]"
    using v1 v2 v3 by (simp add: upd_cl_def upd_ds_def)
  have ds: "w_ds ?v = (reset_session (w_ds w))\<lparr>ds_cmd := cmd, ds_client := Some p, ds_backend := Some b\<rparr>"
    using v1 v2 v3 c(1) by (simp add: cleaned_def reset_session_def)
  have p: "p = length (w_clients v)" "p = length (w_clients w)" using v1 v2 v3 c(3) by simp_all
  have "world_ok ?v"
    using c(1) r unfolding world_ok_def cs ds by (auto simp: cleaned_def world_ok_def p)
  moreover have "c_wire ?c = []"
    by (simp add: Start_def startReadLoop_def SetReinitHook_def newDAPClientInternal_def)
  moreover have "w_locked ?v" "w_server ?v = w_server v" "w_exec ?v = w_exec v"
    using v1 v2 v3 c(2) by simp_all
  ultimately show ?thesis
  proof -
    assume ok: "world_ok ?v" and fields: "w_locked ?v" "w_server ?v = w_server v" "w_exec ?v = w_exec v" and wire: "c_wire ?c = []"
    have "cl ?v p = ?c" unfolding cl_def cs by (simp add: p(1))
    moreover have "length (w_clients v3) = Suc (length (w_clients v))"
      using arg_cong [OF cs, of length] by simp
    ultimately have "frame ?v p [] ?v" using ok fields wire by (simp add: frame_def same_def sent_def p(1))
    then show ?thesis
      using v1 bk c(1,4,5) fields ds p(2) unfolding connected_def by (auto simp: cleaned_def)
  qed
qed

lemma frame_server:
  "hoare (frame w0 p s) (serverP calls) (\<lambda>_. frame (w0\<lparr>w_server := w_server w0 @ calls\<rparr>) p s) E R"
  unfolding serverP_def
  by (rule hoare_modify) (auto simp: frame_def same_def world_ok_def sent_def cl_def nsubs_def)

lemma frame_stamp:
  "hoare (frame w0 p s) stampP (\<lambda>_ v. \<exists>t. frame (upd_ds (\<lambda>ds. ds\<lparr>ds_lastStopAt := t\<rparr>) w0) p s v) E R"
  unfolding stampP_def
proof (rule hoare_modify)
  fix v assume f: "frame w0 p s v"
  have "frame (upd_ds (\<lambda>ds. ds\<lparr>ds_lastStopAt := w_now v\<rparr>) w0) p s (upd_ds (\<lambda>ds. ds\<lparr>ds_lastStopAt := w_now v\<rparr>) v)"
    by (rule frame_upd_ds [OF f]) (use f in \<open>auto simp: frame_def same_def world_ok_def\<close>)
  then show "\<exists>t. frame (upd_ds (\<lambda>ds. ds\<lparr>ds_lastStopAt := t\<rparr>) w0) p s (upd_ds (\<lambda>ds. ds\<lparr>ds_lastStopAt := w_now v\<rparr>) v)"
    by blast
qed

lemma handshake_safe:
  "hoare (frame w0 p []) (handshake p b mode dp) (\<lambda>_ v. \<exists>c caps. launch_command b (ex_cwd (exec_of dp w0)) mode dp = Inr c
      \<and> frame (upd_ds (start_session caps mode dp) w0) p (start_cmds b c dp) v) (\<lambda>_. world_ok) world_ok"
  (is "hoare _ _ ?Q _ _")
  unfolding handshake_def
proof (rule hoare_bind [OF plan_safe [OF InitializeRequest_plan]])
  fix caps
  let ?w1 = "upd_ds (start_session caps mode dp) w0"
  let ?I = "[] @ [Initialize (AdapterID b)] @ [] @ []"
  let ?cmd = "launch_command b (ex_cwd (exec_of dp w0)) mode dp"
  have set: "hoare (frame w0 p ?I) (setP (start_session caps mode dp)) (\<lambda>_. frame ?w1 p ?I) (\<lambda>_. world_ok) world_ok"
    by (rule set_frame) (simp add: start_session_def)
  have start: "hoare (frame ?w1 p ?I) (bindP (liftP ?cmd) (configure p dp since)) ?Q (\<lambda>_. world_ok) world_ok" for since
  proof (cases ?cmd)
    case (Inl e)
    then show ?thesis by (auto simp: liftP_def frame_def intro!: hoare_raise)
  next
    case (Inr c)
    show ?thesis
      unfolding Inr liftP_def sum.case bindP_return
      by (rule hoare_conseq [OF plan_safe [OF configure_plan]]) (use Inr in \<open>auto simp: start_cmds_def\<close>)
  qed
  have rest: "hoare (frame ?w1 p ?I) (bindP nowP (\<lambda>since.
     bindP (getsP (\<lambda>w. launch_command b (ex_cwd (exec_of dp w)) mode dp)) (\<lambda>cmd.
     bindP (liftP cmd) (configure p dp since)))) ?Q (\<lambda>_. world_ok) world_ok"
    unfolding nowP_def
    by (rule hoare_bind [OF gets_frame], rule hoare_gets_fixed [where x = ?cmd], simp add: frame_def same_def exec_of_def,
        rule start)
  show "hoare (frame w0 p ?I) (thenP (setP (\<lambda>ds. ds\<lparr>ds_capabilities := caps, ds_launchMode := mode, ds_programPath := dp_path dp,
                         ds_programArgs := dp_args dp, ds_coreFilePath := dp_coreFilePath dp\<rparr>)) (
     bindP nowP (\<lambda>since.
     bindP (getsP (\<lambda>w. launch_command b (ex_cwd (exec_of dp w)) mode dp)) (\<lambda>cmd.
     bindP (liftP cmd) (configure p dp since))))) ?Q (\<lambda>_. world_ok) world_ok"
    using hoare_then [OF set rest] unfolding start_session_def [abs_def] by simp
qed


text \<open>What a session looks like after a debug call that succeeded.\<close>

definition started :: "world \<Rightarrow> debugParams \<Rightarrow> world \<Rightarrow> bool" where
  "started w dp w' \<longleftrightarrow> (\<exists>mode b c. let p = length (w_clients w); ds' = w_ds w' in
     debug_mode (ds_backend (w_ds w)) (dp_mode dp) = Inr mode
     \<and> (if is_connect (ds_backend (w_ds w)) then ds_backend (w_ds w) = Some b else select_backend (w_gdb w) dp = Inr b)
     \<and> launch_command b (ex_cwd (exec_of dp w)) mode dp = Inr c
     \<and> world_ok w' \<and> ds_client ds' = Some p \<and> prefix (start_cmds b c dp) (sent w' p)
     \<and> ds_backend ds' = Some b \<and> ds_launchMode ds' = mode \<and> ds_programPath ds' = dp_path dp
     \<and> ds_programArgs ds' = dp_args dp \<and> ds_coreFilePath ds' = dp_coreFilePath dp
     \<and> ds_breakpoints ds' = ds_breakpoints (w_ds w)
     \<and> ds_functionBreakpoints ds' = ds_functionBreakpoints (w_ds w)
     \<and> w_server w' = w_server w @ unregistration always_tools @ registration (ds_capabilities ds'))"

lemma started_kept:
  assumes "connected w dp mode b p v0" "launch_command b (ex_cwd (exec_of dp v0)) mode dp = Inr c"
    and "frame (upd_ds (\<lambda>ds. ds\<lparr>ds_lastStopAt := t\<rparr>) (upd_ds (start_session caps mode dp) v0)\<lparr>w_server := w_server v0 @ registration caps\<rparr>)
      p (start_cmds b c dp) v"
    and "kept v p 0 v'"
  shows "started w dp (v'\<lparr>w_locked := l\<rparr>)"
proof -
  obtain cmd where ds: "w_ds v0 = (reset_session (w_ds w))\<lparr>ds_cmd := cmd, ds_client := Some p, ds_backend := Some b\<rparr>"
    using assms(1) by (auto simp: connected_def)
  have v: "w_ds v = (start_session caps mode dp (w_ds v0))\<lparr>ds_lastStopAt := t\<rparr>" "sent v p = start_cmds b c dp"
      "w_server v = w_server v0 @ registration caps"
    using assms(3) by (simp_all add: frame_def same_def upd_ds_def)
  have v': "moved (w_ds v) (w_ds v')" "prefix (sent v p) (sent v' p)" "w_server v' = w_server v" "world_ok v'"
    using assms(4) by (simp_all add: kept_def)
  have "exec_of dp v0 = exec_of dp w" using assms(1) by (simp add: connected_def exec_of_def)
  moreover have "world_ok (v'\<lparr>w_locked := l\<rparr>)" using v'(4) by (simp add: world_ok_def)
  moreover have "sent (v'\<lparr>w_locked := l\<rparr>) p = sent v' p" by (simp add: sent_def cl_def)
  ultimately show ?thesis
    using assms(1,2) v v'(2-) ds movedD [OF v'(1)]
    by (auto simp: started_def connected_def Let_def start_session_def reset_session_def)
qed


lemma started_rest:
  assumes c: "connected w dp mode b p v0"
  shows "hoare (\<lambda>v. v = v0) (bindP (handshake p b mode dp) (\<lambda>since. thenP stampP (thenP registerSessionTools (
       first_result p mode dp since)))) (\<lambda>_ v. \<forall>l. started w dp (v\<lparr>w_locked := l\<rparr>)) (\<lambda>_. world_ok) world_ok"
proof (rule hoare_pre [where P' = "frame v0 p []"])
  have "frame v0 p [] v0" using c unfolding connected_def by blast
  then show "v = v0 \<Longrightarrow> frame v0 p [] v" for v by simp
  let ?lc = "launch_command b (ex_cwd (exec_of dp v0)) mode dp"
  have ok: "\<lbrakk>kept v p 0 v'\<rbrakk> \<Longrightarrow> world_ok v'" for v v' by (simp add: kept_def)
  have last: "hoare (frame (upd_ds (\<lambda>ds. ds\<lparr>ds_lastStopAt := t\<rparr>) (upd_ds (start_session caps mode dp) v0)
        \<lparr>w_server := w_server v0 @ registration caps\<rparr>) p (start_cmds b c dp)) (first_result p mode dp since)
      (\<lambda>_ v. \<forall>l. started w dp (v\<lparr>w_locked := l\<rparr>)) (\<lambda>_. world_ok) world_ok"
    if lc: "?lc = Inr c" for c caps t since
  proof (rule hoare_state)
    fix v assume f: "frame (upd_ds (\<lambda>ds. ds\<lparr>ds_lastStopAt := t\<rparr>) (upd_ds (start_session caps mode dp) v0)
        \<lparr>w_server := w_server v0 @ registration caps\<rparr>) p (start_cmds b c dp) v"
    have "ds_client (w_ds v0) = Some p" using c by (auto simp: connected_def)
    then have "kept v p 0 v" using f by (simp add: frame_def same_def kept_def upd_ds_def start_session_def)
    moreover have "hoare (kept v p 0) (first_result p mode dp since) (\<lambda>_. kept v p 0) (\<lambda>_. kept v p 0) (kept v p 0)"
      using keeps_first_result by (simp add: keeps_def)
    ultimately show "hoare (\<lambda>w. w = v) (first_result p mode dp since) (\<lambda>_ v. \<forall>l. started w dp (v\<lparr>w_locked := l\<rparr>))
        (\<lambda>_. world_ok) world_ok"
      using started_kept [OF c lc f] ok by (elim hoare_conseq) auto
  qed
  have reg: "hoare (frame (upd_ds (\<lambda>ds. ds\<lparr>ds_lastStopAt := t\<rparr>) (upd_ds (start_session caps mode dp) v0)) p s)
      registerSessionTools (\<lambda>_. frame (upd_ds (\<lambda>ds. ds\<lparr>ds_lastStopAt := t\<rparr>) (upd_ds (start_session caps mode dp) v0)
        \<lparr>w_server := w_server v0 @ registration caps\<rparr>) p s) (\<lambda>_. world_ok) world_ok" for t caps s
    unfolding registerSessionTools_def
    by (rule hoare_ds) (rule hoare_conseq [OF frame_server], auto simp: start_session_def)
  have stamp: "hoare (frame (upd_ds (start_session caps mode dp) v0) p s) (thenP stampP (thenP registerSessionTools k))
      Q (\<lambda>_. world_ok) world_ok"
    if "\<And>t. hoare (frame (upd_ds (\<lambda>ds. ds\<lparr>ds_lastStopAt := t\<rparr>) (upd_ds (start_session caps mode dp) v0)
        \<lparr>w_server := w_server v0 @ registration caps\<rparr>) p s) k Q (\<lambda>_. world_ok) world_ok" for caps s Q and k :: "string option prog"
    by (rule hoare_then [OF frame_stamp], rule hoare_ex, rule hoare_then [OF reg that])
  show "hoare (frame v0 p []) (bindP (handshake p b mode dp) (\<lambda>since. thenP stampP (thenP registerSessionTools (
       first_result p mode dp since)))) (\<lambda>_ v. \<forall>l. started w dp (v\<lparr>w_locked := l\<rparr>)) (\<lambda>_. world_ok) world_ok"
    by (rule hoare_bind [OF handshake_safe], rule hoare_ex, rule hoare_ex, rule hoare_assume, rule stamp, rule last)
qed

text \<open>A program that does not wait, run on a known world.\<close>

lemma hoare_exact:
  assumes "m v = (r, v1)"
    and "case r of Ok a \<Rightarrow> hoare (\<lambda>w. w = v1) (k a) Q E R | Er e \<Rightarrow> E e v1 | Pending \<Rightarrow> R v1 | Panic \<Rightarrow> False"
  shows "hoare (\<lambda>w. w = v) (bindP m k) Q E R"
  using assms by (cases r) (simp_all add: hoare_def bindP_def)

lemma hoare_start:
  "hoare (\<lambda>w. w = upd_cl p (\<lambda>c. Start (SetReinitHook c)) v) k Q E R \<Longrightarrow> hoare (\<lambda>w. w = v) (thenP (startP p) k) Q E R"
  by (simp add: hoare_def thenP_def bindP_def startP_def modifyP_def)

lemma world_ok_ds:
  assumes "world_ok v" "\<And>ds. ds_client (f ds) = ds_client ds" shows "world_ok (upd_ds f v)"
  by (rule upd_ds_ok) (use assms in \<open>auto simp: world_ok_def\<close>)

lemma startup_rest:
  assumes v: "cleaned w v" "w_locked v" "length (w_clients v) = length (w_clients w)" "w_exec v = w_exec w" "w_gdb v = w_gdb w"
  shows "hoare (\<lambda>w. w = v) (bindP (prepare dp) (\<lambda>(mode, b). bindP (spawnP b dp) (\<lambda>listenAddr.
      bindP (connect_client b listenAddr) (\<lambda>p. thenP (startP p) (bindP (handshake p b mode dp) (\<lambda>since.
      thenP stampP (thenP registerSessionTools (first_result p mode dp since))))))))
    (\<lambda>_ v. \<forall>l. started w dp (v\<lparr>w_locked := l\<rparr>)) (\<lambda>_. world_ok) world_ok"
proof -
  let ?Q = "\<lambda>(_ :: string option) v. \<forall>l. started w dp (v\<lparr>w_locked := l\<rparr>)"
  have ok: "world_ok v" using v(1) by (simp add: cleaned_def)
  obtain r1 v1 where run1: "prepare dp v = (r1, v1)" by force
  note c1 = prepare_cases [OF run1]
  show ?thesis
  proof (rule hoare_exact [where m = "prepare dp" and v = v, OF run1], cases r1)
    case (Ok mb)
    obtain mode b where mb: "mb = (mode, b)" by force
    have v1: "v1 = upd_ds (\<lambda>ds. ds\<lparr>ds_backend := Some b\<rparr>) v" using c1 Ok mb by simp
    have ok1: "world_ok v1" unfolding v1 by (rule world_ok_ds [OF ok]) simp
    obtain r2 v2 where run2: "spawnP b dp v1 = (r2, v2)" by force
    note c2 = spawnP_cases [OF run2]
    have "hoare (\<lambda>w. w = v1) (bindP (spawnP b dp) (\<lambda>listenAddr. bindP (connect_client b listenAddr) (\<lambda>p.
      thenP (startP p) (bindP (handshake p b mode dp) (\<lambda>since. thenP stampP (thenP registerSessionTools (
      first_result p mode dp since))))))) ?Q (\<lambda>_. world_ok) world_ok"
    proof (rule hoare_exact [where m = "spawnP b dp" and v = v1, OF run2], cases r2)
      case (Ok addr)
      then obtain cmd where v2: "v2 = upd_ds (\<lambda>ds. ds\<lparr>ds_cmd := cmd\<rparr>) (v1\<lparr>w_procs := w_procs v1 + (if cmd then 1 else 0)\<rparr>)"
        using c2 by auto
      have ok2: "world_ok v2" unfolding v2 by (rule world_ok_ds) (use ok1 in \<open>auto simp: world_ok_def\<close>)
      obtain r3 v3 where run3: "connect_client b addr v2 = (r3, v3)" by force
      note c3 = connect_cases [OF run3]
      have "hoare (\<lambda>w. w = v2) (bindP (connect_client b addr) (\<lambda>p.
        thenP (startP p) (bindP (handshake p b mode dp) (\<lambda>since. thenP stampP (thenP registerSessionTools (
        first_result p mode dp since)))))) ?Q (\<lambda>_. world_ok) world_ok"
      proof (rule hoare_exact [where m = "connect_client b addr" and v = v2, OF run3], cases r3)
        case (Ok p)
        have "connected w dp mode b p (upd_cl p (\<lambda>c. Start (SetReinitHook c)) v3)"
          by (rule start_connected [OF v]) (use run1 run2 run3 \<open>r1 = Ok mb\<close> mb \<open>r2 = Ok addr\<close> Ok in simp_all)
        from hoare_start [OF started_rest [OF this]] show "case r3 of Ok p \<Rightarrow> hoare (\<lambda>w. w = v3) (thenP (startP p) (bindP (handshake p b mode dp) (\<lambda>since.
            thenP stampP (thenP registerSessionTools (first_result p mode dp since))))) ?Q (\<lambda>_. world_ok) world_ok
          | Er e \<Rightarrow> world_ok v3 | Pending \<Rightarrow> world_ok v3 | Panic \<Rightarrow> False"
          by (simp add: Ok)
      qed (use c3 ok2 in auto)
      then show "case r2 of Ok a \<Rightarrow> hoare (\<lambda>w. w = v2) (bindP (connect_client b a) (\<lambda>p.
        thenP (startP p) (bindP (handshake p b mode dp) (\<lambda>since. thenP stampP (thenP registerSessionTools (
        first_result p mode dp since)))))) ?Q (\<lambda>_. world_ok) world_ok
          | Er e \<Rightarrow> world_ok v2 | Pending \<Rightarrow> world_ok v2 | Panic \<Rightarrow> False"
        using Ok by simp
    qed (use c2 ok1 in auto)
    then show "case r1 of Ok a \<Rightarrow> hoare (\<lambda>w. w = v1) (case a of (mode, b) \<Rightarrow> bindP (spawnP b dp) (\<lambda>listenAddr.
      bindP (connect_client b listenAddr) (\<lambda>p. thenP (startP p) (bindP (handshake p b mode dp) (\<lambda>since.
      thenP stampP (thenP registerSessionTools (first_result p mode dp since))))))) ?Q (\<lambda>_. world_ok) world_ok
          | Er e \<Rightarrow> world_ok v1 | Pending \<Rightarrow> world_ok v1 | Panic \<Rightarrow> False"
      using Ok mb by simp
  qed (use c1 ok in auto)
qed

lemma debug_started:
  assumes "world_ok w" and "debug dp w = (res, w')"
  shows "case res of Ok r \<Rightarrow> started w dp w' | Panic \<Rightarrow> False | _ \<Rightarrow> world_ok w'"
proof -
  let ?m = "thenP cleanup (bindP (prepare dp) (\<lambda>(mode, b). bindP (spawnP b dp) (\<lambda>listenAddr.
      bindP (connect_client b listenAddr) (\<lambda>p. thenP (startP p) (bindP (handshake p b mode dp) (\<lambda>since.
      thenP stampP (thenP registerSessionTools (first_result p mode dp since))))))))"
  have h: "hoare (still w) ?m (\<lambda>_ v. \<forall>l. started w dp (v\<lparr>w_locked := l\<rparr>)) (\<lambda>_. world_ok) world_ok"
  proof (rule hoare_then)
    show "hoare (still w) cleanup (\<lambda>_ v. cleaned w v \<and> w_locked v \<and> length (w_clients v) = length (w_clients w)
      \<and> w_exec v = w_exec w \<and> w_gdb v = w_gdb w \<and> w_rank v = w_rank w \<and> w_dial v = w_dial w) (\<lambda>_. world_ok) world_ok"
      by (rule hoare_conseq [OF cleanup_cleans]) (auto simp: still_def)
  qed (rule hoare_state, rule startup_rest, simp_all)
  obtain r v where m: "?m (w\<lparr>w_locked := True\<rparr>) = (r, v)" by force
  note D = hoare_D [OF h still_enter [OF assms(1)]]
  have ok: "world_ok v \<Longrightarrow> world_ok (v\<lparr>w_locked := False\<rparr>)" by (simp add: world_ok_def)
  show ?thesis
    using assms(2) D(1) [of _ v] D(2) [of _ v] D(3) [of v] D(4) [of v] m ok
    by (cases r) (auto simp: debug_def withLock_eq)
qed


subsection \<open>Concrete runs\<close>

definition demo_stop :: "capabilities \<Rightarrow> world" where
  "demo_stop caps = (demo_world (demo_session\<lparr>ds_capabilities := caps, ds_breakpoints := [(''a.go'', [3])]\<rparr>)
     [acts_round [APump 0 InGo False, APump 0 InGo False]])\<lparr>w_server := registration caps\<rparr>"


lemma demo_stop_facts: "world_ok (demo_stop caps)" "active (w_ds (demo_stop caps))"
    "w_server (demo_stop caps) = [] @ registration caps" "ds_breakpoints (w_ds (demo_stop caps)) = [(''a.go'', [3])]"
  by (simp_all add: demo_stop_def demo_world_def world_ok_def active_def demo_session_def reachable_demo_start)

lemma demo_stop_run: "stop False (demo_stop no_capabilities)
    = (Ok (Some ''Debug session stopped''), snd (stop False (demo_stop no_capabilities)))"
  by (rule run_Ok) code_simp


definition all_capabilities :: capabilities where
  "all_capabilities = \<lparr>supportsRestartRequest = True, supportsSetVariable = True, supportsDisassembleRequest = True,
     supportsLoadedSourcesRequest = True, supportsModulesRequest = True\<rparr>"

theorem stop_leaves_gated_tools_witness:
  "set (offered (w_server (snd (stop False (demo_stop all_capabilities)))) [])
    = {''restart'', ''set-variable'', ''disassemble'', ''debug''}"
proof -
  have run: "stop False (demo_stop all_capabilities)
    = (Ok (Some ''Debug session stopped''), snd (stop False (demo_stop all_capabilities)))"
    by (rule run_Ok) code_simp
  show ?thesis
    using stop_leaves_gated_tools [OF demo_stop_facts(1,2) run demo_stop_facts(3)]
    by (simp add: gated_tools_def all_capabilities_def)
qed

definition demo_debug :: world where
  "demo_debug = demo_world (initial_session ''h:1'') ([quiet, quiet, accepts 1 1 (InitializeR no_capabilities), quiet, quiet,
     accepts 1 2 (OtherR ''*dap.AttachResponse''),
     quiet, quiet, quiet, quiet, acts_round (arrives 1 (EventMessage InitializedEvent) @ bridges 1 0), quiet, quiet,
     quiet, quiet, accepts 1 3 verified, quiet, quiet, accepts 1 4 (OtherR [])])"
definition demo_params :: debugParams where
  "demo_params = \<lparr>dp_mode = [], dp_path = [], dp_args = [], dp_coreFilePath = [], dp_processId = 0,
     dp_breakpoints = [\<lparr>bs_file = ''a.go'', bs_line = 7, bs_function = []\<rparr>], dp_stopOnEntry = False, dp_port = [],
     dp_debugger = [], dp_gdbPath = []\<rparr>"


end
