(* ===== verification/ToolProperties.thy ===== *)
theory ToolProperties
  imports Keeping BreakpointProperties
begin

text \<open>
  The tools that are a single request, and the tools that inspect and move the program.
\<close>

subsection \<open>Tools that are one request\<close>

text \<open>A call of one of these tools, as the client of the MCP server makes it.\<close>

datatype one_request =
    CallEvaluate string "int option" string
  | CallSetVariable int string string
  | CallRestart "string list"
  | CallDisassemble string int int
  | CallPause int
  | CallContinue int

fun call :: "one_request \<Rightarrow> string option prog" where
  "call (CallEvaluate e f c) = evaluateExpression e f c"
| "call (CallSetVariable r n v) = setVariable r n v"
| "call (CallRestart a) = restartDebugger a"
| "call (CallDisassemble a i n) = disassembleCode a i n"
| "call (CallPause t) = pauseExecution t"
| "call (CallContinue t) = continueExecution t None"

fun command_of :: "session \<Rightarrow> one_request \<Rightarrow> command" where
  "command_of ds (CallEvaluate e f c) = Evaluate e (eval_frame f ds) (Some (if c = [] then ''watch'' else c))"
| "command_of ds (CallSetVariable r n v) = SetVariable r n v"
| "command_of ds (CallRestart a) = Restart (Some (restart_args a))"
| "command_of ds (CallDisassemble a i n) = Disassemble a i (if n = 0 then 20 else n)"
| "command_of ds (CallPause t) = Pause t"
| "command_of ds (CallContinue t) = Continue (pick_thread t ds)"

lemma handler_plan:
  assumes "world_ok w" "ds_client (w_ds w) = Some p" "withLock (withClient k) w = (res, w')"
    and "\<And>w0 s. w_ds w0 = w_ds w \<Longrightarrow> plan w0 p s (k p) t"
  shows "did w p t (\<lambda>ds. ds) res w'"
  by (rule handler_did [OF assms(1,2) _ assms(3)]) (simp add: effect_plan assms(4))


subsection \<open>Inspecting and moving\<close>

datatype inspection =
    CallStep string int int
  | CallContext int int int
  | CallInfo string
  | CallContinueTo int breakpointSpec

fun inspect :: "inspection \<Rightarrow> string option prog" where
  "inspect (CallStep mode t n) = step mode t n"
| "inspect (CallContext t f n) = context_tool t f n"
| "inspect (CallInfo ty) = info ty"
| "inspect (CallContinueTo t bp) = continueExecution t (Some bp)"

subsection \<open>Concrete runs\<close>

definition demo_evaluate :: world where
  "demo_evaluate = demo_world (demo_session\<lparr>ds_lastFrameID := 4\<rparr>) [quiet, quiet, accepts 0 1 (EvaluateR ''42'' ''int'')]"


definition stops :: "nat \<Rightarrow> nat \<Rightarrow> dap_event \<Rightarrow> round" where
  "stops p i e = acts_round (arrives p (EventMessage e) @ bridges p i)"

definition demo_step :: world where
  "demo_step = demo_world (demo_session\<lparr>ds_breakpoints := [(''a.go'', [3])]\<rparr>) ([quiet, quiet, accepts 0 1 (OtherR ''*dap.NextResponse'')]
     @ replicate 6 quiet @ [stops 0 0 (StoppedEvent ''step'' 7)] @ replicate 3 quiet
     @ [quiet, quiet, accepts 0 2 (StackTraceR []), quiet, quiet, accepts 0 3 (ScopesR [])])"



end
