(* ===== verification/WaitProperties.thy ===== *)
theory WaitProperties
  imports SessionProperties ToolProperties
begin

text \<open>
  The operations that wait: a wait with a deadline ends, the polling loop of \<open>reconnect\<close> ends and its report is
  true, a waiter gets its own response, the timeouts are exact, and what pausing does when it meets the end of
  the session.
\<close>

subsection \<open>Waiting has an end\<close>

text \<open>A blocked operation has looked at its cases after every round, the last one included.\<close>

lemma wait_pending:
  assumes "wait_rounds f rs w = (Pending, w')" "\<And>pick v x. f pick v \<noteq> Some (Pending, x)" "rs \<noteq> []"
  shows "\<exists>pick. f pick w' = None"
  using assms
proof (induction rs arbitrary: w)
  case (Cons r rs)
  let ?v = "(env_round r w)\<lparr>w_future := rs\<rparr>"
  show ?case
  proof (cases "f (r_pick r) ?v")
    case None
    then show ?thesis
      using Cons.prems(1) Cons.IH [of ?v] Cons.prems(2) by (cases rs) (auto simp: Let_def)
  next
    case (Some x)
    then show ?thesis using Cons.prems(1,2) by (auto simp: Let_def)
  qed
qed simp

lemma select_none: "select pick xs = None \<longleftrightarrow> xs = []"
  by (simp add: select_def)

lemma yield_future: "yieldP w = (r, w') \<Longrightarrow> length (w_future w) \<le> Suc (length (w_future w')) \<and> (\<exists>a. r = Ok a)"
  by (auto simp: yieldP_def split: list.splits)

lemma SubscribeP_future:
  assumes "SubscribeP p t since w = (r, w')"
  shows "length (w_future w) \<le> length (w_future w') + 2 \<and> (\<exists>i. r = Ok i)"
  using assms
  by (auto simp: SubscribeP_def bindP_def getsP_def thenP_def clientP_def modifyP_def returnP_def yieldP_def
      split: list.splits res.splits prod.splits)

lemma cancelP_ok': "\<exists>w'. cancelP p i w = (Ok (), w')"
  by (auto simp: cancelP_def bindP_def getsP_def thenP_def modifyP_def returnP_def yieldP_def split: list.split)

lemma subscribed_pending:
  assumes "bindP (SubscribeP p t since) (\<lambda>i. deferP (body i) (cancelP p i)) w = (Pending, w')"
  shows "\<exists>i v. length (w_future w) \<le> length (w_future v) + 2 \<and> body i v = (Pending, w')"
proof -
  obtain i v where s: "SubscribeP p t since w = (Ok i, v)" using SubscribeP_future [of p t since w] by (metis surj_pair)
  obtain r u where b: "body i v = (r, u)" by force
  obtain x where "cancelP p i u = (Ok (), x)" using cancelP_ok' by blast
  then have "r = Pending \<and> u = w'"
    using assms s b by (cases r) (auto simp: bindP_def deferP_def tryP_def thenP_def raiseP_def returnP_def)
  then show ?thesis using SubscribeP_future [OF s] b by auto
qed

lemma event_case_res: "(res, w') \<in> set (event_case p i k w) \<Longrightarrow> \<exists>x. res = k x"
  by (auto simp: event_case_def split: option.splits)

text \<open>C10. A wait for a stop that has a deadline does not outlast it: if it is still blocked when the rounds are used
  up, then the deadline has not passed and the request was not cancelled.  Six of the rounds go to the three
  subscriptions.\<close>

theorem wait_for_stop_is_bounded:
  assumes "awaitStopOrTerminate (CtxReq (Some d)) p since w = (Pending, w')" and "6 < length (w_future w)"
  shows "w_now w' < d \<and> \<not> w_cancelled w'"
proof -
  have nop: "stop_ready (CtxReq (Some d)) p i t l pick v \<noteq> Some (Pending, x)" for i t l pick v x
    by (auto dest!: select_in event_case_res simp: stop_ready_def ctx_case_def stopped_result_def terminated_result_def
        lost_result_def split: option.splits dap_event.splits if_splits)
  obtain i1 v1 where "length (w_future w) \<le> length (w_future v1) + 2"
     "bindP (SubscribeP p TerminatedT since) (\<lambda>termSub. deferP (
      bindP (SubscribeP p ConnectionLostT since) (\<lambda>lostSub. deferP (
       blockP (stop_ready (CtxReq (Some d)) p i1 termSub lostSub)) (cancelP p lostSub))) (cancelP p termSub)) v1 = (Pending, w')"
    using subscribed_pending [OF assms(1) [unfolded awaitStopOrTerminate_def]] by blast
  moreover from subscribed_pending [OF this(2)] obtain i2 v2 where "length (w_future v1) \<le> length (w_future v2) + 2"
     "bindP (SubscribeP p ConnectionLostT since) (\<lambda>lostSub. deferP (
       blockP (stop_ready (CtxReq (Some d)) p i1 i2 lostSub)) (cancelP p lostSub)) v2 = (Pending, w')" by blast
  moreover from subscribed_pending [OF this(2)] obtain i3 v3 where "length (w_future v2) \<le> length (w_future v3) + 2"
     "blockP (stop_ready (CtxReq (Some d)) p i1 i2 i3) v3 = (Pending, w')" by blast
  ultimately have "w_future v3 \<noteq> []" "wait_rounds (stop_ready (CtxReq (Some d)) p i1 i2 i3) (w_future v3) v3 = (Pending, w')"
    using assms(2) by (auto simp: blockP_def)
  from wait_pending [OF this(2) nop this(1)] obtain pick where "stop_ready (CtxReq (Some d)) p i1 i2 i3 pick w' = None"
    by blast
  then have "ctx_case (CtxReq (Some d)) w' = ([] :: (stop_or_term res \<times> world) list)"
    by (simp add: stop_ready_def select_none)
  then show ?thesis by (auto simp: ctx_case_def split: if_splits option.splits)
qed

lemma run_res: "fst r = x \<Longrightarrow> r = (x, snd r)"
  by (cases r) simp

definition later :: "nat \<Rightarrow> round" where
  "later dt = \<lparr>r_dt = dt, r_acts = [], r_pick = 0\<rparr>"

definition demo_waiting :: world where
  "demo_waiting = demo_world demo_session (replicate 8 quiet)"

theorem wait_for_stop_is_bounded_witness:
  "w_now (snd (awaitStopOrTerminate (CtxReq (Some 1000)) 0 0 demo_waiting)) < 1000"
proof -
  have "fst (awaitStopOrTerminate (CtxReq (Some 1000)) 0 0 demo_waiting) = Pending" by code_simp
  moreover have "length (w_future demo_waiting) = 8" by (simp add: demo_waiting_def demo_world_def)
  ultimately show ?thesis
    using wait_for_stop_is_bounded [OF run_res, of 1000 0 0 demo_waiting] by simp
qed


subsection \<open>Reconnecting\<close>

lemma block_cases:
  assumes "blockP f w = (r, w')" "\<And>pick v x. f pick v \<noteq> Some (Pending, x)"
  shows "(\<exists>pick v. f pick v = Some (r, w') \<and> length (w_future v) < length (w_future w))
    \<or> (r = Pending \<and> (w_future w = [] \<and> w' = w \<or> (\<exists>pick. f pick w' = None)))"
proof -
  have "wait_rounds f rs v = (r, w') \<Longrightarrow> (\<exists>pick u. f pick u = Some (r, w') \<and> length (w_future u) < length rs)
    \<or> (r = Pending \<and> (rs = [] \<and> w' = v \<or> (\<exists>pick. f pick w' = None)))" for rs v
  proof (induction rs arbitrary: v)
    case (Cons x rs)
    let ?v = "(env_round x v)\<lparr>w_future := rs\<rparr>"
    show ?case
    proof (cases "f (r_pick x) ?v")
      case None
      then have "wait_rounds f rs ?v = (r, w')" using Cons.prems by (simp add: Let_def)
      from Cons.IH [OF this] show ?thesis using None by (auto intro: less_SucI)
    next
      case (Some y)
      then have "f (r_pick x) ?v = Some (r, w')" using Cons.prems by (simp add: Let_def)
      then show ?thesis by (intro disjI1 exI [of _ "r_pick x"] exI [of _ ?v]) simp
    qed
  qed simp
  from this [of "w_future w" w] show ?thesis using assms(1) by (simp add: blockP_def)
qed

definition poll_ready :: "int \<Rightarrow> nat \<Rightarrow> world \<Rightarrow> (unit res \<times> world) option" where
  "poll_ready t0 pick w = select pick
     (ctx_case base_ctx w @ (if t0 + poll_interval \<le> w_now w then [(Ok (), w)] else []))"

lemma poll_ready_some: "poll_ready t0 pick v = Some (r, x) \<Longrightarrow> x = v \<and> (r = Ok () \<and> t0 + poll_interval \<le> w_now v \<or> r = Er Canceled \<and> w_cancelled v)"
  by (auto dest!: select_in simp: poll_ready_def ctx_case_def base_ctx_def split: if_splits)

lemma poll_ready_none: "poll_ready t0 pick v = None \<Longrightarrow> w_now v < t0 + poll_interval"
  by (auto simp: poll_ready_def select_none split: if_splits)

text \<open>One turn: it ends the loop, or at least the poll interval has passed, or it is cancelled or still waiting.\<close>

lemma poll_turn_cases:
  assumes "poll_turn p deadline w = (r, w')"
  shows "(r = Ok (Inr ()) \<and> w' = w \<and> (\<not> c_stale (cl w p) \<or> deadline \<le> w_now w))
    \<or> (c_stale (cl w p) \<and> w_now w < deadline \<and>
        (r = Ok (Inl ()) \<and> length (w_future w') < length (w_future w)
         \<or> r = Er Canceled \<and> w_cancelled w'
         \<or> r = Pending \<and> w_now w' < deadline + poll_interval))"
proof (cases "c_stale (cl w p) \<and> w_now w < deadline")
  case True
  obtain b v where b: "blockP (poll_ready (w_now w)) w = (b, v)" by force
  have nop: "poll_ready (w_now w) pick u \<noteq> Some (Pending, x)" for pick u x by (auto dest: poll_ready_some)
  have run: "(r, w') = (case b of Ok _ \<Rightarrow> Ok (Inl ()) | Er e \<Rightarrow> Er e | Pending \<Rightarrow> Pending | Panic \<Rightarrow> Panic, v)"
    using assms True b
    by (cases b) (simp_all add: poll_turn_def bindP_def getsP_def nowP_def returnP_def poll_ready_def [abs_def])
  have i: "0 < poll_interval" by (simp add: poll_interval_def)
  from block_cases [OF b nop] show ?thesis
    using True run i by (fastforce dest!: poll_ready_some poll_ready_none)
next
  case False
  then show ?thesis using assms by (auto simp: poll_turn_def bindP_def getsP_def returnP_def)
qed

lemma poll_loop_cases:
  assumes "loop_fuel n (\<lambda>_. poll_turn p deadline) () w = (r, w')" "length (w_future w) < n"
  shows "(r = Ok () \<and> (\<not> c_stale (cl w' p) \<or> deadline \<le> w_now w')) \<or> (r = Er Canceled \<and> w_cancelled w')
    \<or> (r = Pending \<and> w_now w' < deadline + poll_interval)"
  using assms
proof (induction n arbitrary: w)
  case (Suc n)
  obtain x v where t: "poll_turn p deadline w = (x, v)" by force
  show ?case
    using poll_turn_cases [OF t] Suc.prems Suc.IH [of v] t
    by (auto simp: bindP_def returnP_def)
qed simp

text \<open>C9. The polling loop of \<open>reconnect\<close> ends: it returns when the connection has recovered or the deadline has
  passed, it gives up when the request is cancelled, and it is still waiting only before the deadline and one
  polling interval.  The number of rounds left is always enough fuel for it.\<close>

theorem poll_stale_ends:
  assumes "poll_stale p deadline w = (res, w')"
  shows "case res of
      Ok _ \<Rightarrow> \<not> c_stale (cl w' p) \<or> deadline \<le> w_now w'
    | Er e \<Rightarrow> e = Canceled \<and> w_cancelled w'
    | Pending \<Rightarrow> w_now w' < deadline + poll_interval
    | Panic \<Rightarrow> False"
  using poll_loop_cases [of "Suc (length (w_future w))" p deadline w res w'] assms
  by (auto simp: poll_stale_def loopP_def simp del: loop_fuel.simps)

lemmas demo_runs = demo_world_def demo_session_def initial_session_def later_def quiet_def acts_round_def
  upd_cl_def cl_def markStale_def stale_cas_def reconn_signal_def demo_start_def Start_def startReadLoop_def SetReinitHook_def
  newDAPClientInternal_def loopP_def bindP_def getsP_def modifyP_def returnP_def nowP_def blockP_def yieldP_def env_round_def select_def
  base_ctx_def Let_def

definition demo_stale :: world where
  "demo_stale = upd_cl 0 markStale (demo_world demo_session [later 100000000])"

lemma demo_stale_run: "fst (poll_stale 0 100000050 demo_stale) = Ok ()"
  by (simp add: demo_stale_def demo_runs poll_stale_def poll_turn_def ctx_case_def poll_interval_def)

theorem poll_stale_ends_witness:
  "let w' = snd (poll_stale 0 100000050 demo_stale) in \<not> c_stale (cl w' 0) \<or> 100000050 \<le> w_now w'"
  using poll_stale_ends [OF run_res [OF demo_stale_run]] by (simp add: Let_def)

definition says_stale :: "string \<Rightarrow> bool" where
  \<open>says_stale t = has_prefix t ''{"status":"still_reconnecting"''\<close>

lemma says_stale_texts:
  "says_stale (still_reconnecting_text s a e b)" "\<not> says_stale healthy_text" "\<not> says_stale (recovered_text t c)"
  by (simp_all add: says_stale_def still_reconnecting_text_def healthy_text_def recovered_text_def has_prefix_def)

lemma reconnect_status_truth:
  assumes "reconnect_status p start before w = (res, w')"
  shows "\<exists>t. res = Ok (Some t) \<and> w' = w \<and> (c_stale (cl w p) \<longleftrightarrow> says_stale t)"
  using assms says_stale_texts
  by (auto simp: reconnect_status_def bindP_def nowP_def getsP_def textP_def returnP_def Let_def split: if_splits)

text \<open>C11. What \<open>reconnect\<close> reports is true when it reports it: it says that the connection is still being
  re-established exactly when the client is stale, and then the waiting time is over; every other answer comes
  from a client that is not stale.\<close>

theorem reconnect_reports_truth:
  assumes "ds_client (w_ds w) = Some p" and "reconnect force secs w = (Ok r, w')"
  shows "\<exists>t. r = Some t \<and> (c_stale (cl w' p) \<longleftrightarrow> says_stale t)"
proof -
  have lock: "withLock (dsP (\<lambda>ds. (ds_client ds, ds_backend ds))) w = (Ok (Some p, ds_backend (w_ds w)), w\<lparr>w_locked := False\<rparr>)"
    using assms(1) by (simp add: withLock_eq dsP_def getsP_def)
  have stat: "\<exists>t. r = Some t \<and> (c_stale (cl w' p) \<longleftrightarrow> says_stale t)"
    if "reconnect_status p start before v = (Ok r, w')" for start before v
    using reconnect_status_truth [OF that] by auto
  show ?thesis
    using assms(2) stat says_stale_texts(2)
    unfolding reconnect_def bindP_Ok [of "withLock _"] lock
    by (auto simp: bindP_Ok thenP_def raiseP_def staleP_def getsP_def textP_def returnP_def nowP_def split: if_splits)
qed

definition demo_reconnect :: world where
  "demo_reconnect = demo_world demo_session [quiet, later 2000000000]"

theorem reconnect_reports_truth_witness:
  "\<exists>t. fst (reconnect True 1 demo_reconnect) = Ok (Some t)
    \<and> (c_stale (cl (snd (reconnect True 1 demo_reconnect)) 0) \<longleftrightarrow> says_stale t)"
proof -
  have c: "ds_client (w_ds demo_reconnect) = Some 0"
    by (simp add: demo_reconnect_def demo_session_def)
  have "case fst (reconnect True 1 demo_reconnect) of Ok r \<Rightarrow> True | _ \<Rightarrow> False"
    by (simp add: demo_reconnect_def demo_runs reconnect_def poll_stale_def poll_turn_def ctx_case_def poll_interval_def dsP_def getsP_def
      thenP_def markStaleP_def staleP_def reconnect_status_def textP_def withLock_eq clamp_timeout_def seconds_def
      second_def wrap64_def supports_redial_def)
  then obtain r where r: "fst (reconnect True 1 demo_reconnect) = Ok r" by (auto split: res.splits)
  from reconnect_reports_truth [OF c run_res [OF r]] r show ?thesis by auto
qed

subsection \<open>Timeouts\<close>

lemma seconds_exact: "0 \<le> n \<Longrightarrow> n \<le> 9223372036 \<Longrightarrow> seconds n = n * second"
  unfolding seconds_def by (rule wrap64_id) (simp add: in_int64_def int64_min_def int64_max_def second_def)

text \<open>C34. The timeout of \<open>wait-for-stop\<close> and \<open>reconnect\<close> is between 1 and 300 seconds, so its conversion to
  nanoseconds is exact.  That of \<open>step\<close> has no upper bound: it is exact up to 9223372036 seconds, and one second more
  makes the duration negative.\<close>

theorem timeouts_are_exact:
  "1 \<le> clamp_timeout n \<and> clamp_timeout n \<le> 300 \<and> seconds (clamp_timeout n) = clamp_timeout n * second
   \<and> seconds (step_timeout (min n 9223372036)) = step_timeout (min n 9223372036) * second
   \<and> seconds (step_timeout 9223372037) < 0"
proof -
  have "seconds (step_timeout 9223372037) < 0" by code_simp
  moreover have "1 \<le> clamp_timeout n \<and> clamp_timeout n \<le> 300" by (simp add: clamp_timeout_def Let_def)
  moreover from this have "seconds (clamp_timeout n) = clamp_timeout n * second" by (intro seconds_exact) auto
  moreover have "seconds (step_timeout (min n 9223372036)) = step_timeout (min n 9223372036) * second"
    by (rule seconds_exact) (auto simp: step_timeout_def)
  ultimately show ?thesis by blast
qed

subsection \<open>Responses\<close>

text \<open>C20. What \<open>AwaitResponse\<close> returns is a response message, to the request it was called for.\<close>

theorem await_returns_own_response:
  assumes "world_ok w" and "p < length (w_clients w)" and "AwaitResponse ctx p seq w = (Ok msg, w')"
  shows "\<exists>r. msg = ResponseMessage r \<and> rs_seq r = seq"
  using hoare_D(1) [OF AwaitResponse_ok [OF live_admissible], of p w ctx seq msg w'] assms by (auto simp: live_def)

definition demo_await :: world where
  "demo_await = (demo_world demo_session [quiet, accepts 0 1 verified])\<lparr>w_clients := [demo_request]\<rparr>"

theorem await_returns_own_response_witness:
  "\<exists>r. fst (AwaitResponse base_ctx 0 1 demo_await) = Ok (ResponseMessage r) \<and> rs_seq r = 1"
proof -
  have w: "world_ok demo_await" "0 < length (w_clients demo_await)"
    by (auto simp: world_ok_def demo_await_def demo_world_def demo_session_def cl_def reachable_demo_request)
  have "case fst (AwaitResponse base_ctx 0 1 demo_await) of Ok r \<Rightarrow> True | _ \<Rightarrow> False" by code_simp
  then obtain r where r: "fst (AwaitResponse base_ctx 0 1 demo_await) = Ok r" by (auto split: res.splits)
  from await_returns_own_response [OF w run_res [OF r]] r show ?thesis by auto
qed

text \<open>C19. A response that readLoop holds while its waiter is already waiting is received by the waiter two steps of readLoop
  later.\<close>

theorem response_reaches_waiter:
  assumes "reachable c" and "c_pump c = PRespond r" and "await_lookup (rs_seq r) c = Some a"
  shows "\<exists>c'. await_receive a (pump_step InGo b' t' (pump_step InGo b t c)) = Some (Inr (ResponseMessage r), c')"
proof -
  have c1: "c_pump (pump_step InGo b t c) = PDeliver a r"
    using assms(2,3) by (auto simp: pump_step_def pump_goto_def take_response_def await_lookup_def split: option.splits)
  have "reachable (pump_step InGo b t c)" by (rule reach_step [OF assms(1) sys_pump])
  from reg_invD(4) [OF reachable_reg_inv [OF this], of a] c1 have "fresh_chan (pump_step InGo b t c) a" by simp
  then show ?thesis
    using c1 by (simp add: pump_step_def [of InGo b' t'] pump_goto_def chan_send_def Let_def fresh_chan_def new_rchan_def
        rchan_cap_def await_receive_def)
qed

definition demo_responding :: client where
  "demo_responding = run_pump [InGo, InGo, InMsg (ResponseMessage demo_response)] demo_request"

theorem response_reaches_waiter_witness:
  "\<exists>c'. await_receive 0 (pump_step InGo False 0 (pump_step InGo False 0 demo_responding))
    = Some (Inr (ResponseMessage demo_response), c')"
proof -
  have r: "reachable demo_responding"
    unfolding demo_responding_def by (intro reachable_run_pump reachable_demo_request)
  have h: "c_pump demo_responding = PRespond demo_response" "await_lookup (rs_seq demo_response) demo_responding = Some 0"
    by code_simp+
  show ?thesis by (rule response_reaches_waiter [OF r h])
qed

subsection \<open>Pausing\<close>


definition demo_pause :: "env_act list \<Rightarrow> world" where
  "demo_pause acts = demo_world demo_session ([quiet, quiet, accepts 0 1 (OtherR []), acts_round acts]
     @ replicate 6 quiet @ [acts_round (arrives 0 (EventMessage TerminatedEvent) @ bridges 0 1)] @ replicate 3 quiet)"


end
