(* ===== verification/ControlProperties.thy ===== *)
theory ControlProperties
  imports WaitProperties
begin

text \<open>
  What the tools that run the program do to breakpoints, and what a refused \<open>debug\<close> call does to a session.
\<close>

subsection \<open>Run to cursor\<close>

text \<open>\<open>continue\<close> with a target that names neither a function nor a file and a line is \<open>continue\<close> without a
  target.\<close>

theorem continue_to_nothing:
  assumes "bs_function t = []" and "bs_file t = [] \<or> bs_line t \<le> 0"
  shows "continueExecution threadID (Some t) = continueExecution threadID None"
  using assms by (auto simp: continueExecution_def set_cursor_def Let_def)

theorem continue_to_nothing_witness:
  "continueExecution 0 (Some \<lparr>bs_file = ''a.go'', bs_line = 0, bs_function = []\<rparr>) = continueExecution 0 None"
  by (rule continue_to_nothing) simp_all

lemma cursor_plan:
  assumes "bs_function t = []" "bs_file t \<noteq> []" "0 < bs_line t"
  shows "plan w0 p s (set_cursor p t) [SetBreakpoints (bs_file t) [bs_line t]]"
proof -
  have "plan w0 p s (bindP (request p (SetBreakpoints (bs_file t) [bs_line t])) (\<lambda>seq.
      awaitResponseValidate base_ctx p seq ''unable to set run-to-cursor breakpoint'')) [SetBreakpoints (bs_file t) [bs_line t]]"
    by (rule plan_ask, rule plan_validate)
  then show ?thesis using assms by (simp add: set_cursor_def SetBreakpointsRequest_def Let_def)
qed

text \<open>C33. Running to a line sends that line alone for its file: the adapter then has no other breakpoint there, whatever
  the session has recorded, and the session does not change.\<close>

theorem continue_to_replaces_breakpoints:
  assumes "world_ok w" and "ds_client (w_ds w) = Some p" and "bs_function t = []" and "bs_file t \<noteq> []" and "0 < bs_line t"
    and "continueExecution threadID (Some t) w = (Ok r, w')"
  shows "sent w' p = sent w p @ [SetBreakpoints (bs_file t) [bs_line t], Continue (pick_thread threadID (w_ds w))]
    \<and> w_ds w' = w_ds w \<and> ad_lines (adapter_after (sent w' p) ad) (bs_file t) = [bs_line t]"
proof -
  have run: "withLock (withClient (\<lambda>p. thenP (set_cursor p t) (bindP (dsP (pick_thread threadID)) (\<lambda>tid.
     bindP (request p (Continue tid)) (\<lambda>seq. thenP (awaitResponseValidate base_ctx p seq ''continue failed'') (
     textP (running_text tid))))))) w = (Ok r, w')"
    using assms(6) by (simp add: continueExecution_def ContinueRequest_def)
  have "did w p [SetBreakpoints (bs_file t) [bs_line t], Continue (pick_thread threadID (w_ds w))] (\<lambda>ds. ds) (Ok r) w'"
  proof (rule handler_plan [OF assms(1,2) run])
    fix w0 :: world and s assume w0: "w_ds w0 = w_ds w"
    have "plan w0 p s (thenP (set_cursor p t) (bindP (dsP (pick_thread threadID)) (\<lambda>tid.
     bindP (request p (Continue tid)) (\<lambda>seq. thenP (awaitResponseValidate base_ctx p seq ''continue failed'') (
     textP (running_text tid)))))) ([SetBreakpoints (bs_file t) [bs_line t]] @ [Continue (pick_thread threadID (w_ds w0))])"
      by (rule plan_then [OF cursor_plan [OF assms(3-5)]], rule plan_ds_ask, rule plan_checked)
    then show "plan w0 p s (thenP (set_cursor p t) (bindP (dsP (pick_thread threadID)) (\<lambda>tid.
     bindP (request p (Continue tid)) (\<lambda>seq. thenP (awaitResponseValidate base_ctx p seq ''continue failed'') (
     textP (running_text tid)))))) [SetBreakpoints (bs_file t) [bs_line t], Continue (pick_thread threadID (w_ds w))]"
      by (simp add: w0)
  qed
  then show ?thesis by (simp add: did_def)
qed

definition demo_cursor :: breakpointSpec where
  "demo_cursor = \<lparr>bs_file = ''a.go'', bs_line = 9, bs_function = []\<rparr>"

definition demo_continue :: world where
  "demo_continue = demo_world (demo_session\<lparr>ds_breakpoints := [(''a.go'', [3])]\<rparr>)
     [quiet, quiet, accepts 0 1 verified, quiet, quiet, accepts 0 2 (OtherR [])]"

theorem continue_to_replaces_breakpoints_witness:
  "sent (snd (continueExecution 0 (Some demo_cursor) demo_continue)) 0 = [SetBreakpoints ''a.go'' [9], Continue 1]"
proof -
  have w: "world_ok demo_continue" "ds_client (w_ds demo_continue) = Some 0"
    by (simp_all add: demo_continue_def demo_world_ok demo_session_def)
  have t: "bs_function demo_cursor = []" "bs_file demo_cursor \<noteq> []" "0 < bs_line demo_cursor"
    by (simp_all add: demo_cursor_def)
  have "case fst (continueExecution 0 (Some demo_cursor) demo_continue) of Ok r \<Rightarrow> True | _ \<Rightarrow> False" by code_simp
  then obtain r where r: "fst (continueExecution 0 (Some demo_cursor) demo_continue) = Ok r"
    by (auto split: res.splits)
  from continue_to_replaces_breakpoints [OF w t run_res [OF r]]
  show ?thesis
    by (simp add: demo_cursor_def demo_continue_def demo_session_def initial_session_def pick_thread_def defaultThreadID_def)
qed

subsection \<open>Initial breakpoints\<close>

lemma adapter_initial: "adapter_after (initial_cmds bp) ad = (if bs_function bp \<noteq> [] then ad\<lparr>ad_functions := [bs_function bp]\<rparr>
    else if bs_file bp \<noteq> [] \<and> 0 < bs_line bp then ad\<lparr>ad_lines := (ad_lines ad)(bs_file bp := [bs_line bp])\<rparr> else ad)"
  by (simp add: initial_cmds_def)



subsection \<open>Failed starts\<close>

definition refusal :: "debugParams \<Rightarrow> session \<Rightarrow> err option" where
  "refusal dp ds = (case debug_mode (ds_backend ds) (dp_mode dp) of
      Inl e \<Rightarrow> Some e
    | Inr mode \<Rightarrow> check_params (is_connect (ds_backend ds)) mode dp)"

definition unreachable :: "debugParams \<Rightarrow> world \<Rightarrow> err \<Rightarrow> bool" where
  "unreachable dp w e \<longleftrightarrow> refusal dp (w_ds w) = None \<and> \<not> is_connect (ds_backend (w_ds w))
     \<and> (\<exists>b addr. select_backend (w_gdb w) dp = Inr b \<and> TransportMode b = ''tcp''
          \<and> Spawn b (exec_of dp w) = Spawned True addr
          \<and> (\<exists>d. w_dial w addr = Inr d \<and> e = ErrWrap (''connecting to DAP server at '' @ addr @ '': '') d))"

lemma debug_after_cleanup:
  assumes "world_ok w" "debug dp w = (res, w')" "res \<noteq> Pending"
  obtains v where "cleaned w v" "w_locked v" "w_exec v = w_exec w" "w_gdb v = w_gdb w" "w_dial v = w_dial w"
    "(res, w') = (case bindP (prepare dp) (\<lambda>(mode, b). bindP (spawnP b dp) (\<lambda>listenAddr.
      bindP (connect_client b listenAddr) (\<lambda>p. thenP (startP p) (bindP (handshake p b mode dp) (\<lambda>since.
      thenP stampP (thenP registerSessionTools (first_result p mode dp since))))))) v of
        (Ok a, u) \<Rightarrow> (Ok a, u\<lparr>w_locked := False\<rparr>) | (Er e, u) \<Rightarrow> (Er e, u\<lparr>w_locked := False\<rparr>)
      | (Pending, u) \<Rightarrow> (Pending, u) | (Panic, u) \<Rightarrow> (Panic, u))"
proof -
  obtain r v where c: "cleanup (w\<lparr>w_locked := True\<rparr>) = (r, v)" by force
  note D = hoare_D [OF cleanup_cleans [where E = "\<lambda>_ _. False"] still_enter [OF assms(1)], where w' = v]
  show ?thesis
  proof (cases r)
    case (Ok a)
    show ?thesis
      by (rule that [of v])
         (use D(1) [of a] c Ok assms(2) in \<open>simp_all add: debug_def withLock_eq thenP_def bindP_def [of cleanup]\<close>)
  qed (use D c assms(2,3) in \<open>auto simp: debug_def withLock_eq thenP_def bindP_def [of cleanup]\<close>)
qed

lemma refused_prepare:
  assumes "cleaned w v" "refusal dp (w_ds w) = Some e" shows "prepare dp v = (Er e, v)"
proof -
  have "ds_backend (w_ds v) = ds_backend (w_ds w)" using assms(1) by (simp add: cleaned_def reset_session_def)
  then show ?thesis
    using assms(2) by (auto simp: refusal_def prepare_def dsP_def getsP_def bindP_def liftP_def raiseP_def returnP_def split: sum.splits)
qed

lemma unreachable_connect:
  assumes "cleaned w v" "unreachable dp w e" "w_exec v = w_exec w" "w_gdb v = w_gdb w" "w_dial v = w_dial w"
  obtains b where "bindP (prepare dp) (\<lambda>(mode, b). bindP (spawnP b dp) (\<lambda>listenAddr. bindP (connect_client b listenAddr) (k mode b))) v
    = (Er e, upd_ds (\<lambda>ds. ds\<lparr>ds_backend := Some b, ds_cmd := True\<rparr>) (v\<lparr>w_procs := Suc (w_procs v)\<rparr>))"
proof -
  obtain b addr d where b: "select_backend (w_gdb w) dp = Inr b" "TransportMode b = ''tcp''"
      "Spawn b (exec_of dp w) = Spawned True addr" "w_dial w addr = Inr d"
      "e = ErrWrap (''connecting to DAP server at '' @ addr @ '': '') d"
    using assms(2) by (auto simp: unreachable_def)
  obtain mode where m: "debug_mode (ds_backend (w_ds w)) (dp_mode dp) = Inr mode" "\<not> is_connect (ds_backend (w_ds w))"
      "check_params False mode dp = None"
    using assms(2) by (auto simp: unreachable_def refusal_def split: sum.splits)
  have bk: "ds_backend (w_ds v) = ds_backend (w_ds w)" using assms(1) by (simp add: cleaned_def reset_session_def)
  let ?v = "upd_ds (\<lambda>ds. ds\<lparr>ds_backend := Some b\<rparr>) v"
  have p: "prepare dp v = (Ok (mode, b), ?v)"
    using b(1) m assms(4) by (simp add: bk prepare_def dsP_def getsP_def bindP_def liftP_def returnP_def thenP_def setP_def modifyP_def)
  have s: "spawnP b dp ?v = (Ok addr, upd_ds (\<lambda>ds. ds\<lparr>ds_cmd := True\<rparr>) (?v\<lparr>w_procs := Suc (w_procs v)\<rparr>))"
    using b(3) assms(3) by (simp add: spawnP_def exec_of_def bindP_def getsP_def thenP_def modifyP_def returnP_def)
  have d: "connect_client b addr u = (Er e, u)" if "w_dial u = w_dial w" for u
    using b(2,4,5) that by (simp add: connect_client_def bindP_def getsP_def newDAPClient_def liftP_def raiseP_def)
  show ?thesis
    by (rule that [of b]) (simp add: bindP_def [of "prepare dp"] p bindP_def [of "spawnP b dp"] s bindP_def [of "connect_client b addr"] d
        assms(5), simp add: upd_ds_def)
qed


definition demo_rejected :: world where
  "demo_rejected = demo_world (demo_session\<lparr>ds_backend := None\<rparr>)
     [acts_round [APump 0 InGo False, APump 0 InGo False]]"


end
