(* ===== verification/BreakpointRefinement.thy ===== *)
theory BreakpointRefinement
  imports BreakpointProperties
begin

text \<open>
  The contract of the breakpoint tools, as a locale over an abstract set of breakpoints, and the refinement: the
  session's record and the adapter both implement it under every sequence of successful calls.
\<close>

subsection \<open>What a store of breakpoints promises\<close>

type_synonym bp_set = "(string \<times> int) set \<times> string set"

datatype bp_op = AddLine string int | AddFunction string | ClearFile string | ClearAll

fun bp_spec :: "bp_op \<Rightarrow> bp_set \<Rightarrow> bp_set" where
  "bp_spec (AddLine f l) (ls, fs) = (if f = [] \<or> l = 0 then ls else insert (f, l) ls, fs)"
| "bp_spec (AddFunction g) (ls, fs) = (ls, if g = [] then fs else insert g fs)"
| "bp_spec (ClearFile f) (ls, fs) = ({x \<in> ls. fst x \<noteq> f}, fs)"
| "bp_spec ClearAll s = ({}, {})"

locale breakpoint_store =
  fixes apply_op :: "bp_op \<Rightarrow> 's \<Rightarrow> 's"
    and view :: "'s \<Rightarrow> bp_set"
  assumes refines: "view (apply_op op s) = bp_spec op (view s)"
begin

lemma refines_all: "view (fold apply_op ops s) = fold bp_spec ops (view s)"
  by (induction ops arbitrary: s) (simp_all add: refines)

lemma added_stays:
  assumes "f \<noteq> []" "l \<noteq> 0" "ClearAll \<notin> set ops" "ClearFile f \<notin> set ops"
  shows "(f, l) \<in> fst (view (fold apply_op ops (apply_op (AddLine f l) s)))"
proof -
  have keep: "(f, l) \<in> fst (bp_spec op v)" if "(f, l) \<in> fst v" "op \<noteq> ClearAll" "op \<noteq> ClearFile f" for op v
    using that by (cases "(op, v)" rule: bp_spec.cases) auto
  have "(f, l) \<in> fst v \<Longrightarrow> (f, l) \<in> fst (fold bp_spec ops v)" for v
    using assms(3,4)
  proof (induction ops arbitrary: v)
    case (Cons op ops)
    have "(f, l) \<in> fst (bp_spec op v)" using keep [OF Cons.prems(1), of op] Cons.prems(2,3) by auto
    from Cons.IH [OF this] Cons.prems(2,3) show ?case by simp
  qed simp
  moreover have "(f, l) \<in> fst (view (apply_op (AddLine f l) s))"
    using assms(1,2) by (cases "view s") (simp add: refines)
  ultimately show ?thesis by (simp add: refines_all)
qed

end

subsection \<open>The session and the adapter are stores\<close>

definition session_bps :: "session \<Rightarrow> bp_set" where
  "session_bps ds = ({(f, l). l \<in> set (lines_of ds f)}, set (ds_functionBreakpoints ds))"

fun session_op :: "bp_op \<Rightarrow> session \<Rightarrow> session" where
  "session_op (AddLine f l) ds = breakpoint_session f l [] ds"
| "session_op (AddFunction g) ds = breakpoint_session [] 0 g ds"
| "session_op (ClearFile f) ds = ds\<lparr>ds_breakpoints := AList.delete f (ds_breakpoints ds)\<rparr>"
| "session_op ClearAll ds = ds\<lparr>ds_breakpoints := [], ds_functionBreakpoints := []\<rparr>"

lemma lines_of_nil: "lines_of (ds\<lparr>ds_breakpoints := []\<rparr>) = (\<lambda>_. [])"
  by (rule ext) (simp add: lines_of_def)

interpretation session_store: breakpoint_store session_op session_bps
proof unfold_locales
  fix op ds
  show "session_bps (session_op op ds) = bp_spec op (session_bps ds)"
    by (cases op) (auto simp: session_bps_def breakpoint_session_def lines_of_update lines_of_delete lines_of_nil
        add_function_def split: if_splits)
qed

definition adapter_bps :: "adapter \<Rightarrow> bp_set" where
  "adapter_bps ad = ({(f, l). l \<in> set (ad_lines ad f)}, set (ad_functions ad))"

lemma adapter_agrees: "agree ds ad \<Longrightarrow> adapter_bps ad = session_bps ds"
  by (simp add: agree_def adapter_bps_def session_bps_def)

fun bp_tool :: "bp_op \<Rightarrow> string option prog" where
  "bp_tool (AddLine f l) = breakpoint f l []"
| "bp_tool (AddFunction g) = breakpoint [] 0 g"
| "bp_tool (ClearFile f) = clearBreakpoints f False"
| "bp_tool ClearAll = clearBreakpoints [] True"

lemma clear_file_did:
  assumes "world_ok w" "ds_client (w_ds w) = Some p" "file \<noteq> []" "clearBreakpoints file False w = (res, w')"
  shows "did w p [SetBreakpoints file []] (\<lambda>ds. ds\<lparr>ds_breakpoints := AList.delete file (ds_breakpoints ds)\<rparr>) res w'"
proof (rule handler_did [OF assms(1,2)])
  let ?body = "\<lambda>p. thenP (clear_file p file) (
       thenP (setP (\<lambda>ds. ds\<lparr>ds_breakpoints := AList.delete file (ds_breakpoints ds)\<rparr>)) (
       textP (''Cleared breakpoints in: '' @ file)))"
  show "withLock (withClient ?body) w = (res, w')"
    using assms(3,4) by (simp add: clearBreakpoints_def)
  have "effect w0 p s (?body p) ([SetBreakpoints file []] @ [])
      (\<lambda>ds. ds\<lparr>ds_breakpoints := AList.delete file (ds_breakpoints ds)\<rparr>)" for w0 s
    by (rule effect_then [OF clear_file_plan], rule effect_text_set) simp
  then show "effect w0 p s (?body p) [SetBreakpoints file []]
      (\<lambda>ds. ds\<lparr>ds_breakpoints := AList.delete file (ds_breakpoints ds)\<rparr>)" for w0 s
    by simp
qed

text \<open>Every tool call, as one effect whose session part is the operation.\<close>

definition bp_cmds :: "world \<Rightarrow> bp_op \<Rightarrow> command list" where
  "bp_cmds w op = (case op of
      AddLine f l \<Rightarrow> breakpoint_cmds (w_ds w) f l []
    | AddFunction g \<Rightarrow> breakpoint_cmds (w_ds w) [] 0 g
    | ClearFile f \<Rightarrow> [SetBreakpoints f []]
    | ClearAll \<Rightarrow> map (\<lambda>x. SetBreakpoints (fst x) []) (map_order w (ds_breakpoints (w_ds w))) @ [SetFunctionBreakpoints []])"

lemma clear_nothing:
  "ds_client (w_ds w) = Some p \<Longrightarrow> clearBreakpoints [] False w
    = (Er (ErrNew (''specify 'file' or 'all'' @ [CHR 0x27])), w\<lparr>w_locked := False\<rparr>)"
  by (simp add: clearBreakpoints_def withLock_eq withClient_def dsP_def bindP_def getsP_def raiseP_def)

lemma bp_tool_did:
  assumes "world_ok w" "ds_client (w_ds w) = Some p" "bp_tool op w = (res, w')"
  shows "did w p (bp_cmds w op) (session_op op) res w'"
proof (cases op)
  case (ClearFile f)
  show ?thesis
  proof (cases "f = []")
    case True
    then have "res = Er (ErrNew (''specify 'file' or 'all'' @ [CHR 0x27])) \<and> w' = w\<lparr>w_locked := False\<rparr>"
      using assms(3) clear_nothing [OF assms(2)] ClearFile by simp
    then show ?thesis using assms(1) by (simp add: did_def world_ok_def sent_def cl_def)
  next
    case False
    then show ?thesis using clear_file_did [OF assms(1,2) False] assms(3) ClearFile by (simp add: bp_cmds_def session_op.simps [abs_def])
  qed
qed (use assms(3) breakpoint_did [OF assms(1,2)] clear_all_did [OF assms(1,2)] in \<open>auto simp: bp_cmds_def session_op.simps [abs_def]\<close>)

lemma agree_bp:
  assumes "agree (w_ds w) ad"
  shows "agree (session_op op (w_ds w)) (adapter_after (bp_cmds w op) ad)"
proof (cases op)
  case ClearAll
  have "lines_of (w_ds w) f = []" if "f \<notin> fst ` set (ds_breakpoints (w_ds w))" for f
    using that by (simp add: lines_of_def map_of_eq_None_iff [THEN iffD2])
  then show ?thesis
    using assms by (auto simp: ClearAll bp_cmds_def agree_def clear_files_adapter lines_of_nil map_order_def fun_eq_iff)
qed (use assms agree_breakpoint [OF assms] in \<open>auto simp: bp_cmds_def agree_def lines_of_delete\<close>)

text \<open>A sequence of calls.\<close>

definition bp_tools :: "bp_op list \<Rightarrow> unit prog" where
  "bp_tools ops = forP ops (\<lambda>op. bindP (bp_tool op) (\<lambda>_. returnP ()))"

lemma session_op_client: "ds_client (session_op op ds) = ds_client ds"
  by (cases op) (simp_all add: breakpoint_session_def)

lemma bp_tools_session:
  assumes "world_ok w" "ds_client (w_ds w) = Some p" "agree (w_ds w) (adapter_after (sent w p) ad)"
    "bp_tools ops w = (Ok (), w')"
  shows "w_ds w' = fold session_op ops (w_ds w) \<and> agree (w_ds w') (adapter_after (sent w' p) ad)"
  using assms
proof (induction ops arbitrary: w)
  case (Cons op ops)
  then obtain a v where v: "bp_tool op w = (Ok a, v)" "bp_tools ops v = (Ok (), w')"
    by (auto simp: bp_tools_def thenP_def bindP_Ok returnP_def)
  note b = bp_tool_did [OF Cons.prems(1,2) v(1)]
  have "w_ds v = session_op op (w_ds w)" "sent v p = sent w p @ bp_cmds w op" "world_ok v"
    using didD(1,3) [OF b] by auto
  with Cons.IH [OF _ _ _ v(2)] agree_bp [OF Cons.prems(3), of op] Cons.prems(2) show ?case
    by (auto simp: session_op_client)
qed (simp add: bp_tools_def returnP_def)

text \<open>C4. The breakpoint tools implement a set of lines and a set of functions: any sequence of successful calls leaves
  in the session exactly the breakpoints that the specification computes, and the adapter has the same.\<close>

theorem breakpoint_tools_refine_sets:
  assumes "world_ok w" and "ds_client (w_ds w) = Some p" and "agree (w_ds w) (adapter_after (sent w p) ad)"
    and "bp_tools ops w = (Ok (), w')"
  shows "session_bps (w_ds w') = fold bp_spec ops (session_bps (w_ds w))
    \<and> adapter_bps (adapter_after (sent w' p) ad) = session_bps (w_ds w')"
  using bp_tools_session [OF assms] adapter_agrees [of "w_ds w'"] session_store.refines_all [of ops "w_ds w"] by auto

theorem breakpoint_tools_refine_sets_witness:
  "session_bps (w_ds (snd (bp_tools [AddLine ''a.go'' 7, AddLine ''a.go'' 7] demo_line))) = ({(''a.go'', 3), (''a.go'', 7)}, {})"
proof -
  have "fst (bp_tools [AddLine ''a.go'' 7, AddLine ''a.go'' 7] demo_line) = Ok ()" by code_simp
  then have run: "bp_tools [AddLine ''a.go'' 7, AddLine ''a.go'' 7] demo_line
      = (Ok (), snd (bp_tools [AddLine ''a.go'' 7, AddLine ''a.go'' 7] demo_line))"
    by (rule run_Ok)
  have s: "session_bps (w_ds demo_line) = ({(''a.go'', 3)}, {})"
    by (auto simp: session_bps_def lines_of_def demo_line_facts(3,4) demo_session_def initial_session_def split: if_splits)
  from breakpoint_tools_refine_sets [OF demo_line_facts(1,2) demo_line_agrees(1) run] s show ?thesis by auto
qed

text \<open>A breakpoint that was set successfully is still recorded, and known to the adapter, after any further
  successful calls that clear neither its file nor everything.\<close>

theorem breakpoint_stays_until_cleared:
  assumes "world_ok w" and "ds_client (w_ds w) = Some p" and "agree (w_ds w) (adapter_after (sent w p) ad)"
    and "file \<noteq> []" and "line \<noteq> 0" and "ClearAll \<notin> set ops" and "ClearFile file \<notin> set ops"
    and "bp_tools (AddLine file line # ops) w = (Ok (), w')"
  shows "line \<in> set (lines_of (w_ds w') file) \<and> line \<in> set (ad_lines (adapter_after (sent w' p) ad) file)"
  using bp_tools_session [OF assms(1-3,8)] session_store.added_stays [OF assms(4-7), of "w_ds w"]
  by (auto simp: session_bps_def agree_def)

definition demo_two :: world where
  "demo_two = demo_world (demo_session\<lparr>ds_breakpoints := [(''a.go'', [3])]\<rparr>)
     [quiet, quiet, accepts 0 1 verified, quiet, quiet, accepts 0 2 verified]"

theorem breakpoint_stays_until_cleared_witness:
  "7 \<in> set (lines_of (w_ds (snd (bp_tools [AddLine ''a.go'' 7, ClearFile ''b.go''] demo_two))) ''a.go'')"
proof -
  have w: "world_ok demo_two" "ds_client (w_ds demo_two) = Some 0"
      "agree (w_ds demo_two) (adapter_after (sent demo_two 0) agreed)"
    by (auto simp: demo_two_def demo_world_ok demo_session_def agree_def agreed_def initial_session_def lines_of_def)
  have "fst (bp_tools [AddLine ''a.go'' 7, ClearFile ''b.go''] demo_two) = Ok ()" by code_simp
  then have run: "bp_tools [AddLine ''a.go'' 7, ClearFile ''b.go''] demo_two
      = (Ok (), snd (bp_tools [AddLine ''a.go'' 7, ClearFile ''b.go''] demo_two))"
    by (rule run_Ok)
  show ?thesis
    using breakpoint_stays_until_cleared [OF w _ _ _ _ run] by simp
qed


end
