(* ===== verification/Format.thy ===== *)
theory Format
  imports Prelude
begin

text \<open>
  Go's \<^verbatim>\<open>fmt.Sprintf\<close> for the verbs that \<^verbatim>\<open>prompts.go\<close> and \<^verbatim>\<open>main.go\<close> use (\<^verbatim>\<open>%s\<close> with strings,
  \<^verbatim>\<open>%d\<close> with integers), with the texts it prints for a missing, a surplus or a mistyped argument.  When the
  arguments fit the format the result is the literal text with the arguments in the gaps.
\<close>

datatype fmt_arg = FStr string | FInt int

fun arg_text :: "fmt_arg \<Rightarrow> string" where
  "arg_text (FStr s) = s"
| "arg_text (FInt n) = itoa n"

fun arg_show :: "fmt_arg \<Rightarrow> string" where
  "arg_show (FStr s) = ''string='' @ s"
| "arg_show (FInt n) = ''int='' @ itoa n"

fun verb_fits :: "char \<Rightarrow> fmt_arg \<Rightarrow> bool" where
  "verb_fits v (FStr s) \<longleftrightarrow> v = CHR ''s''"
| "verb_fits v (FInt n) \<longleftrightarrow> v = CHR ''d''"

definition extra_text :: "fmt_arg list \<Rightarrow> string" where
  "extra_text as = (if as = [] then []
     else ''%!(EXTRA '' @ arg_show (hd as) @ concat (map (\<lambda>a. '', '' @ arg_show a) (tl as)) @ '')'')"

definition bad_verb :: "char \<Rightarrow> fmt_arg \<Rightarrow> string" where
  "bad_verb v a = ''%!'' @ [v] @ ''('' @ arg_show a @ '')''"

definition missing_text :: "char \<Rightarrow> string" where
  "missing_text v = ''%!'' @ [v] @ ''(MISSING)''"

fun sprintf :: "string \<Rightarrow> fmt_arg list \<Rightarrow> string" where
  "sprintf [] as = extra_text as"
| "sprintf (c # fs) as =
     (if c \<noteq> CHR ''%'' then c # sprintf fs as
      else case fs of
          [] \<Rightarrow> ''%!(NOVERB)'' @ extra_text as
        | v # gs \<Rightarrow>
            if v = CHR ''%'' then CHR ''%'' # sprintf gs as
            else (case as of
                [] \<Rightarrow> missing_text v @ sprintf gs []
              | a # bs \<Rightarrow> (if verb_fits v a then arg_text a else bad_verb v a) @ sprintf gs bs))"

declare sprintf.simps(2) [simp del]

text \<open>The verbs of a format, read from left to right; the flag is set after a percent sign.\<close>

fun verb_step :: "bool \<times> string \<Rightarrow> char \<Rightarrow> bool \<times> string" where
  "verb_step (False, vs) c = (c = CHR ''%'', vs)"
| "verb_step (True, vs) c = (False, if c = CHR ''%'' then vs else vs @ [c])"

definition verbs :: "string \<Rightarrow> bool \<times> string" where
  "verbs f = foldl verb_step (False, []) f"

text \<open>The arguments fit: every verb has its argument, every argument its verb.\<close>

definition fits :: "string \<Rightarrow> fmt_arg list \<Rightarrow> bool" where
  "fits f as \<longleftrightarrow> \<not> fst (verbs f) \<and> list_all2 verb_fits (snd (verbs f)) as"

lemma verbs_acc: "foldl verb_step (q, vs) f = (fst (foldl verb_step (q, []) f), vs @ snd (foldl verb_step (q, []) f))"
proof (induction f arbitrary: q vs)
  case (Cons c f)
  show ?case
    using Cons.IH [of True vs] Cons.IH [of False vs] Cons.IH [of False "vs @ [c]"] Cons.IH [of False "[c]"]
    by (cases q; cases "c = CHR ''%''") simp_all
qed simp

lemma fits_simps:
  "fits [] as \<longleftrightarrow> as = []"
  "fits (c # fs) as \<longleftrightarrow>
     (if c \<noteq> CHR ''%'' then fits fs as
      else case fs of
          [] \<Rightarrow> False
        | v # gs \<Rightarrow>
            if v = CHR ''%'' then fits gs as
            else (case as of [] \<Rightarrow> False | a # bs \<Rightarrow> verb_fits v a \<and> fits gs bs))"
  by (auto simp: fits_def verbs_def verbs_acc [of False "[_]"] split: list.splits)

text \<open>A literal is a format without a percent sign.\<close>

definition plain :: "string \<Rightarrow> bool" where
  "plain s \<longleftrightarrow> CHR ''%'' \<notin> set s"

lemma plain_fits: "plain s \<Longrightarrow> fits s []"
  by (induction s) (auto simp: plain_def fits_simps)

lemma sprintf_append:
  "fits f as \<Longrightarrow> sprintf (f @ g) (as @ bs) = sprintf f as @ sprintf g bs"
proof (induction f as rule: sprintf.induct)
  case (2 c fs as)
  then show ?case
    by (cases fs) (auto simp: sprintf.simps(2) [of c] fits_simps(2) [of c] split: list.splits if_splits)
qed (simp add: extra_text_def fits_simps)

lemma fits_append: "fits f as \<Longrightarrow> fits (f @ g) (as @ bs) = fits g bs"
proof (induction f as rule: sprintf.induct)
  case (2 c fs as)
  then show ?case
    by (cases fs) (auto simp: fits_simps(2) [of c] split: list.splits if_splits)
qed (simp add: fits_simps)

lemma sprintf_plain: "plain s \<Longrightarrow> sprintf s [] = s"
  by (induction s) (auto simp: plain_def sprintf.simps(2) extra_text_def)

lemma sprintf_literal: "plain s \<Longrightarrow> sprintf (s @ g) as = s @ sprintf g as"
  using sprintf_append [OF plain_fits, of s g as] sprintf_plain [of s] by simp

lemma sprintf_string: "sprintf (''%s'' @ g) (FStr s # as) = s @ sprintf g as"
  by (simp add: sprintf.simps(2))

lemma sprintf_int: "sprintf (''%d'' @ g) (FInt n # as) = itoa n @ sprintf g as"
  by (simp add: sprintf.simps(2))

text \<open>The literal text between the verbs, and putting the arguments back between it.\<close>

fun gaps :: "string \<Rightarrow> string list" where
  "gaps [] = [[]]"
| "gaps (c # fs) =
     (if c \<noteq> CHR ''%'' then (case gaps fs of [] \<Rightarrow> [[c]] | l # ls \<Rightarrow> (c # l) # ls)
      else case fs of
          [] \<Rightarrow> [[]]
        | v # gs \<Rightarrow>
            if v = CHR ''%'' then (case gaps gs of [] \<Rightarrow> [[v]] | l # ls \<Rightarrow> (v # l) # ls)
            else [] # gaps gs)"

declare gaps.simps(2) [simp del]

fun fill :: "string list \<Rightarrow> string list \<Rightarrow> string" where
  "fill (l # ls) (a # as) = l @ a @ fill ls as"
| "fill ls [] = concat ls"
| "fill [] as = []"

lemma gaps_not_nil [simp]: "gaps f \<noteq> []"
proof (induction f rule: gaps.induct)
  case (2 c fs)
  then show ?case by (cases fs) (auto simp: gaps.simps(2) [of c] split: list.splits)
qed simp

lemma fill_cons: "fill ((c # l) # ls) as = c # fill (l # ls) as"
  by (cases as) simp_all

lemma sprintf_fill:
  "fits f as \<Longrightarrow> length (gaps f) = Suc (length as) \<and> sprintf f as = fill (gaps f) (map arg_text as)"
proof (induction f as rule: sprintf.induct)
  case (2 c fs as)
  then show ?case
    by (cases fs) (auto simp: sprintf.simps(2) [of c] fits_simps(2) [of c] gaps.simps(2) [of c] fill_cons
        split: list.splits if_splits)
qed (simp add: extra_text_def fits_simps)

end
