(* ===== verification/Prompts.thy ===== *)
theory Prompts
  imports Format Debug
begin

text \<open>
  \<^verbatim>\<open>prompts.go\<close>: the four debugging workflows the server offers as prompts.  The format strings are
  those of the source, one definition per section of the workflow, as the bytes of their UTF-8 encoding; the
  texts are built from them and the arguments of the request with \<open>sprintf\<close>.  The calls that a text spells
  are read back from it and compared with the tools and their parameters.
\<close>

subsection \<open>Format strings\<close>

definition compile_note_format :: string where
  \<open>compile_note_format = unlines [
     [],
     ''> **Note:** GDB does not support 'source' mode. Compile first with debug symbols:'',
     ''> - C: `gcc -g -O0 -o myprogram %s`'',
     ''> - C++: `g++ -g -O0 -o myprogram %s`''] @ ''> Then use 'binary' mode with the compiled output path.''\<close>

definition breakpoints_format :: string where
  \<open>breakpoints_format = unlines [
     [],
     ''### Optional: Pre-set breakpoints'',
     ''The following breakpoints were requested: `%s`'',
     [],
     ''Include them in the debug call:'',
     ''```json'',
     ''{'',
     ''  "mode": "%s",'',
     ''  "path": "%s",'',
     ''  "debugger": "%s",'',
     ''  "breakpoints": ['',
     ''    {"file": "/abs/path/to/file.go", "line": 42}'',
     ''  ]'',
     ''}''] @ ''```''\<close>

definition source_intro :: string where
  \<open>source_intro = unlines [
     ''## Live Source Debug Session'',
     [],
     ''You are debugging a **%s** program from source.%s'',
     [],
     ''**Program path:** `%s`'',
     [],
     ''---'',
     []]\<close>

definition source_step1 :: string where
  \<open>source_step1 = unlines [
     ''### Step 1: Start the debug session'',
     [],
     ''Call: `debug(mode="%s", path="%s", debugger="%s")`'',
     ''%s'',
     ''Expected output: The debugger starts and either stops at entry or waits at a breakpoint. You will see a stack trace and local variables.'',
     [],
     ''**If the debug tool fails:**'',
     ''- Check that `%s` is installed and in `$PATH`'',
     ''- For Go: ensure the path points to a .go file or directory with a `main` package'',
     ''- For C/C++: compile with -g -O0 first, then use binary mode'',
     [],
     ''---'',
     []]\<close>

definition source_step2 :: string where
  \<open>source_step2 = unlines [
     ''### Step 2: Set strategic breakpoints'',
     [],
     ''Before running, identify the most useful locations:'',
     ''- Entry points to the function or logic area of interest'',
     ''- Error handling paths'',
     ''- State transitions'',
     [],
     ''Call: `breakpoint(file="/abs/path/to/file", line=N)`'',
     ''Or by function: `breakpoint(function="packageName.FunctionName")`'',
     [],
     ''---'',
     []]\<close>

definition source_step3 :: string where
  \<open>source_step3 = unlines [
     ''### Step 3: Run to the first interesting point '' @ emdash @ '' **two-step pattern**'',
     [],
     ''`continue` is non-blocking (v0.2.0+): it returns immediately with a "running" status JSON. To receive the stop event, call `wait-for-stop` next.'',
     [],
     ''Call: `continue()`'',
     ''Then call: `wait-for-stop(timeoutSec=30, pauseIfTimeout=true)`'',
     [],
     ''Expected: `wait-for-stop` returns full context when the program hits'',
     ''the breakpoint. With `pauseIfTimeout=true`, a pause is issued on timeout'',
     ''and the current stopped context is returned so you can inspect where the'',
     ''program got stuck.'',
     [],
     ''Output includes:'',
     ''- **Location**: file, line, function name'',
     ''- **Stack trace**: full call chain'',
     ''- **Variables**: locals and their current values'',
     [],
     ''**When to use a subagent:** if the breakpoint needs an external trigger'',
     ''(HTTP request, browser navigation) that may take > 60s, dispatch'',
     ''`wait-for-stop` to a subagent via the Agent tool so your main agent can'',
     ''issue the trigger in parallel.'',
     [],
     ''**What to look for:**'',
     ''- Are variable values what you expect at this point?'',
     ''- Is the call stack reasonable, or is something unexpected calling this function?'',
     [],
     ''---'',
     []]\<close>

definition source_step4 :: string where
  \<open>source_step4 = unlines [
     ''### Step 4: Inspect state'',
     [],
     ''Call: `context()` at any time to refresh the current location, stack, and variables.'',
     [],
     ''Call: `evaluate(expression="variableName")` to inspect specific values:'',
     ''- Struct fields: `evaluate(expression="user.Address.City")`'',
     ''- Slice/array elements: `evaluate(expression="items[0]")`'',
     ''- Computed expressions: `evaluate(expression="len(queue)")`'',
     [],
     ''---'',
     []]\<close>

definition source_step5 :: string where
  \<open>source_step5 = unlines [
     ''### Step 5: Step through logic'',
     [],
     ''- `step(mode="over")` '' @ emdash @ '' execute current line, staying in the same function'',
     ''- `step(mode="in")` '' @ emdash @ '' step into a function call'',
     ''- `step(mode="out")` '' @ emdash @ '' run until the current function returns'',
     [],
     ''**Decision guide:**'',
     ''- See an unexpected value? Step _in_ to the function that produced it'',
     ''- At a line that doesn't matter? Step _over_ it'',
     ''- Deep in a call you don't care about? Step _out_'',
     [],
     ''---'',
     []]\<close>

definition source_step6 :: string where
  \<open>source_step6 = unlines [
     ''### Step 6: Check threads (if concurrent program)'',
     [],
     ''Call: `info(kind="threads")`'',
     [],
     ''Look for: goroutines/threads in unexpected states, goroutines blocked on channels or mutexes.'',
     [],
     ''---'',
     []]\<close>

definition source_step7 :: string where
  \<open>source_step7 = unlines [
     ''### Step 7: Identify the root cause'',
     [],
     ''By now you should be able to answer:'',
     ''1. What is the actual (incorrect) value, and where did it come from?'',
     ''2. What condition or code path led to this state?'',
     ''3. Is this a logic error, a missing nil check, an off-by-one, a race condition, or something else?'',
     [],
     ''State your findings clearly: **"The bug is at [file:line]. [Variable] has value [X] when it should be [Y] because [reason]."**'',
     [],
     ''---'',
     []]\<close>

definition source_step8 :: string where
  \<open>source_step8 = unlines [
     ''### Step 8: Clean up'',
     [],
     ''Call: `stop()`'']\<close>

definition source_format :: string where
  "source_format = source_intro @ source_step1 @ source_step2 @ source_step3 @ source_step4 @ source_step5 @ source_step6 @ source_step7 @ source_step8"

definition attach_intro :: string where
  \<open>attach_intro = unlines [
     ''## Live Attach Debug Session'',
     [],
     ''You are attaching to a **running process** to diagnose its live behavior.%s'',
     [],
     ''**Target PID:** `%s`'',
     [],
     ''> **Important:** The process continues running after you attach. You are observing live state.'',
     ''> Be careful: setting breakpoints in a production process will pause it for all users.'',
     [],
     ''---'',
     []]\<close>

definition attach_step1 :: string where
  \<open>attach_step1 = unlines [
     ''### Step 1: Attach to the process'',
     [],
     ''Two sub-cases of attach '' @ emdash @ '' pick the one matching your setup:'',
     [],
     ''**(a) LOCAL attach by PID:**'',
     ''Call: `debug(mode="attach", processId=%s)`'',
     [],
     ''**(b) PRE-CONNECTED (remote k8s via ConnectBackend):**'',
     ''If this mcp-dap-server was started with `--connect` / `DAP_CONNECT_ADDR` (the wrapper script `dlv-k8s-mcp.sh` does this automatically), the remote dlv in the pod already owns the target. Call:'',
     ''`debug(mode="attach")` '' @ emdash @ '' no processId, no port.'',
     [],
     ''If you cannot tell which sub-case applies: try (b) first; if you get `processId is required for attach mode` the setup is (a) and you need the PID.'',
     [],
     ''Expected (both sub-cases, v0.2.1+): the call returns immediately with a readiness message. The debuggee is already running; no stop event will arrive until a breakpoint is hit by an external trigger.'',
     [],
     ''**If attach fails:**'',
     ''- Sub-case (a): verify the PID, check `ptrace_scope` (`cat /proc/sys/kernel/yama/ptrace_scope`), try with elevated permissions, confirm the process hasn't exited.'',
     ''- Sub-case (b): tail `/tmp/mcp-dap-server.<ns>-<svc>.latest.log` '' @ emdash @ '' the startup banner should read `ConnectBackend mode, target localhost:NNNNN`. If it's missing, you're accidentally in (a); ask the operator.'',
     [],
     ''---'',
     []]\<close>

definition attach_step2 :: string where
  \<open>attach_step2 = unlines [
     ''### Step 2: Understand what the process was doing'',
     [],
     ''Immediately after attach, call: `context()`'',
     [],
     ''Look for:'',
     ''- **Current location**: What function/file is it in?'',
     ''- **Stack trace**: What sequence of calls led here?'',
     ''- **Variables**: What are the current local values?'',
     [],
     ''If the process was in a system call or blocking operation, the stack will show that.'',
     [],
     ''---'',
     []]\<close>

definition attach_step3 :: string where
  \<open>attach_step3 = unlines [
     ''### Step 3: Check all threads'',
     [],
     ''Call: `info(kind="threads")`'',
     [],
     ''This is especially important for concurrent programs. Look for:'',
     ''- Threads blocked on the same mutex (potential deadlock)'',
     ''- Threads in unexpected functions'',
     ''- Unexpectedly high thread counts'',
     [],
     ''For each suspicious thread, inspect it:'',
     ''Call: `context(threadId=<ID>)`'',
     [],
     ''---'',
     []]\<close>

definition attach_step4 :: string where
  \<open>attach_step4 = unlines [
     ''### Step 4: Set targeted breakpoints (carefully)'',
     [],
     ''Only set breakpoints if you have a specific hypothesis to test.'',
     [],
     ''Call: `breakpoint(function="packageName.FunctionName")`'',
     [],
     ''Then resume (non-blocking): `continue()`'',
     ''And wait for the breakpoint: `wait-for-stop(timeoutSec=60, pauseIfTimeout=true)`'',
     [],
     ''The process resumes; `wait-for-stop` returns full context when the'',
     ''breakpoint is hit. Inspect state at that point.'',
     [],
     ''---'',
     []]\<close>

definition attach_step5 :: string where
  \<open>attach_step5 = unlines [
     ''### Step 5: Diagnose the issue'',
     [],
     ''Common attach scenarios and what to look for:'',
     [],
     ''**High CPU usage:**'',
     ''- Pause several times with `pause()` + `context()`'',
     ''- Which function keeps appearing in the stack? That's likely the hot path.'',
     ''- Look for tight loops, repeated work, or missing caches.'',
     [],
     ''**Memory leak:**'',
     ''- Check variables for large collections, caches without eviction, or accumulating slices.'',
     ''- Use `evaluate()` to check sizes: `evaluate(expression="len(cache)")`'',
     [],
     ''**Deadlock / hang:**'',
     ''- All threads should show where they're blocked'',
     ''- Look for goroutines stuck in channel operations or mutexes'',
     ''- Check if any goroutine holds a lock that another is waiting for'',
     [],
     ''**Unexpected behavior:**'',
     ''- Set a breakpoint at the function exhibiting the behavior'',
     ''- Inspect inputs and internal state'',
     [],
     ''---'',
     []]\<close>

definition attach_step6 :: string where
  \<open>attach_step6 = unlines [
     ''### Step 6: Conclude and detach'',
     [],
     ''State your findings: **"The process is [doing X] because [reason]. The issue is [description]."**'',
     [],
     ''To **terminate** the process: `stop()`'',
     ''To **detach** (leave the process running): `stop(detach=true)`'',
     [],
     ''> Use detach when you want to observe without disrupting the process long-term.'']\<close>

definition attach_format :: string where
  "attach_format = attach_intro @ attach_step1 @ attach_step2 @ attach_step3 @ attach_step4 @ attach_step5 @ attach_step6"

definition signalGuide :: string where
  \<open>signalGuide = unlines [
     [],
     ''**Signal interpretation:**'',
     ''- `SIGSEGV` (segfault) '' @ emdash @ '' nil pointer dereference, use-after-free, buffer overflow, stack overflow'',
     ''- `SIGABRT` '' @ emdash @ '' explicit abort, assertion failure, double-free (C/C++), runtime panic (Go)'',
     ''- `SIGFPE` '' @ emdash @ '' arithmetic error: division by zero, integer overflow'',
     ''- `SIGBUS` '' @ emdash @ '' misaligned memory access, unmapped file region'',
     ''- `SIGILL` '' @ emdash @ '' illegal CPU instruction (often compiler bug or corrupted binary)''] @ ''- `SIGPIPE` '' @ emdash @ '' write to closed pipe/socket with no signal handler''\<close>

definition core_intro :: string where
  \<open>core_intro = unlines [
     ''## Post-Mortem Core Dump Analysis'',
     [],
     ''You are analyzing a **crash captured in a core dump**. Execution is frozen at the moment of the crash '' @ emdash @ '' you cannot step forward, but you have full access to the crashed state.'',
     [],
     ''**Program:** `%s`'',
     ''**Core dump:** `%s`'',
     ''**Debugger:** %s'',
     [],
     ''> This is read-only analysis. You cannot change execution '' @ emdash @ '' only observe the crashed state.'',
     [],
     ''---'',
     []]\<close>

definition core_step1 :: string where
  \<open>core_step1 = unlines [
     ''### Step 1: Start the core dump session'',
     [],
     ''Call: `debug(mode="core", path="%s", coreFilePath="%s", debugger="%s")`'',
     [],
     ''Expected: The debugger loads the core dump and positions at the crash frame. You will see the crash location, stack trace, and local variables.'',
     [],
     ''**If loading fails:**'',
     ''- Ensure the binary matches the core dump exactly (same build, not rebuilt after crash)'',
     ''- Check file paths are absolute and readable'',
     ''- For Go: ensure Delve is installed (`dlv version`)'',
     ''- For C/C++: ensure GDB 14+ is installed (`gdb -i dap`)'',
     [],
     ''---'',
     []]\<close>

definition core_step2 :: string where
  \<open>core_step2 = unlines [
     ''### Step 2: Understand the crash location'',
     [],
     ''Call: `context()`'',
     [],
     ''This is your most important call. Look for:'',
     ''- **Crash function**: What function was executing when the crash occurred?'',
     ''- **File and line**: Exact source location of the crash'',
     ''- **Local variables**: What values were present at the crash frame?'',
     ''- **Stack trace**: The full call chain leading to the crash'',
     ''%s'',
     [],
     ''---'',
     []]\<close>

definition core_step3 :: string where
  \<open>core_step3 = unlines [
     ''### Step 3: Examine the crash frame variables'',
     [],
     ''Look at every variable in the crash frame:'',
     ''- Are any pointers nil? A nil dereference causes SIGSEGV.'',
     ''- Are indices within bounds? Out-of-bounds access can cause SIGSEGV.'',
     ''- Are any values nonsensical (e.g., negative size, huge number)? Suggests corruption.'',
     [],
     ''Use `evaluate(expression="varName")` to inspect variables not shown in context, or to drill into nested fields:'',
     ''- `evaluate(expression="err.Error()")`'',
     ''- `evaluate(expression="request.Body")`'',
     ''- `evaluate(expression="items[idx]")`'',
     [],
     ''---'',
     []]\<close>

definition core_step4 :: string where
  \<open>core_step4 = unlines [
     ''### Step 4: Walk up the call stack'',
     [],
     ''Each frame in the stack trace tells part of the story. For each suspicious frame:'',
     [],
     ''1. Use `context(frameId=<N>)` to inspect variables in that frame'',
     ''2. Look for: what argument was passed to the crashing function? Was it already invalid?'',
     ''3. Ask: could the caller have passed a nil/invalid value?'',
     [],
     ''Work backwards from the crash until you find where the bad value originated.'',
     [],
     ''---'',
     []]\<close>

definition core_step5 :: string where
  \<open>core_step5 = unlines [
     ''### Step 5: Check other threads / goroutines'',
     [],
     ''Call: `info(kind="threads")`'',
     [],
     ''In multi-threaded programs, the crash may be triggered by another thread's action (race condition). Look for:'',
     ''- Other threads at suspicious locations'',
     ''- Threads that may have corrupted shared state'',
     [],
     ''For each interesting thread: `context(threadId=<ID>)`'',
     [],
     ''---'',
     []]\<close>

definition core_step6 :: string where
  \<open>core_step6 = unlines [
     ''### Step 6: Formulate your conclusion'',
     [],
     ''Answer these questions:'',
     ''1. **What crashed?** (function, file, line)'',
     ''2. **Why did it crash?** (nil pointer, invalid index, assertion failure, etc.)'',
     ''3. **What bad value caused it?** (which variable, what value it had)'',
     ''4. **Where did that bad value come from?** (trace back through the call stack)'',
     ''5. **What is the root cause?** (missing nil check, logic error, race condition, etc.)'',
     [],
     ''**Pattern recognition:**'',
     ''- `SIGSEGV` on field access '' @ arrow @ '' check if the containing struct pointer is nil'',
     ''- `SIGSEGV` in memory allocation '' @ arrow @ '' heap corruption (often from earlier use-after-free)'',
     ''- `SIGABRT` in Go '' @ arrow @ '' runtime panic (check the panic message in variables)'',
     ''- `SIGABRT` in C '' @ arrow @ '' double-free, assert(), or explicit abort()'',
     ''- Very deep stack '' @ arrow @ '' infinite recursion (check for missing base case)'',
     ''- Stack frame count = 1 in a goroutine '' @ arrow @ '' goroutine was running C code or in a syscall'',
     [],
     ''---'',
     []]\<close>

definition core_step7 :: string where
  \<open>core_step7 = unlines [
     ''### Step 7: Clean up'',
     [],
     ''Call: `stop()`'']\<close>

definition core_format :: string where
  "core_format = core_intro @ core_step1 @ core_step2 @ core_step3 @ core_step4 @ core_step5 @ core_step6 @ core_step7"

definition debuggerNote :: string where
  \<open>debuggerNote = unlines [
     ''Use 'delve' for Go binaries, 'gdb' for C/C++/Rust binaries.'',
     ''> - Go binary: `debug(mode="binary", path="...", debugger="delve")`''] @ ''> - C/C++ binary: `debug(mode="binary", path="...", debugger="gdb")`''\<close>

definition binary_intro :: string where
  \<open>binary_intro = unlines [
     ''## Binary / Assembly-Level Debug Session'',
     [],
     ''You are debugging a **compiled binary without source context**. You will work primarily with disassembled instructions, registers, and memory addresses.'',
     [],
     ''**Binary:** `%s`'',
     [],
     ''> %s'',
     [],
     ''---'',
     []]\<close>

definition binary_step1 :: string where
  \<open>binary_step1 = unlines [
     ''### Step 1: Start the binary debug session'',
     [],
     ''Call: `debug(mode="binary", path="%s", stopOnEntry=true)`'',
     [],
     ''Using `stopOnEntry=true` pauses immediately so you can orient yourself before execution proceeds.'',
     [],
     ''Expected: The debugger stops at the binary entry point or `main`. You will see the current instruction address and possibly a stack trace.'',
     [],
     ''---'',
     []]\<close>

definition binary_step2 :: string where
  \<open>binary_step2 = unlines [
     ''### Step 2: Get your bearings'',
     [],
     ''Call: `context()`'',
     [],
     ''Even without source, this shows:'',
     ''- **Current location**: function name and address (e.g., `main.main at 0x004012a0`)'',
     ''- **Stack trace**: the call chain with instruction pointer addresses'',
     ''- **Variables**: any debug info that exists in the binary'',
     [],
     ''Note the `instructionPointerReference` (memory address) from the stack trace '' @ emdash @ '' you will use this for disassembly.'',
     [],
     ''---'',
     []]\<close>

definition binary_step3 :: string where
  \<open>binary_step3 = unlines [
     ''### Step 3: Disassemble around the current location'',
     [],
     ''Call: `disassemble(address="0x<instructionPointerReference>", count=30)`'',
     [],
     ''Read the assembly output:'',
     ''- Identify the instruction sequence (what is the function doing?)'',
     ''- Look for `call` instructions (function calls)'',
     ''- Look for `cmp`/`test` + conditional jumps (branch logic)'',
     ''- Look for `mov` with memory operands (data access)'',
     [],
     ''---'',
     []]\<close>

definition binary_step4 :: string where
  \<open>binary_step4 = unlines [
     ''### Step 4: Set breakpoints by address or function'',
     [],
     ''By function name (if debug symbols exist):'',
     ''Call: `breakpoint(function="main.processRequest")`'',
     [],
     ''By address (no symbols needed):'',
     ''Call: `breakpoint(function="*0x00401234")`'',
     [],
     ''> For GDB: you can use `*0xADDR` syntax to break at an absolute address.'',
     [],
     ''---'',
     []]\<close>

definition binary_step5 :: string where
  \<open>binary_step5 = unlines [
     ''### Step 5: Step through assembly'',
     [],
     ''Use `step(mode="in")` to step one instruction at a time (at assembly level, each step may be one machine instruction).'',
     [],
     ''After each step, call `context()` to see the new instruction pointer location.'',
     [],
     ''**What to track:**'',
     ''- Register values (available via `evaluate(expression="$rax")` in GDB sessions)'',
     ''- Memory at specific addresses: `evaluate(expression="*(int*)0xADDR")`'',
     ''- Stack pointer and frame pointer movement'',
     [],
     ''---'',
     []]\<close>

definition binary_step6 :: string where
  \<open>binary_step6 = unlines [
     ''### Step 6: Inspect memory and registers'',
     [],
     ''Call: `evaluate(expression="$rsp")` '' @ emdash @ '' current stack pointer'',
     ''Call: `evaluate(expression="$rip")` '' @ emdash @ '' current instruction pointer'',
     ''Call: `evaluate(expression="$rax")` '' @ emdash @ '' return value register (x86-64)'',
     [],
     ''For memory: `evaluate(expression="*(long*)0x<address>")`'',
     [],
     ''**Calling convention reminders (x86-64 System V):**'',
     ''- Function args: rdi, rsi, rdx, rcx, r8, r9 (in order)'',
     ''- Return value: rax'',
     ''- Preserved: rbx, rbp, r12-r15'',
     ''- Scratch: rax, rcx, rdx, rsi, rdi, r8-r11'',
     [],
     ''---'',
     []]\<close>

definition binary_step7 :: string where
  \<open>binary_step7 = unlines [
     ''### Step 7: Use disassembly to understand logic'',
     [],
     ''When you see a branch or call you want to understand:'',
     ''1. Disassemble the target: `disassemble(address="0x<target>", count=40)`'',
     ''2. Set a breakpoint there, then `continue()` followed by `wait-for-stop('' @ ellipsis @ '')`'',
     ''3. Inspect register/memory state at that point'',
     [],
     ''**Common patterns:**'',
     ''- `call malloc` '' @ arrow @ '' memory allocation; check return in rax for NULL'',
     ''- `test rax, rax; je` '' @ arrow @ '' null check'',
     ''- `cmp [rsp+N], 0; jle` '' @ arrow @ '' bounds or sign check'',
     ''- `rep stos` '' @ arrow @ '' memset-like loop'',
     [],
     ''---'',
     []]\<close>

definition binary_step8 :: string where
  \<open>binary_step8 = unlines [
     ''### Step 8: Formulate findings'',
     [],
     ''After analysis, state:'',
     ''1. **What the binary does** at the function/address of interest'',
     ''2. **Where the issue is** (address, instruction, logic)'',
     ''3. **What the expected vs actual behavior is**'',
     [],
     ''---'',
     []]\<close>

definition binary_step9 :: string where
  \<open>binary_step9 = unlines [
     ''### Step 9: Clean up'',
     [],
     ''Call: `stop()`'']\<close>

definition binary_format :: string where
  "binary_format = binary_intro @ binary_step1 @ binary_step2 @ binary_step3 @ binary_step4 @ binary_step5 @ binary_step6 @ binary_step7 @ binary_step8 @ binary_step9"

subsection \<open>The prompts\<close>

text \<open>A Go map of strings answers the empty string for an absent key.\<close>

definition argument :: "(string \<times> string) list \<Rightarrow> string \<Rightarrow> string" where
  "argument args k = (case map_of args k of None \<Rightarrow> [] | Some v \<Rightarrow> v)"

record promptResult =
  pr_description :: string
  pr_messages :: "(string \<times> string) list"

definition user_prompt :: "string \<Rightarrow> string \<Rightarrow> promptResult" where
  "user_prompt description content = \<lparr>pr_description = description, pr_messages = [(''user'', content)]\<rparr>"

definition default_language :: "string \<Rightarrow> string" where
  "default_language l = (if l = [] then ''go'' else l)"

definition is_c :: "string \<Rightarrow> bool" where
  "is_c language \<longleftrightarrow> language = ''c'' \<or> language = ''cpp''"

definition prompt_debugger :: "string \<Rightarrow> string" where
  "prompt_debugger language = (if is_c language then ''gdb'' else ''delve'')"

definition source_mode :: "string \<Rightarrow> string" where
  "source_mode language = (if is_c language then ''binary'' else ''source'')"

definition compileNote :: "string \<Rightarrow> string \<Rightarrow> string" where
  "compileNote language path = (if is_c language
     then sprintf compile_note_format [FStr path, FStr path] else [])"

definition bpSection :: "string \<Rightarrow> string \<Rightarrow> string \<Rightarrow> string" where
  "bpSection language path breakpoints = (if breakpoints \<noteq> []
     then sprintf breakpoints_format [FStr breakpoints, FStr (source_mode language), FStr path,
            FStr (prompt_debugger language)]
     else [])"

definition debugger_name :: "string \<Rightarrow> string" where
  "debugger_name debugger = (if debugger = ''delve'' then ''dlv'' else ''gdb (native DAP)'')"

definition source_text :: "string \<Rightarrow> string \<Rightarrow> string \<Rightarrow> string" where
  "source_text path language breakpoints = sprintf source_format
     [FStr language, FStr (compileNote language path),
      FStr path,
      FStr (source_mode language), FStr path, FStr (prompt_debugger language),
      FStr (bpSection language path breakpoints),
      FStr (debugger_name (prompt_debugger language))]"

definition promptDebugSource :: "(string \<times> string) list \<Rightarrow> promptResult" where
  "promptDebugSource args = (let path = argument args ''path'' in
     user_prompt (sprintf ''Live source debugging workflow for %s'' [FStr path])
       (source_text path (default_language (argument args ''language'')) (argument args ''breakpoints'')))"

definition programDesc :: "string \<Rightarrow> string" where
  "programDesc program = (if program \<noteq> []
     then sprintf (nl @ ''**Program description:** %s'' @ nl) [FStr program] else [])"

definition attach_text_of :: "string \<Rightarrow> string \<Rightarrow> string" where
  "attach_text_of pid program = sprintf attach_format [FStr (programDesc program), FStr pid, FStr pid]"

definition promptDebugAttach :: "(string \<times> string) list \<Rightarrow> promptResult" where
  "promptDebugAttach args = (let pid = argument args ''pid'' in
     user_prompt (sprintf ''Live attach debugging workflow for PID %s'' [FStr pid])
       (attach_text_of pid (argument args ''program'')))"

definition core_text :: "string \<Rightarrow> string \<Rightarrow> string \<Rightarrow> string" where
  "core_text binaryPath corePath language = (let debugger = prompt_debugger language in
     sprintf core_format
       [FStr binaryPath, FStr corePath, FStr debugger,
        FStr binaryPath, FStr corePath, FStr debugger,
        FStr signalGuide])"

definition promptDebugCoreDump :: "(string \<times> string) list \<Rightarrow> promptResult" where
  "promptDebugCoreDump args = (let binaryPath = argument args ''binary_path'' in
     user_prompt (sprintf ''Post-mortem core dump analysis for %s'' [FStr binaryPath])
       (core_text binaryPath (argument args ''core_path'') (default_language (argument args ''language''))))"

definition binary_text :: "string \<Rightarrow> string" where
  "binary_text path = sprintf binary_format [FStr path, FStr debuggerNote, FStr path]"

definition promptDebugBinary :: "(string \<times> string) list \<Rightarrow> promptResult" where
  "promptDebugBinary args = (let path = argument args ''path'' in
     user_prompt (sprintf ''Assembly-level binary debugging workflow for %s'' [FStr path])
       (binary_text path))"

text \<open>What \<open>registerPrompts\<close> announces: name, description, and the arguments with whether they are required.\<close>

record promptArgument =
  pa_name :: string
  pa_required :: bool
  pa_description :: string

record prompt =
  pt_name :: string
  pt_description :: string
  pt_arguments :: "promptArgument list"
  pt_handler :: "(string \<times> string) list \<Rightarrow> promptResult"

definition registerPrompts :: "prompt list" where
  "registerPrompts =
     [\<lparr>pt_name = ''debug-source'', pt_description = ''Structured workflow for debugging a program from source code'',
       pt_arguments = [
        \<lparr>pa_name = ''path'', pa_required = True, pa_description = ''Path to the source file or directory to debug''\<rparr>,
        \<lparr>pa_name = ''language'', pa_required = False, pa_description = ''Language: 'go' (default) or 'c'/'cpp'' @ [CHR 0x27]\<rparr>,
        \<lparr>pa_name = ''breakpoints'', pa_required = False, pa_description = ''Comma-separated file:line pairs, e.g. 'main.go:42,server.go:100'' @ [CHR 0x27]\<rparr>],
       pt_handler = promptDebugSource\<rparr>,
      \<lparr>pt_name = ''debug-attach'', pt_description = ''Structured workflow for attaching to a running process'',
       pt_arguments = [
        \<lparr>pa_name = ''pid'', pa_required = True, pa_description = ''Process ID to attach to''\<rparr>,
        \<lparr>pa_name = ''program'', pa_required = False, pa_description = ''Description of what the program does (for context)''\<rparr>], pt_handler = promptDebugAttach\<rparr>,
      \<lparr>pt_name = ''debug-core-dump'', pt_description = ''Structured workflow for post-mortem analysis of a core dump'',
       pt_arguments = [
        \<lparr>pa_name = ''binary_path'', pa_required = True, pa_description = ''Path to the executable that crashed''\<rparr>,
        \<lparr>pa_name = ''core_path'', pa_required = True, pa_description = ''Path to the core dump file''\<rparr>,
        \<lparr>pa_name = ''language'', pa_required = False, pa_description = ''Language: 'go' (default) or 'c'/'cpp'' @ [CHR 0x27]\<rparr>],
       pt_handler = promptDebugCoreDump\<rparr>,
      \<lparr>pt_name = ''debug-binary'', pt_description = ''Structured workflow for assembly-level debugging of a compiled binary'',
       pt_arguments = [
        \<lparr>pa_name = ''path'', pa_required = True, pa_description = ''Path to the compiled binary to debug''\<rparr>], pt_handler = promptDebugBinary\<rparr>]"

end
