(* ===== verification/ToolParams.thy ===== *)
theory ToolParams
  imports Session
begin

text \<open>
  The parameter structs of \<^verbatim>\<open>tools.go\<close> as the client of the MCP server sees them: the JSON names of their
  fields, and which of them are required (those without \<^verbatim>\<open>omitempty\<close>), per tool.
\<close>

type_synonym tool_params = "(string \<times> bool) list"

definition BreakpointSpec :: tool_params where
  "BreakpointSpec = [(''file'', False), (''line'', False), (''function'', False)]"

definition DebugParams :: tool_params where
  "DebugParams = [(''mode'', True), (''path'', False), (''args'', False), (''coreFilePath'', False),
     (''processId'', False), (''breakpoints'', False), (''stopOnEntry'', False), (''port'', False),
     (''debugger'', False), (''gdbPath'', False)]"

definition ContextParams :: tool_params where
  "ContextParams = [(''threadId'', False), (''frameId'', False), (''maxFrames'', False)]"

definition StepParams :: tool_params where
  "StepParams = [(''mode'', True), (''threadId'', False), (''timeoutSec'', False)]"

definition WaitForStopParams :: tool_params where
  "WaitForStopParams = [(''timeoutSec'', False), (''pauseIfTimeout'', False), (''threadId'', False)]"

definition InfoParams :: tool_params where
  "InfoParams = [(''type'', False)]"

definition BreakpointToolParams :: tool_params where
  "BreakpointToolParams = [(''file'', False), (''line'', False), (''function'', False)]"

definition ReconnectParams :: tool_params where
  "ReconnectParams = [(''force'', False), (''wait_timeout_sec'', False)]"

definition ClearBreakpointsParams :: tool_params where
  "ClearBreakpointsParams = [(''file'', False), (''all'', False)]"

definition StopParams :: tool_params where
  "StopParams = [(''detach'', False)]"

definition ContinueParams :: tool_params where
  "ContinueParams = [(''threadId'', False), (''to'', False)]"

definition PauseParams :: tool_params where
  "PauseParams = [(''threadId'', True)]"

definition EvaluateParams :: tool_params where
  "EvaluateParams = [(''expression'', True), (''frameId'', False), (''context'', False)]"

definition SetVariableParams :: tool_params where
  "SetVariableParams = [(''variablesReference'', True), (''name'', True), (''value'', True)]"

definition RestartParams :: tool_params where
  "RestartParams = [(''args'', False)]"

definition DisassembleParams :: tool_params where
  "DisassembleParams = [(''address'', True), (''offset'', False), (''count'', False)]"

text \<open>The tools with the struct of their handler.\<close>

definition tool_inputs :: "(string \<times> tool_params) list" where
  "tool_inputs = [(''debug'', DebugParams), (''stop'', StopParams), (''breakpoint'', BreakpointToolParams),
     (''clear-breakpoints'', ClearBreakpointsParams), (''continue'', ContinueParams),
     (''wait-for-stop'', WaitForStopParams), (''step'', StepParams), (''pause'', PauseParams),
     (''context'', ContextParams), (''evaluate'', EvaluateParams), (''info'', InfoParams),
     (''reconnect'', ReconnectParams), (''restart'', RestartParams), (''set-variable'', SetVariableParams),
     (''disassemble'', DisassembleParams)]"

end
