(* ===== verification/PromptProperties.thy ===== *)
theory PromptProperties
  imports Prompts ToolParams SessionProperties
begin

text \<open>
  Properties of the prompts: no text has a formatting error, the calls a text spells are checked against the
  tools and their parameters, and the \<open>debug\<close> call it asks for first is one that the tool accepts.
\<close>

subsection \<open>The texts are complete\<close>

lemma fits_verbs: "verbs f = (False, vs) \<Longrightarrow> fits f as = list_all2 verb_fits vs as"
  by (simp add: fits_def)

lemma format_verbs:
  "verbs compile_note_format = (False, ''ss'')"
  "verbs breakpoints_format = (False, ''ssss'')"
  "verbs source_format = (False, ''ssssssss'')"
  "verbs attach_format = (False, ''sss'')"
  "verbs core_format = (False, ''sssssss'')"
  "verbs binary_format = (False, ''sss'')"
  by code_simp+

lemmas format_fits = format_verbs [THEN fits_verbs]

text \<open>C36. No prompt has a missing, surplus or mistyped argument: each text is the literal text of its format with
  the arguments in the gaps, in the order of the source.\<close>

theorem prompts_fill_their_formats:
  "source_text path language breakpoints = fill (gaps source_format)
     [language, compileNote language path, path, source_mode language, path, prompt_debugger language,
      bpSection language path breakpoints, debugger_name (prompt_debugger language)]
   \<and> attach_text_of pid program = fill (gaps attach_format) [programDesc program, pid, pid]
   \<and> core_text binaryPath corePath language = fill (gaps core_format)
     [binaryPath, corePath, prompt_debugger language, binaryPath, corePath, prompt_debugger language, signalGuide]
   \<and> binary_text path = fill (gaps binary_format) [path, debuggerNote, path]
   \<and> compileNote ''c'' path = fill (gaps compile_note_format) [path, path]
   \<and> bpSection language path (b # bs) = fill (gaps breakpoints_format)
     [b # bs, source_mode language, path, prompt_debugger language]"
  by (simp add: source_text_def attach_text_of_def core_text_def binary_text_def compileNote_def bpSection_def is_c_def
      Let_def sprintf_fill format_fits)

subsection \<open>The calls a text spells\<close>

definition name_char :: "char \<Rightarrow> bool" where
  "name_char c \<longleftrightarrow> (97 \<le> (of_char c :: nat) \<and> of_char c \<le> (122 :: nat)) \<or> c = CHR ''-'' \<or> c = CHR ''_''"

definition argument_names :: "string list \<Rightarrow> string list" where
  "argument_names as = concat (map (\<lambda>a. if CHR ''='' \<in> set a
     then [takeWhile (\<lambda>c. c \<noteq> CHR ''='') (dropWhile (\<lambda>c. c = CHR '' '') a)] else []) as)"

text \<open>One pass over the text.  After a backquote, a name and an opening parenthesis start a call; its arguments
  end with the closing parenthesis, and parentheses and commas in quotes do not count.\<close>

datatype scanning = Outside | InName string | InArgs string bool string "string list"

fun scan_step :: "scanning \<times> (string \<times> string list) list \<Rightarrow> char \<Rightarrow> scanning \<times> (string \<times> string list) list" where
  "scan_step (Outside, found) c = (if c = CHR 0x60 then InName [] else Outside, found)"
| "scan_step (InName n, found) c =
     (if name_char c then InName (n @ [c])
      else if n \<noteq> [] \<and> c = CHR ''('' then InArgs n False [] []
      else if c = CHR 0x60 then InName [] else Outside, found)"
| "scan_step (InArgs n quoted a as, found) c =
     (if c = CHR 0x22 then (InArgs n (\<not> quoted) (a @ [c]) as, found)
      else if \<not> quoted \<and> c = CHR '')'' then (Outside, found @ [(n, argument_names (as @ [a]))])
      else if \<not> quoted \<and> c = CHR '','' then (InArgs n False [] (as @ [a]), found)
      else (InArgs n quoted (a @ [c]) as, found))"

definition calls :: "string \<Rightarrow> (string \<times> string list) list" where
  "calls s = snd (foldl scan_step (Outside, []) s)"

definition unknown_tools :: "(string \<times> string list) list \<Rightarrow> string list" where
  "unknown_tools cs = filter (\<lambda>t. map_of tool_inputs t = None) (map fst cs)"

definition params_of :: "string \<Rightarrow> tool_params" where
  "params_of t = (case map_of tool_inputs t of None \<Rightarrow> [] | Some ps \<Rightarrow> ps)"

definition unknown_params :: "(string \<times> string list) list \<Rightarrow> (string \<times> string) list" where
  "unknown_params cs = concat (map (\<lambda>(t, ps). map (Pair t) (filter (\<lambda>p. p \<notin> set (map fst (params_of t))) ps)) cs)"

definition missing_params :: "(string \<times> string list) list \<Rightarrow> (string \<times> string) list" where
  "missing_params cs = concat (map (\<lambda>(t, ps). map (\<lambda>(p, r). (t, p)) (filter (\<lambda>(p, r). r \<and> p \<notin> set ps) (params_of t))) cs)"

definition issues :: "string \<Rightarrow> string list \<times> (string \<times> string) list \<times> (string \<times> string) list" where
  "issues f = (let cs = calls f in (unknown_tools cs, unknown_params cs, missing_params cs))"


subsection \<open>The debug call a prompt asks for\<close>

lemma sprintf_part:
  assumes "fits p as" "fits m bs" "sprintf m bs = t"
  shows "sublist t (sprintf (p @ m @ q) (as @ bs @ cs))"
  using sprintf_append [OF assms(1), of "m @ q" "bs @ cs"] sprintf_append [OF assms(2), of q cs] assms(3)
  by (auto simp: sublist_def)

definition source_call :: "string \<Rightarrow> string \<Rightarrow> string \<Rightarrow> string" where
  \<open>source_call mode path debugger
     = ''debug(mode="'' @ mode @ ''", path="'' @ path @ ''", debugger="'' @ debugger @ ''")''\<close>

definition source_call_format :: string where
  \<open>source_call_format = ''debug(mode="%s", path="%s", debugger="%s")''\<close>

lemma source_call_eq: "sprintf source_call_format [FStr m, FStr p, FStr d] = source_call m p d"
  by (simp add: source_call_def source_call_format_def sprintf.simps(2) extra_text_def)

lemma source_format_split:
  "source_format = (source_intro @ take 44 source_step1) @ source_call_format @ drop 86 source_step1 @ source_step2
     @ source_step3 @ source_step4 @ source_step5 @ source_step6 @ source_step7 @ source_step8"
proof -
  have "source_step1 = take 44 source_step1 @ source_call_format @ drop 86 source_step1" by code_simp
  then show ?thesis by (simp add: source_format_def)
qed

lemma source_text_call:
  "sublist (source_call (source_mode language) path (prompt_debugger language)) (source_text path language breakpoints)"
proof -
  have v: "verbs (source_intro @ take 44 source_step1) = (False, ''sss'')" "verbs source_call_format = (False, ''sss'')"
    by code_simp+
  let ?as = "[FStr language, FStr (compileNote language path), FStr path]"
    and ?bs = "[FStr (source_mode language), FStr path, FStr (prompt_debugger language)]"
  have "fits (source_intro @ take 44 source_step1) ?as" "fits source_call_format ?bs"
    by (simp_all add: v [THEN fits_verbs])
  from sprintf_part [OF this source_call_eq] show ?thesis
    by (simp add: source_text_def source_format_split)
qed

text \<open>The first call of the source prompt is in its text with the arguments of the request, and \<open>debug\<close> accepts it:
  the mode and the debugger chosen from the language pass every check, up to the launch request.\<close>

theorem source_prompt_call_is_accepted:
  assumes "path \<noteq> []" and "\<not> is_connect b" and "is_c language \<Longrightarrow> dp_gdbPath dp \<noteq> [] \<or> gdb \<noteq> None"
    and "dp_mode dp = source_mode language" and "dp_path dp = path" and "dp_debugger dp = prompt_debugger language"
  shows "sublist (source_call (dp_mode dp) (dp_path dp) (dp_debugger dp)) (source_text path language breakpoints)
    \<and> debug_mode b (dp_mode dp) = Inr (dp_mode dp) \<and> check_params False (dp_mode dp) dp = None
    \<and> (\<exists>be args. select_backend gdb dp = Inr be \<and> launch_command be cwd (dp_mode dp) dp = Inr (Launch args))"
proof (intro conjI)
  show "sublist (source_call (dp_mode dp) (dp_path dp) (dp_debugger dp)) (source_text path language breakpoints)"
    using source_text_call by (simp add: assms(4-6))
  show "debug_mode b (dp_mode dp) = Inr (dp_mode dp)" "check_params False (dp_mode dp) dp = None"
    using assms(1,2,4,5) by (auto simp: debug_mode_def source_mode_def valid_modes_def check_params_def)
  show "\<exists>be args. select_backend gdb dp = Inr be \<and> launch_command be cwd (dp_mode dp) dp = Inr (Launch args)"
    using assms(3,4,6)
    by (auto simp: select_backend_def source_mode_def prompt_debugger_def launch_command_def delve_LaunchArgs_def
        gdb_LaunchArgs_def Let_def)
qed

definition demo_source :: debugParams where
  "demo_source = demo_params\<lparr>dp_mode := ''binary'', dp_path := ''/w/a.out'', dp_debugger := ''gdb''\<rparr>"

theorem source_prompt_call_is_accepted_witness:
  "sublist (source_call ''binary'' ''/w/a.out'' ''gdb'') (source_text ''/w/a.out'' ''cpp'' [])
    \<and> check_params False ''binary'' demo_source = None"
  using source_prompt_call_is_accepted [of "''/w/a.out''" None "''cpp''" demo_source "Some ''/usr/bin/gdb''" "[]"]
  by (simp add: demo_source_def is_connect_def is_c_def source_mode_def prompt_debugger_def)

definition core_call :: "string \<Rightarrow> string \<Rightarrow> string \<Rightarrow> string" where
  \<open>core_call path core debugger
     = ''debug(mode="core", path="'' @ path @ ''", coreFilePath="'' @ core @ ''", debugger="'' @ debugger @ ''")''\<close>

definition core_call_format :: string where
  \<open>core_call_format = ''debug(mode="core", path="%s", coreFilePath="%s", debugger="%s")''\<close>

lemma core_call_eq: "sprintf core_call_format [FStr p, FStr c, FStr d] = core_call p c d"
  by (simp add: core_call_def core_call_format_def sprintf.simps(2) extra_text_def)

lemma core_format_split:
  "core_format = (core_intro @ take 48 core_step1) @ core_call_format @ drop 111 core_step1 @ core_step2
     @ core_step3 @ core_step4 @ core_step5 @ core_step6 @ core_step7"
proof -
  have "core_step1 = take 48 core_step1 @ core_call_format @ drop 111 core_step1" by code_simp
  then show ?thesis by (simp add: core_format_def)
qed

lemma core_text_call:
  "sublist (core_call binaryPath corePath (prompt_debugger language)) (core_text binaryPath corePath language)"
proof -
  have v: "verbs (core_intro @ take 48 core_step1) = (False, ''sss'')" "verbs core_call_format = (False, ''sss'')"
    by code_simp+
  let ?as = "[FStr binaryPath, FStr corePath, FStr (prompt_debugger language)]"
  have "fits (core_intro @ take 48 core_step1) ?as" "fits core_call_format ?as"
    by (simp_all add: v [THEN fits_verbs])
  from sprintf_part [OF this core_call_eq] show ?thesis
    by (simp add: core_text_def core_format_split Let_def)
qed

text \<open>The same for the core dump prompt.\<close>

theorem core_prompt_call_is_accepted:
  assumes "binaryPath \<noteq> []" and "corePath \<noteq> []" and "\<not> is_connect b"
    and "is_c language \<Longrightarrow> dp_gdbPath dp \<noteq> [] \<or> gdb \<noteq> None" and "dp_mode dp = ''core''" and "dp_path dp = binaryPath"
    and "dp_coreFilePath dp = corePath" and "dp_debugger dp = prompt_debugger language"
  shows "sublist (core_call (dp_path dp) (dp_coreFilePath dp) (dp_debugger dp)) (core_text binaryPath corePath language)
    \<and> debug_mode b (dp_mode dp) = Inr (dp_mode dp) \<and> check_params False (dp_mode dp) dp = None
    \<and> (\<exists>be args. select_backend gdb dp = Inr be \<and> launch_command be cwd (dp_mode dp) dp = Inr (Launch args))"
proof (intro conjI)
  show "sublist (core_call (dp_path dp) (dp_coreFilePath dp) (dp_debugger dp)) (core_text binaryPath corePath language)"
    using core_text_call by (simp add: assms(6-8))
  show "debug_mode b (dp_mode dp) = Inr (dp_mode dp)" "check_params False (dp_mode dp) dp = None"
    using assms by (auto simp: debug_mode_def valid_modes_def check_params_def)
  show "\<exists>be args. select_backend gdb dp = Inr be \<and> launch_command be cwd (dp_mode dp) dp = Inr (Launch args)"
    using assms(4,5,8)
    by (auto simp: select_backend_def prompt_debugger_def launch_command_def delve_CoreArgs_def gdb_CoreArgs_def Let_def)
qed

definition demo_core :: debugParams where
  "demo_core = demo_params\<lparr>dp_mode := ''core'', dp_path := ''/w/a.out'', dp_coreFilePath := ''/w/core'', dp_debugger := ''delve''\<rparr>"

theorem core_prompt_call_is_accepted_witness:
  "sublist (core_call ''/w/a.out'' ''/w/core'' ''delve'') (core_text ''/w/a.out'' ''/w/core'' ''go'')
    \<and> check_params False ''core'' demo_core = None"
  using core_prompt_call_is_accepted [of "''/w/a.out''" "''/w/core''" None "''go''" demo_core None]
  by (simp add: demo_core_def is_connect_def is_c_def prompt_debugger_def)

subsection \<open>Attaching\<close>

definition missing_pid :: string where
  "missing_pid = ''processId is required for attach mode''"

lemma attach_format_split:
  "attach_format = (attach_intro @ take 540 attach_step1) @ missing_pid @ drop 577 attach_step1 @ attach_step2
     @ attach_step3 @ attach_step4 @ attach_step5 @ attach_step6"
proof -
  have "attach_step1 = take 540 attach_step1 @ missing_pid @ drop 577 attach_step1" by code_simp
  then show ?thesis by (simp add: attach_format_def)
qed

text \<open>The attach prompt tells its two cases apart by an error text: that text is in the prompt, it is the error of
  \<open>debug\<close> without a process id, and a connected server never gives it.\<close>

theorem attach_prompt_tells_cases_apart:
  assumes "dp_mode dp = ''attach''" and "dp_processId dp = 0"
  shows "debug_mode b (dp_mode dp) = Inr ''attach''
    \<and> check_params (is_connect b) ''attach'' dp = (if is_connect b then None else Some (ErrNew missing_pid))
    \<and> sublist missing_pid (attach_text_of pid program)"
proof -
  have v: "verbs (attach_intro @ take 540 attach_step1) = (False, ''sss'')" "verbs missing_pid = (False, [])"
    by code_simp+
  have f: "fits (attach_intro @ take 540 attach_step1) [FStr (programDesc program), FStr pid, FStr pid]" "fits missing_pid []"
    by (simp_all add: v [THEN fits_verbs])
  have m: "sprintf missing_pid [] = missing_pid" by (rule sprintf_plain) (simp add: plain_def missing_pid_def)
  from sprintf_part [OF f m, of _ "[]"] have "sublist missing_pid (attach_text_of pid program)"
    by (simp add: attach_text_of_def attach_format_split)
  then show ?thesis
    using assms by (simp add: debug_mode_def valid_modes_def check_params_def missing_pid_def)
qed

theorem attach_prompt_tells_cases_apart_witness:
  "check_params False ''attach'' (demo_params\<lparr>dp_mode := ''attach''\<rparr>) = Some (ErrNew missing_pid)
    \<and> sublist missing_pid (attach_text_of ''17'' [])"
  using attach_prompt_tells_cases_apart [of "demo_params\<lparr>dp_mode := ''attach''\<rparr>" None "''17''" "[]"]
  by (simp add: demo_params_def is_connect_def)

end
