(* ===== verification/Orderly.thy ===== *)
theory Orderly
  imports SessionProperties
begin

text \<open>
  A third calculus: programs that keep a server in order.  In an orderly server one adapter process runs
  exactly while the session holds a command, every client object but the session's is closed, the recorded
  breakpoints are duplicate-free, and the MCP client is offered either \<open>debug\<close> or all the tools of a session.
  Unlike the other calculi it does not need the session mutex, so that it covers the handlers that wait
  without it, and it says nothing of the result, so that it covers the ones that may panic.
\<close>

subsection \<open>Programs that keep a predicate\<close>

definition leads :: "(world \<Rightarrow> bool) \<Rightarrow> 'a prog \<Rightarrow> (world \<Rightarrow> bool) \<Rightarrow> bool" where
  "leads P m Q \<longleftrightarrow> (\<forall>w. P w \<longrightarrow> Q (snd (m w)))"

abbreviation safe :: "(world \<Rightarrow> bool) \<Rightarrow> 'a prog \<Rightarrow> bool" where
  "safe I m \<equiv> leads I m I"

named_theorems safety \<open>programs that keep a server in order\<close>

lemma leads_bind:
  assumes "leads P m P'" "\<And>a. leads P' (k a) Q" "\<And>w. P' w \<Longrightarrow> Q w"
  shows "leads P (bindP m k) Q"
  using assms by (fastforce simp: leads_def bindP_def split: res.split prod.split)

lemma safe_bind [safety]: "safe I m \<Longrightarrow> (\<And>a. safe I (k a)) \<Longrightarrow> safe I (bindP m k)"
  by (rule leads_bind)

lemma leads_value:
  assumes "\<And>w a w'. P w \<Longrightarrow> m w = (Ok a, w') \<Longrightarrow> P' a w'" "\<And>w. P w \<Longrightarrow> Q (snd (m w))" "\<And>a. leads (P' a) (k a) Q"
  shows "leads P (bindP m k) Q"
  unfolding leads_def
proof (intro allI impI)
  fix w assume P: "P w"
  obtain r w' where m: "m w = (r, w')" by force
  show "Q (snd (bindP m k w))"
    using assms(1) [OF P] assms(2) [OF P] assms(3) m by (cases r) (auto simp: leads_def bindP_def)
qed

lemma safe_bind_value:
  assumes "safe I m" "\<And>w a w'. I w \<Longrightarrow> m w = (Ok a, w') \<Longrightarrow> P a" "\<And>a. P a \<Longrightarrow> safe I (k a)"
  shows "safe I (bindP m k)"
proof (rule leads_value [where P' = "\<lambda>a w. P a \<and> I w"])
  fix w a w' assume "I w" "m w = (Ok a, w')"
  then show "P a \<and> I w'" using assms(1,2) by (fastforce simp: leads_def)
qed (use assms(1,3) in \<open>auto simp: leads_def\<close>)

lemma safe_then [safety]: "safe I m \<Longrightarrow> safe I k \<Longrightarrow> safe I (thenP m k)"
  unfolding thenP_def by (rule safe_bind)

lemma safe_try [safety]: "leads P m Q \<Longrightarrow> leads P (tryP m) Q"
  by (fastforce simp: leads_def tryP_def split: res.split prod.split)

lemma safe_wrap [safety]: "leads P m Q \<Longrightarrow> leads P (wrapP f m) Q"
  by (fastforce simp: leads_def wrapP_def split: res.split prod.split)

lemma safe_return [safety]: "safe I (returnP a)" "safe I (raiseP e)" "safe I panicP" "safe I (textP t)"
  by (simp_all add: leads_def returnP_def raiseP_def panicP_def textP_def)

lemma safe_gets [safety]: "safe I (getsP f)" "safe I (dsP g)" "safe I nowP" "safe I (staleP p)"
  by (simp_all add: leads_def getsP_def dsP_def nowP_def staleP_def)

lemma safe_if [safety]: "leads P m Q \<Longrightarrow> leads P n Q \<Longrightarrow> leads P (if b then m else n) Q"
  by simp

lemma safe_defer [safety]: "safe I m \<Longrightarrow> safe I fin \<Longrightarrow> safe I (deferP m fin)"
  unfolding deferP_def by (auto intro!: safety split: sum.split)

lemma safe_modify: "(\<And>w. I w \<Longrightarrow> I (f w)) \<Longrightarrow> safe I (modifyP f)"
  by (simp add: leads_def modifyP_def)

lemma safe_mapP [safety]: "(\<And>x. safe I (f x)) \<Longrightarrow> safe I (mapP f xs)"
  by (induction xs) (auto intro!: safety)

lemma safe_forP [safety]: "(\<And>x. safe I (f x)) \<Longrightarrow> safe I (forP xs f)"
  by (induction xs) (auto intro!: safety)

lemma safe_loop [safety]:
  assumes "\<And>s. safe I (body s)"
  shows "safe I (loopP body s)"
proof -
  have "safe I (loop_fuel n body s)" for n s
  proof (induction n arbitrary: s)
    case (Suc n)
    show ?case unfolding loop_fuel.simps by (rule safe_bind [OF assms]) (auto split: sum.split intro: Suc safety)
  qed (simp add: leads_def)
  then show ?thesis unfolding leads_def loopP_def by blast
qed

lemma safe_liftP [safety]: "safe I (liftP r)"
  by (auto simp: liftP_def split: sum.split intro: safety)

lemma safe_yield: "stable I \<Longrightarrow> safe I yieldP"
  by (auto simp: leads_def yieldP_def stable_round split: list.split)

lemma safe_hoare:
  assumes "hoare I m (\<lambda>_. I) (\<lambda>_. I) I" shows "safe I m"
  unfolding leads_def
proof (intro allI impI)
  fix w assume I: "I w"
  obtain r w' where m: "m w = (r, w')" by force
  show "I (snd (m w))" using hoare_D [OF assms I, where w' = w'] m by (cases r) auto
qed

lemma safe_block:
  fixes f :: "nat \<Rightarrow> world \<Rightarrow> ('a res \<times> world) option"
  assumes "stable I" "\<And>pick w x w'. I w \<Longrightarrow> f pick w = Some (x, w') \<Longrightarrow> I w'"
  shows "safe I (blockP f)"
proof -
  have "I (snd (wait_rounds f rs w))" if "I w" for rs w
    using that
  proof (induction rs arbitrary: w)
    case (Cons r rs)
    have "I ((env_round r w)\<lparr>w_future := rs\<rparr>)" by (rule stable_round [OF assms(1) Cons.prems])
    then show ?case using Cons.IH assms(2) by (auto simp: Let_def split: option.split)
  qed simp
  then show ?thesis by (simp add: leads_def blockP_def)
qed

subsection \<open>Order\<close>

definition tools :: "world \<Rightarrow> string set" where
  "tools w = set (offered (w_server w) [])"

definition offer_ok :: "string set \<Rightarrow> bool \<Rightarrow> bool" where
  "offer_ok ts client \<longleftrightarrow>
     (if ''debug'' \<in> ts then ts \<inter> set always_tools = {} else set always_tools \<subseteq> ts \<and> client)"

definition orderly :: "world \<Rightarrow> bool" where
  "orderly w \<longleftrightarrow> world_ok w \<and> bp_ok (w_ds w) \<and> w_procs w = (if ds_cmd (w_ds w) then 1 else 0)
     \<and> (\<forall>q < length (w_clients w). ds_client (w_ds w) = Some q \<or> c_ctx_done (cl w q))
     \<and> offer_ok (tools w) (ds_client (w_ds w) \<noteq> None)"

text \<open>With a client object and \<open>k\<close> of its subscriptions at hand, and, while \<open>b\<close>, with the mutex and that client in
  the session.\<close>

definition ord :: "bool \<Rightarrow> nat \<Rightarrow> nat \<Rightarrow> world \<Rightarrow> bool" where
  "ord b p k w \<longleftrightarrow> orderly w \<and> p < length (w_clients w) \<and> k \<le> nsubs w p
     \<and> (b \<longrightarrow> w_locked w \<and> ds_client (w_ds w) = Some p)"

lemma orderly_upd_cl:
  assumes "orderly w" "sys_step\<^sup>*\<^sup>* (cl w p) (f (cl w p))"
  shows "orderly (upd_cl p f w)"
proof -
  have "world_ok (upd_cl p f w)"
    by (rule upd_cl_ok) (use assms in \<open>auto simp: orderly_def intro: sys_steps_reachable\<close>)
  then show ?thesis
    using assms sys_steps_ctx_done [OF assms(2)] by (auto simp: orderly_def tools_def cl_upd_cl)
qed

lemma orderly_steps:
  assumes "orderly w" "steps f" shows "orderly (upd_cl p f w)"
proof (cases "p < length (w_clients w)")
  case True
  then show ?thesis
    by (intro orderly_upd_cl) (use assms in \<open>auto simp: steps_def orderly_def world_ok_reach\<close>)
qed (use assms in \<open>simp add: upd_cl_def\<close>)

lemma orderly_end_session:
  assumes "orderly w" shows "orderly (end_session w)"
proof -
  have ok: "world_ok (end_session w)" using end_session_ok assms by (simp add: orderly_def)
  have "c_ctx_done (cl (end_session w) q)" if "q < length (w_clients w)" for q
    using that assms
    by (auto simp: cl_def w_clients_end orderly_def upd_cl_def nth_list_update Close_def close_conn_def split: option.split)
  moreover have "bp_ok (reset_session ((w_ds w)\<lparr>ds_client := None, ds_cmd := False\<rparr>))"
    using assms by (simp add: orderly_def bp_ok_def reset_session_def)
  moreover have "offer_ok (tools (end_session w)) False"
    by (auto simp: offer_ok_def tools_def offered_append offered_unregistration debug_is_no_session_tool)
  ultimately show ?thesis using ok assms by (auto simp: orderly_def reset_session_def)
qed

lemma orderly_upd_ds:
  assumes "orderly w" "ds_client (f (w_ds w)) = ds_client (w_ds w)" "ds_cmd (f (w_ds w)) = ds_cmd (w_ds w)"
    "bp_ok (f (w_ds w))"
  shows "orderly (upd_ds f w)"
  using assms by (simp add: orderly_def world_ok_def tools_def)

lemma orderly_cong:
  assumes "orderly w" "w_clients w' = w_clients w" "w_ds w' = w_ds w" "w_server w' = w_server w" "w_procs w' = w_procs w"
  shows "orderly w'"
  using assms by (simp add: orderly_def world_ok_def tools_def cl_def)

lemma orderly_env: "orderly w \<Longrightarrow> orderly (env_do a w)"
proof (induction a w rule: env_do.induct)
  case (3 p r w)
  have ended: "orderly (upd_ds (reinit_session caps) v)" if "orderly v" for caps v
    by (rule orderly_upd_ds [OF that]) (use that in \<open>simp_all add: reinit_session_def orderly_def bp_ok_def\<close>)
  have failed: "orderly (upd_ds (\<lambda>ds. case caps of None \<Rightarrow> ds | Some x \<Rightarrow> ds\<lparr>ds_capabilities := x\<rparr>) v)"
    if "orderly v" for caps v
    by (rule orderly_upd_ds [OF that]) (use that in \<open>auto simp: orderly_def bp_ok_def split: option.split\<close>)
  show ?case using 3 by (auto intro: ended failed orderly_steps steps_recon split: hook_end.split)
qed (auto intro: orderly_end_session orderly_cong orderly_steps steps_pump steps_recon steps_bridge
    steps_request [unfolded Let_def])

lemma orderly_stable: "stable orderly"
  by (auto simp: stable_def orderly_env intro: orderly_cong)

lemma ord_stable: "stable (ord b p k)"
  unfolding stable_def
proof (intro conjI allI impI)
  fix a w assume o: "ord b p k w"
  then have "nsubs w p \<le> nsubs (env_do a w) p" by (simp add: ord_def orderly_def env_do_nsubs)
  then show "ord b p k (env_do a w)"
    using o by (auto simp: ord_def env_do_static env_do_locked orderly_env)
qed (auto simp: ord_def nsubs_def cl_def intro: orderly_cong)

lemma ord_upd_cl:
  assumes "ord b p k w" "sys_step\<^sup>*\<^sup>* (cl w q) (f (cl w q))"
  shows "ord b p k (upd_cl q f w)"
proof -
  have "nsubs w p \<le> nsubs (upd_cl q f w) p"
    using sys_steps_nsubs [OF assms(2)] by (auto simp: nsubs_def cl_upd_cl)
  then show ?thesis using assms by (simp add: ord_def orderly_upd_cl)
qed

lemma ord_admissible: "admissible (ord b p k) p"
proof -
  have "silent (ord b p k) p" by (auto simp: silent_def intro: ord_upd_cl)
  moreover have "ord b p k w \<Longrightarrow> live p w" for w by (simp add: ord_def orderly_def live_def)
  ultimately show ?thesis by (simp add: admissible_def ord_stable)
qed

subsection \<open>Requests and waiting\<close>

lemma ord_yield [safety]: "safe (ord b p k) yieldP"
  by (rule safe_yield [OF ord_stable])

lemma ord_client_op:
  assumes "\<And>c. reachable c \<Longrightarrow> sys_step\<^sup>*\<^sup>* c (f c)"
  shows "safe (ord b p k) (modifyP (upd_cl p f))"
proof (rule safe_modify)
  fix w assume o: "ord b p k w"
  show "ord b p k (upd_cl p f w)"
    by (rule ord_upd_cl [OF o], rule assms) (use o in \<open>simp add: ord_def orderly_def world_ok_reach\<close>)
qed

lemma ord_ops [safety]: "safe (ord b p k) (unregisterP p seq)" "safe (ord b p k) (markStaleP p)"
  unfolding unregisterP_def markStaleP_def
  by (rule ord_client_op, blast intro: r_into_rtranclp sys_unregister sys_steps_markStale)+

lemma ord_next_write: "ord b p k w \<Longrightarrow> ord b p k (snd (next_write w))"
  by (auto simp: ord_def next_write_def nsubs_def cl_def split: list.split intro: orderly_cong)

lemma ord_rawSend [safety]: "safe (ord b p k) (rawSendP p seq cmd)"
  unfolding leads_def rawSendP_def Let_def case_prod_beta
  by (auto intro!: ord_upd_cl r_into_rtranclp sys_write ord_next_write split: option.split)

text \<open>A number that was allocated.\<close>

definition ord_seq :: "bool \<Rightarrow> nat \<Rightarrow> nat \<Rightarrow> int \<Rightarrow> world \<Rightarrow> bool" where
  "ord_seq b p k seq w \<longleftrightarrow> ord b p k w \<and> 1 \<le> seq \<and> seq < c_seq (cl w p)"

lemma ord_newRequest:
  assumes "ord b p k w" "newRequestP p w = (Ok seq, w')"
  shows "ord_seq b p k seq w'"
proof -
  have "ord b p k (upd_cl p (\<lambda>c. snd (newRequest c)) w)"
    by (rule ord_upd_cl [OF assms(1)]) (blast intro: r_into_rtranclp sys_newRequest)
  moreover have "p < length (w_clients w)" "1 \<le> c_seq (cl w p)"
    using assms(1) by (auto simp: ord_def orderly_def world_ok_reach reachable_seq)
  ultimately show ?thesis
    using assms(2) by (auto simp: newRequestP_def clientP_def cl_upd_cl ord_seq_def newRequest_def)
qed

lemma ord_register: "leads (ord_seq b p k seq) (registerP p seq) (ord b p k)"
  unfolding leads_def registerP_def clientP_def ord_seq_def
  by (auto intro!: ord_upd_cl r_into_rtranclp sys_register)

lemma ord_sendAndRegister:
  "leads (ord_seq b p k seq) (sendAndRegister p seq cmd) (ord b p k)"
  "leads (ord_seq b p k seq) (sendAndRegisterRaw p seq cmd) (ord b p k)"
proof -
  have send: "safe (ord b p k) (thenP yieldP (bindP (tryP (rawSendP p seq cmd)) (\<lambda>r. case r of
      Inr _ \<Rightarrow> returnP () | Inl e \<Rightarrow> h e)))" if "\<And>e. safe (ord b p k) (h e)" for h :: "err \<Rightarrow> unit prog"
    by (intro safety) (auto intro!: safety that split: sum.split)
  have fail: "leads (ord_seq b p k seq) (raiseP e) (ord b p k)" for e :: err
    by (simp add: leads_def raiseP_def ord_seq_def)
  have weak: "ord_seq b p k seq w \<Longrightarrow> ord b p k w" for w by (simp add: ord_seq_def)
  show "leads (ord_seq b p k seq) (sendAndRegister p seq cmd) (ord b p k)"
    unfolding sendAndRegister_def
    by (rule leads_bind [OF safe_gets(4)], rule safe_if [OF fail], rule leads_bind [OF ord_register], rule send)
       (auto intro!: weak safety)
  show "leads (ord_seq b p k seq) (sendAndRegisterRaw p seq cmd) (ord b p k)"
    unfolding sendAndRegisterRaw_def by (rule leads_bind [OF ord_register], rule send) (auto intro!: safety)
qed

lemma ord_request [safety]: "safe (ord b p k) (request p cmd)" "safe (ord b p k) (requestRaw p cmd)"
proof -
  have ret: "leads (ord_seq b p k seq) (thenP m (returnP seq)) (ord b p k)"
    if "leads (ord_seq b p k seq) m (ord b p k)" for m :: "unit prog" and seq
    unfolding thenP_def by (rule leads_bind [OF that]) (auto intro: safety)
  have alloc: "ord b p k w \<Longrightarrow> ord b p k (snd (newRequestP p w))" for w
    using ord_newRequest [of b p k w "fst (newRequest (cl w p))"]
    by (auto simp: newRequestP_def clientP_def ord_seq_def)
  show "safe (ord b p k) (request p cmd)" "safe (ord b p k) (requestRaw p cmd)"
    unfolding request_def requestRaw_def
    by (rule leads_value [OF ord_newRequest alloc ret], assumption+, rule ord_sendAndRegister)+
qed

lemma ord_await [safety]:
  "safe (ord b p k) (AwaitResponse ctx p seq)" "safe (ord b p k) (awaitResponseValidate ctx p seq pre)"
  "safe (ord b p k) (awaitResponseTyped T sel ctx p seq)" "safe (ord b p k) (awaitInitializedEvent ctx p since)"
  "safe (ord b p k) (awaitStopOrTerminate ctx p since)"
  by (rule safe_hoare, rule hoare_conseq [OF AwaitResponse_ok [OF ord_admissible]], simp_all)
     (rule safe_hoare, rule awaitResponseValidate_ok [OF ord_admissible] awaitResponseTyped_ok [OF ord_admissible]
        awaitInitializedEvent_ok [OF ord_admissible] awaitStopOrTerminate_ok [OF ord_admissible])+

lemma ord_requests [safety]:
  "safe (ord b p k) (SetBreakpointsRequest p f ls)" "safe (ord b p k) (SetFunctionBreakpointsRequest p fs)"
  "safe (ord b p k) (ConfigurationDoneRequest p)" "safe (ord b p k) (ContinueRequest p t)" "safe (ord b p k) (NextRequest p t)"
  "safe (ord b p k) (StepInRequest p t)" "safe (ord b p k) (StepOutRequest p t)" "safe (ord b p k) (PauseRequest p t)"
  "safe (ord b p k) (ThreadsRequest p)" "safe (ord b p k) (StackTraceRequest p t i n)" "safe (ord b p k) (ScopesRequest p i)"
  "safe (ord b p k) (VariablesRequest p r)" "safe (ord b p k) (EvaluateRequest p e i x)" "safe (ord b p k) (DisconnectRequest p d)"
  "safe (ord b p k) (SetVariableRequest p r nm v)" "safe (ord b p k) (RestartRequest p a)" "safe (ord b p k) (LoadedSourcesRequest p)"
  "safe (ord b p k) (ModulesRequest p)" "safe (ord b p k) (DisassembleRequest p m i n)" "safe (ord b p k) (AttachRequestRaw p args)"
  "safe (ord b p k) (SetBreakpointsRequestRaw p f ls)" "safe (ord b p k) (SetFunctionBreakpointsRequestRaw p fs)"
  "safe (ord b p k) (ConfigurationDoneRequestRaw p)"
  unfolding SetBreakpointsRequest_def SetFunctionBreakpointsRequest_def ConfigurationDoneRequest_def ContinueRequest_def
    NextRequest_def StepInRequest_def StepOutRequest_def PauseRequest_def ThreadsRequest_def StackTraceRequest_def
    ScopesRequest_def VariablesRequest_def EvaluateRequest_def DisconnectRequest_def SetVariableRequest_def RestartRequest_def
    LoadedSourcesRequest_def ModulesRequest_def DisassembleRequest_def AttachRequestRaw_def SetBreakpointsRequestRaw_def
    SetFunctionBreakpointsRequestRaw_def ConfigurationDoneRequestRaw_def
  by (rule ord_request)+

lemma ord_initialize [safety]: "safe (ord b p k) (InitializeRequest ctx p a)" "safe (ord b p k) (InitializeRequestRaw ctx p a)"
  unfolding InitializeRequest_def InitializeRequestRaw_def initialize_result_def
  by (intro safety, auto split: dap_msg.split resp_body.split intro: safety)+

text \<open>Changes of the session that leave client, process and the form of the breakpoints alone.\<close>

definition harmless :: "(session \<Rightarrow> session) \<Rightarrow> bool" where
  "harmless f \<longleftrightarrow> (\<forall>ds. ds_client (f ds) = ds_client ds \<and> ds_cmd (f ds) = ds_cmd ds \<and> (bp_ok ds \<longrightarrow> bp_ok (f ds)))"

lemma orderly_harmless: "orderly w \<Longrightarrow> harmless f \<Longrightarrow> orderly (upd_ds f w)"
  by (rule orderly_upd_ds) (auto simp: harmless_def orderly_def)

lemma ord_upd_ds: "ord b p k w \<Longrightarrow> harmless f \<Longrightarrow> ord b p k (upd_ds f w)"
  using orderly_harmless [of w f] by (simp add: ord_def harmless_def nsubs_def)

lemma ord_setP: "harmless f \<Longrightarrow> safe (ord b p k) (setP f)"
  unfolding setP_def by (rule safe_modify) (rule ord_upd_ds)

lemma ord_set [safety]:
  "safe (ord b p k) (setP (\<lambda>ds. ds\<lparr>ds_stoppedThreadID := i\<rparr>))" "safe (ord b p k) (setP (\<lambda>ds. ds\<lparr>ds_lastFrameID := i\<rparr>))"
  "safe (ord b p k) (setP (\<lambda>ds. if ds_stoppedThreadID ds = 0 then ds\<lparr>ds_stoppedThreadID := 1\<rparr> else ds))"
  "safe (ord b p k) (setP (\<lambda>ds. ds\<lparr>ds_capabilities := caps\<rparr>))"
  "safe (ord b p k) (setP (\<lambda>ds. ds\<lparr>ds_stoppedThreadID := i, ds_lastFrameID := j, ds_lastStopAt := t\<rparr>))"
  "safe (ord b p k) (setP (\<lambda>ds. ds\<lparr>ds_capabilities := caps, ds_launchMode := m, ds_programPath := pp, ds_programArgs := as,
     ds_coreFilePath := cf\<rparr>))"
  "safe (ord b p k) (setP (\<lambda>ds. ds\<lparr>ds_breakpoints := [], ds_functionBreakpoints := []\<rparr>))"
  "safe (ord b p k) (setP (\<lambda>ds. ds\<lparr>ds_breakpoints := AList.delete file (ds_breakpoints ds)\<rparr>))"
  by (rule ord_setP; auto simp: harmless_def bp_ok_def distinct_delete set_alist_delete)+

lemma ord_stamp [safety]: "safe (ord b p k) stampP"
  unfolding stampP_def by (rule safe_modify, erule ord_upd_ds, simp add: harmless_def bp_ok_def)

lemma ord_withClient [safety]:
  assumes "safe (ord True p k) (h p)" shows "safe (ord True p k) (withClient h)"
  using assms by (auto simp: leads_def withClient_def dsP_def bindP_def getsP_def ord_def)

lemma ord_getThreadList [safety]: "safe (ord True p k) getThreadList"
proof -
  have "safe (ord True p k) (case c of None \<Rightarrow> returnP [] | Some q \<Rightarrow> bindP (tryP (bindP (ThreadsRequest q) (\<lambda>seq.
      awaitResponseTyped ''*dap.ThreadsResponse'' threads_body base_ctx q seq))) (\<lambda>r.
        returnP (case r of Inl e \<Rightarrow> [] | Inr ts \<Rightarrow> thread_lines ts)))" if "c = Some p" for c
    using that by (auto intro!: safety)
  then show ?thesis
    by (auto simp: getThreadList_def leads_def dsP_def bindP_def getsP_def ord_def)
qed

lemma ord_scope [safety]: "safe (ord b p k) (scope_text p scope)"
  unfolding scope_text_def Let_def by (intro safety)

lemma ord_getFullContext [safety]: "safe (ord True p k) (getFullContext t f n)"
  unfolding getFullContext_def writeScopesAndVariables_def
  by (intro safety) (auto split: sum.split intro!: safety)

subsection \<open>Handlers that hold the mutex\<close>

text \<open>A handler without a client.\<close>

definition nocl :: "world \<Rightarrow> bool" where
  "nocl w \<longleftrightarrow> orderly w \<and> w_locked w \<and> ds_client (w_ds w) = None"

lemma nocl_upd_ds: "nocl w \<Longrightarrow> harmless f \<Longrightarrow> nocl (upd_ds f w)"
  using orderly_harmless [of w f] by (simp add: nocl_def harmless_def)

lemma nocl_set [safety]: "safe nocl (setP (\<lambda>ds. ds\<lparr>ds_stoppedThreadID := i\<rparr>))" "safe nocl stampP"
  unfolding setP_def stampP_def by (rule safe_modify, erule nocl_upd_ds, simp add: harmless_def bp_ok_def)+

lemma nocl_client [safety]: "safe nocl (withClient h)" "safe nocl getThreadList" "safe nocl (getFullContext t f n)"
  by (auto simp: leads_def withClient_def getThreadList_def getFullContext_def dsP_def bindP_def getsP_def nocl_def
      raiseP_def returnP_def)

lemma orderly_lock: "orderly w \<Longrightarrow> orderly (w\<lparr>w_locked := l\<rparr>)"
  by (rule orderly_cong) simp_all

lemma safe_withLock:
  assumes "leads (\<lambda>w. orderly w \<and> w_locked w) m orderly"
  shows "safe orderly (withLock m)"
  unfolding leads_def
proof (intro allI impI)
  fix w assume "orderly w"
  then have "orderly (snd (m (w\<lparr>w_locked := True\<rparr>)))" using assms orderly_lock by (simp add: leads_def)
  then show "orderly (snd (withLock m w))"
    by (cases "m (w\<lparr>w_locked := True\<rparr>)"; cases "fst (m (w\<lparr>w_locked := True\<rparr>))") (auto simp: withLock_eq orderly_lock)
qed

lemma leads_locked:
  assumes "\<And>p. leads (ord True p 0) m orderly" "leads nocl m orderly"
  shows "leads (\<lambda>w. orderly w \<and> w_locked w) m orderly"
  unfolding leads_def
proof (intro allI impI)
  fix w assume w: "orderly w \<and> w_locked w"
  show "orderly (snd (m w))"
  proof (cases "ds_client (w_ds w)")
    case None
    then show ?thesis using w assms(2) by (simp add: leads_def nocl_def)
  next
    case (Some p)
    then have "ord True p 0 w" using w by (auto simp: ord_def orderly_def world_ok_def)
    then show ?thesis using assms(1) by (simp add: leads_def)
  qed
qed

lemma leads_weaken: "leads P m Q \<Longrightarrow> (\<And>w. Q w \<Longrightarrow> Q' w) \<Longrightarrow> leads P m Q'"
  by (simp add: leads_def)

lemma leads_pre: "leads P m Q \<Longrightarrow> (\<And>w. P' w \<Longrightarrow> P w) \<Longrightarrow> leads P' m Q"
  by (simp add: leads_def)

lemma ord_orderly: "ord b p k w \<Longrightarrow> orderly w"
  by (simp add: ord_def)

lemma nocl_orderly: "nocl w \<Longrightarrow> orderly w"
  by (simp add: nocl_def)

lemma safe_locked:
  assumes "\<And>p. safe (ord True p 0) m" "safe nocl m"
  shows "safe orderly (withLock m)"
  by (rule safe_withLock, rule leads_locked; rule leads_weaken [OF assms(1)] leads_weaken [OF assms(2)])
     (simp_all add: ord_orderly nocl_orderly)

lemma safe_client:
  assumes "\<And>p. safe (ord True p 0) (h p)"
  shows "safe orderly (withLock (withClient h))"
  by (rule safe_locked) (auto intro: safety assms)

lemma orderly_clearBreakpoints: "safe orderly (clearBreakpoints file all)"
  unfolding clearBreakpoints_def clear_file_def
  by (rule safe_client) (intro safety)

lemma orderly_breakpoint: "safe orderly (breakpoint file line function)"
proof -
  have fn: "safe (ord True p 0) (function_breakpoint p function)" for p
    unfolding function_breakpoint_def
  proof (rule safe_bind_value [where P = distinct])
    show "distinct a" if "ord True p 0 w" "dsP (\<lambda>ds. add_function (ds_functionBreakpoints ds) function) w = (Ok a, w')" for w a w'
      using that by (auto simp: dsP_def getsP_def add_function_def ord_def orderly_def bp_ok_def)
    show "safe (ord True p 0) (bindP (SetFunctionBreakpointsRequest p fs) (\<lambda>seq.
        thenP (awaitResponseValidate base_ctx p seq ''unable to set function breakpoint'') (
        thenP (setP (\<lambda>ds. ds\<lparr>ds_functionBreakpoints := fs\<rparr>)) (textP (''Breakpoint set on function: '' @ function)))))"
      if "distinct fs" for fs
      by (intro safety ord_setP) (simp add: harmless_def bp_ok_def that)
  qed (intro safety)
  have ln: "safe (ord True p 0) (line_breakpoint p file line)" for p
    unfolding line_breakpoint_def
  proof (rule safe_bind_value [where P = distinct])
    show "distinct a" if "ord True p 0 w" "dsP (\<lambda>ds. lines_of ds file) w = (Ok a, w')" for w a w'
      using that by (auto simp: dsP_def getsP_def lines_of_def ord_def orderly_def bp_ok_def
          split: option.splits dest: map_of_SomeD)
    have upd: "harmless (\<lambda>ds. ds\<lparr>ds_breakpoints := AList.update file (ls @ [line]) (ds_breakpoints ds)\<rparr>)"
      if "distinct ls" "line \<notin> set ls" for ls
      using that by (auto simp: harmless_def bp_ok_def distinct_update dest!: subsetD [OF set_alist_update])
    show "safe (ord True p 0) (if line \<in> set existing then textP (''Breakpoint already set at '' @ file @ '':'' @ itoa line)
      else bindP (SetBreakpointsRequest p file (existing @ [line])) (\<lambda>seq.
       bindP (wrapP (ErrWrap ''unable to set breakpoint: '')
         (awaitResponseTyped ''*dap.SetBreakpointsResponse'' breakpoints_body base_ctx p seq)) (\<lambda>bps.
       if bps = [] then raiseP (ErrNew ''no breakpoints returned'')
       else if \<not> bp_verified (last bps)
         then raiseP (ErrNew (''breakpoint not verified: '' @ bp_message (last bps)))
       else
         thenP (setP (\<lambda>ds. ds\<lparr>ds_breakpoints := AList.update file (existing @ [line]) (ds_breakpoints ds)\<rparr>)) (
         textP (''Breakpoint '' @ itoa (bp_id (last bps)) @ '' set at '' @ file @ '':''
           @ itoa (bp_line (last bps)))))))" if "distinct existing" for existing
      by (cases "line \<in> set existing") (auto intro!: safety ord_setP upd that)
  qed (intro safety)
  show ?thesis
    unfolding breakpoint_def by (rule safe_client) (intro safety fn ln)
qed

lemma orderly_requests:
  "safe orderly (continueExecution t to)" "safe orderly (pauseExecution t)" "safe orderly (send_pause t)"
  "safe orderly (evaluateExpression e fr c)" "safe orderly (setVariable r n v)" "safe orderly (restartDebugger args)"
  "safe orderly (disassembleCode a off cnt)" "safe orderly (info ty)"
  unfolding continueExecution_def pauseExecution_def send_pause_def evaluateExpression_def setVariable_def
    restartDebugger_def disassembleCode_def info_def info_threads_def info_sources_def info_modules_def set_cursor_def Let_def
  by (rule safe_client, (intro safety)?, (auto intro!: safety split: option.split)?)+

end
