(* ===== verification/OrderlyHandlers.thy ===== *)
theory OrderlyHandlers
  imports Orderly
begin

text \<open>
  Every handler of \<^verbatim>\<open>tools.go\<close>, and the hook of the reconnect loop, keeps an orderly server in order: the ones that
  hold the mutex, the ones that wait without it, and the two that take the server through states that are
  not in order, ending a session and starting one.
\<close>

subsection \<open>Stepping and capturing\<close>

lemma orderly_step: "safe orderly (step mode t n)"
  unfolding step_def step_request_def
  by (rule safe_client) (intro safety, auto split: sum.split stop_or_term.split intro!: safety)

lemma orderly_context: "safe orderly (context_tool t f n)"
  unfolding context_tool_def by (rule safe_locked; intro safety, auto split: sum.split intro!: safety)

lemma orderly_capture: "safe orderly (capture t)"
  unfolding capture_def by (rule safe_locked) (intro safety)+

subsection \<open>Handlers that wait without the mutex\<close>

lemma ord_peek [safety]: "safe (ord False p k) (withLock (dsP f))"
  by (auto simp: leads_def withLock_eq dsP_def getsP_def ord_def nsubs_def cl_def intro: orderly_cong)

lemma orderly_yield: "safe orderly yieldP"
  by (rule safe_yield [OF orderly_stable])

lemma orderly_stampLock: "safe orderly (withLock stampP)"
  by (rule safe_locked) (intro safety)+

lemma leads_return:
  assumes "\<And>w. P w \<Longrightarrow> Q w"
  shows "leads P (returnP a) Q" "leads P (raiseP e) Q" "leads P (textP t) Q" "leads P panicP Q"
  using assms by (simp_all add: leads_def returnP_def raiseP_def textP_def panicP_def)

text \<open>The client that a handler reads stays an object of the heap.\<close>

lemma orderly_peek_client:
  assumes "\<And>p. leads (ord False p 0) (k p) orderly"
    and "\<And>w. orderly w \<Longrightarrow> m w = (Ok (g (w_ds w)), w\<lparr>w_locked := l w\<rparr>)"
    and "\<And>x. safe orderly (h x)" "\<And>ds p. ds_client ds = Some p \<Longrightarrow> K (g ds) = k p" "\<And>ds. ds_client ds = None \<Longrightarrow> K (g ds) = h (g ds)"
  shows "safe orderly (bindP m K)"
  unfolding leads_def
proof (intro allI impI)
  fix w assume o: "orderly w"
  let ?w = "w\<lparr>w_locked := l w\<rparr>"
  have o': "orderly ?w" by (rule orderly_lock [OF o])
  have e: "bindP m K w = K (g (w_ds w)) ?w" using assms(2) [OF o] by (simp add: bindP_def)
  show "orderly (snd (bindP m K w))"
  proof (cases "ds_client (w_ds w)")
    case None
    then show ?thesis using assms(3,5) o' e by (simp add: leads_def)
  next
    case (Some p)
    then have "ord False p 0 ?w" using o' by (auto simp: ord_def orderly_def world_ok_def)
    then show ?thesis using assms(1) assms(4) [OF Some] e by (simp add: leads_def)
  qed
qed

lemma leads_ord_bind:
  assumes "safe (ord b p k) m" "\<And>a. leads (ord b p k) (h a) orderly"
  shows "leads (ord b p k) (bindP m h) orderly"
  by (rule leads_bind [OF assms]) (simp add: ord_orderly)

lemma leads_ord_then:
  "safe (ord b p k) m \<Longrightarrow> leads (ord b p k) h orderly \<Longrightarrow> leads (ord b p k) (thenP m h) orderly"
  unfolding thenP_def by (rule leads_ord_bind)

lemma ord_weaken: "safe orderly m \<Longrightarrow> leads (ord b p k) m orderly"
  by (erule leads_pre) (rule ord_orderly)

lemma orderly_pauseAndCapture: "safe orderly (pauseAndCaptureContext t)"
proof -
  have wait: "leads (ord False p 0) (bindP (tryP (awaitStopOrTerminate (timeout_ctx now 2) p since)) (\<lambda>r. case r of
      Inr (GotStopped reason stopTid) \<Rightarrow> capture stopTid
    | Inr GotTerminated \<Rightarrow> returnP None
    | Inl e \<Rightarrow> if errors_Is e DeadlineExceeded then capture tid else raiseP e)) orderly" for p now since tid
    by (rule leads_ord_bind, intro safety, rule ord_weaken)
       (auto split: sum.split stop_or_term.split intro!: safety orderly_capture)
  have client: "safe orderly (bindP (dsP ds_client) (\<lambda>c. case c of None \<Rightarrow> panicP | Some p \<Rightarrow>
      bindP (tryP (awaitStopOrTerminate (timeout_ctx now 2) p since)) (\<lambda>r. case r of
      Inr (GotStopped reason stopTid) \<Rightarrow> capture stopTid
    | Inr GotTerminated \<Rightarrow> returnP None
    | Inl e \<Rightarrow> if errors_Is e DeadlineExceeded then capture tid else raiseP e)))" for now since tid
    by (rule orderly_peek_client [where l = w_locked and h = "\<lambda>_. panicP", OF wait]) (auto simp: dsP_def getsP_def intro: safety)
  show ?thesis
    unfolding pauseAndCaptureContext_def
    by (rule safe_bind [OF orderly_requests(3)], clarsimp, intro safety orderly_yield client)
qed

lemma orderly_waitForStop: "safe orderly (waitForStop n b t)"
proof -
  have wait: "leads (ord False p 0) (thenP yieldP (bindP (withLock (dsP ds_lastStopAt)) (\<lambda>since. bindP nowP (\<lambda>now.
      bindP (tryP (awaitStopOrTerminate (timeout_ctx now (clamp_timeout n)) p since)) (\<lambda>r. case r of
         Inr (GotStopped reason tid) \<Rightarrow> capture tid
       | Inr GotTerminated \<Rightarrow> thenP (withLock stampP) (textP ''Program terminated'')
       | Inl e \<Rightarrow> if errors_Is e DeadlineExceeded then
             if \<not> b then textP (still_running_text (clamp_timeout n)) else pauseAndCaptureContext t
           else raiseP e))))) orderly" for p
    by (rule leads_ord_then, rule safety, rule leads_ord_bind, rule safety, rule leads_ord_bind, rule safety,
        rule leads_ord_bind, intro safety, rule ord_weaken)
       (auto split: sum.split stop_or_term.split intro!: safety orderly_capture orderly_stampLock orderly_pauseAndCapture)
  show ?thesis
    unfolding waitForStop_def
    by (rule orderly_peek_client [where l = "\<lambda>_. False" and h = "\<lambda>_. raiseP (ErrNew ''debugger not started'')", OF wait])
       (auto simp: withLock_eq dsP_def getsP_def intro: safety)
qed

lemma ord_poll [safety]: "safe (ord b p k) (poll_stale q deadline)"
proof -
  have "safe (ord b p k) (blockP (\<lambda>pick w. select pick
      (ctx_case base_ctx w @ (if t0 + poll_interval \<le> w_now w then [(Ok (), w)] else []))))" for t0
    by (rule safe_block [OF ord_stable])
       (auto dest!: select_in simp: ctx_case_def split: option.splits if_splits)
  then show ?thesis
    unfolding poll_stale_def poll_turn_def by (intro safety) auto
qed

lemma orderly_reconnect: "safe orderly (reconnect force n)"
proof -
  let ?k = "\<lambda>b p. if force \<and> \<not> supports_redial b then
             raiseP (ErrNew ''reconnect: backend does not support redial (current backend is SpawnBackend; reconnect is only meaningful for ConnectBackend sessions)'')
           else
             thenP (if force then markStaleP p else returnP ()) (
             thenP yieldP (
             bindP (staleP p) (\<lambda>stale.
             if \<not> stale then textP healthy_text
             else if \<not> supports_redial b then
               raiseP (ErrNew ''reconnect: connection stale but backend does not support redial; call 'stop' and start a new debug session'')
             else
               bindP (getsP (\<lambda>w. c_attempts (cl w p))) (\<lambda>before.
               bindP nowP (\<lambda>start.
               thenP (poll_stale p (start + seconds (clamp_timeout n))) (
               reconnect_status p start before))))))"
  have "safe (ord False p 0) (?k b p)" for b p
    unfolding reconnect_status_def Let_def by (intro safety)
  then have k: "leads (ord False p 0) (?k b p) orderly" for b p by (rule leads_weaken) (rule ord_orderly)
  show ?thesis
    unfolding leads_def
  proof (intro allI impI)
    fix w assume o: "orderly w"
    have e: "reconnect force n w = (case ds_client (w_ds w) of
        None \<Rightarrow> raiseP (ErrNew ''debugger not started'') | Some p \<Rightarrow> ?k (ds_backend (w_ds w)) p) (w\<lparr>w_locked := False\<rparr>)"
      by (simp add: reconnect_def withLock_eq dsP_def getsP_def bindP_def split: option.split)
    have o': "orderly (w\<lparr>w_locked := False\<rparr>)" by (rule orderly_lock [OF o])
    show "orderly (snd (reconnect force n w))"
    proof (cases "ds_client (w_ds w)")
      case None
      then show ?thesis using o' by (simp only: e option.case raiseP_def snd_conv)
    next
      case (Some p)
      then have "ord False p 0 (w\<lparr>w_locked := False\<rparr>)" using o' by (auto simp: ord_def orderly_def world_ok_def)
      then show ?thesis using k unfolding e Some option.case leads_def by blast
    qed
  qed
qed

subsection \<open>Ending a session\<close>

text \<open>Closed, and not yet out of the session; out of the session, and the tools not yet exchanged; idle.\<close>

definition closing :: "bool \<Rightarrow> nat \<Rightarrow> world \<Rightarrow> bool" where
  "closing l p w \<longleftrightarrow> orderly w \<and> w_locked w = l \<and> p < length (w_clients w) \<and> c_ctx_done (cl w p)
     \<and> (ds_client (w_ds w) = Some p \<or> ds_client (w_ds w) = None)"

definition shut :: "world \<Rightarrow> bool" where
  "shut w \<longleftrightarrow> world_ok w \<and> bp_ok (w_ds w) \<and> w_procs w = (if ds_cmd (w_ds w) then 1 else 0)
     \<and> (\<forall>q < length (w_clients w). c_ctx_done (cl w q)) \<and> ds_client (w_ds w) = None"

definition idle :: "world \<Rightarrow> bool" where
  "idle w \<longleftrightarrow> orderly w \<and> ds_client (w_ds w) = None \<and> \<not> ds_cmd (w_ds w)"

lemma env_do_client: "ds_client (w_ds (env_do a w)) = ds_client (w_ds w) \<or> ds_client (w_ds (env_do a w)) = None"
  by (induction a w rule: env_do.induct)
     (auto simp: reinit_session_def reset_session_def split: hook_end.split option.split)

lemma closing_stable: "stable (closing l p)"
  unfolding stable_def
proof (intro conjI allI impI)
  fix a w assume c: "closing l p w"
  then have "wle w (env_do a w)" using env_do_ok by (auto simp: closing_def orderly_def)
  then have "c_ctx_done (cl (env_do a w) p)" using c sys_steps_ctx_done by (auto simp: wle_def closing_def)
  then show "closing l p (env_do a w)"
    using c env_do_client [of a w] by (auto simp: closing_def env_do_static orderly_env)
qed (auto simp: closing_def cl_def intro: orderly_cong)

lemma closeP_closing:
  "hoare (\<lambda>w. orderly w \<and> w_locked w = l \<and> ds_client (w_ds w) = Some p) (closeP p) (\<lambda>_. closing l p) E orderly"
proof -
  have close: "closing l p (upd_cl p Close w)"
    if "orderly w \<and> w_locked w = l \<and> ds_client (w_ds w) = Some p" for w
  proof -
    have "p < length (w_clients w)" using that by (simp add: orderly_def world_ok_def)
    then show ?thesis
      using that orderly_steps [OF _ steps_Close, of w p]
      by (simp add: closing_def cl_upd_cl) (simp add: Close_def close_conn_def)
  qed
  have wait: "hoare (closing l p) (blockP (\<lambda>pick w. if c_pump (cl w p) = PExit then Some (Ok (), w) else None))
      (\<lambda>_. closing l p) E orderly"
    by (rule hoare_block [OF closing_stable]) (auto split: if_splits simp: closing_def)
  show ?thesis
    unfolding closeP_def
    by (rule hoare_then, rule hoare_modify, erule close, rule hoare_bind, rule hoare_gets, assumption)
       (auto intro: hoare_if hoare_return wait)
qed

lemma closing_shut: "closing l p w \<Longrightarrow> shut (upd_ds (\<lambda>ds. ds\<lparr>ds_client := None\<rparr>) w)"
  by (auto simp: closing_def shut_def orderly_def world_ok_def bp_ok_def)

lemma shut_idle:
  assumes "shut v"
  shows "\<exists>v'. thenP killP (thenP (setP reset_session) unregisterSessionTools) v = (Ok (), v') \<and> idle v'
    \<and> w_locked v' = w_locked v"
proof -
  let ?v = "v\<lparr>w_ds := reset_session ((w_ds v)\<lparr>ds_cmd := False\<rparr>), w_procs := 0,
    w_server := w_server v @ unregistration always_tools\<rparr>"
  have "thenP killP (thenP (setP reset_session) unregisterSessionTools) v = (Ok (), ?v)"
    using assms by (simp add: shut_def thenP_def bindP_def killP_def modifyP_def setP_def upd_ds_def reset_session_def
        unregisterSessionTools_def dsP_def getsP_def serverP_def sessionToolNames_def gated_tools_def no_capabilities_def)
  moreover have "offer_ok (tools ?v) False"
    by (auto simp: tools_def offer_ok_def offered_append offered_unregistration debug_is_no_session_tool)
  then have "idle ?v"
    using assms by (simp add: idle_def shut_def orderly_def world_ok_def bp_ok_def reset_session_def cl_def)
  ultimately show ?thesis by auto
qed

lemma cleanup_idles:
  "hoare (\<lambda>w. orderly w \<and> w_locked w = l) cleanup (\<lambda>_ w. idle w \<and> w_locked w = l) E orderly"
proof -
  have rest: "hoare (\<lambda>w. shut w \<and> w_locked w = l) (thenP killP (thenP (setP reset_session) unregisterSessionTools))
      (\<lambda>_ w. idle w \<and> w_locked w = l) E orderly"
    unfolding hoare_def using shut_idle by fastforce
  have "hoare (\<lambda>w. orderly w \<and> w_locked w = l \<and> ds_client (w_ds w) = c) (case c of None \<Rightarrow> returnP ()
      | Some p \<Rightarrow> thenP (closeP p) (setP (\<lambda>ds. ds\<lparr>ds_client := None\<rparr>))) (\<lambda>_ w. shut w \<and> w_locked w = l) E orderly" for c
  proof (cases c)
    case None
    then show ?thesis by (auto intro!: hoare_return simp: shut_def orderly_def)
  next
    case (Some p)
    then show ?thesis unfolding setP_def
      by (auto intro!: hoare_then [OF closeP_closing] hoare_modify simp: closing_shut) (auto simp: closing_def)
  qed
  note mid = this
  show ?thesis
    unfolding cleanup_def
    by (rule hoare_bind [where A = "\<lambda>c w. orderly w \<and> w_locked w = l \<and> ds_client (w_ds w) = c"], unfold dsP_def,
        rule hoare_gets, simp, rule hoare_then [OF mid rest])
qed

lemma orderly_cleanup: "safe orderly cleanup"
  unfolding leads_def
proof (intro allI impI)
  fix w assume o: "orderly w"
  obtain r v where m: "cleanup w = (r, v)" by force
  note D = hoare_D [OF cleanup_idles [where E = "\<lambda>_ _. False"] conjI [OF o refl], where w' = v]
  show "orderly (snd (cleanup w))" using D m by (cases r) (auto simp: idle_def)
qed

lemma orderly_stop: "safe orderly (stop detach)"
proof -
  have c: "leads P (thenP cleanup (textP t)) orderly" if "\<And>w. P w \<Longrightarrow> orderly w" for t P
    by (rule leads_pre [OF _ that], rule safe_then [OF orderly_cleanup]) (auto intro: safety)
  have d: "leads (ord True p 0) (bindP (tryP (bindP (DisconnectRequest p False) (\<lambda>seq.
      awaitResponseValidate base_ctx p seq ''disconnect''))) (\<lambda>_. thenP cleanup (textP t))) orderly" for p t
    by (rule leads_ord_bind) (auto intro!: safety c simp: ord_orderly)
  have "leads (\<lambda>w. orderly w \<and> w_locked w) (bindP (dsP ds_cmd) (\<lambda>cmd. bindP (dsP ds_client) (\<lambda>x.
       if \<not> cmd \<and> x = None then textP ''No debug session active''
       else case (detach, x) of
           (True, Some p) \<Rightarrow>
             bindP (tryP (bindP (DisconnectRequest p False) (\<lambda>seq.
                            awaitResponseValidate base_ctx p seq ''disconnect''))) (\<lambda>_.
             thenP cleanup (textP ''Detached from process (debuggee still running)''))
         | _ \<Rightarrow> thenP cleanup (textP ''Debug session stopped'')))) orderly"
    unfolding leads_def
  proof (intro allI impI)
    fix w assume o: "orderly w \<and> w_locked w"
    have e: "ord True p 0 w" if "ds_client (w_ds w) = Some p" for p
      using o that by (auto simp: ord_def orderly_def world_ok_def)
    have c': "orderly (snd (thenP cleanup (textP t) w))" for t
      using c [of orderly t] o by (simp add: leads_def)
    show "orderly (snd (bindP (dsP ds_cmd) (\<lambda>cmd. bindP (dsP ds_client) (\<lambda>x.
       if \<not> cmd \<and> x = None then textP ''No debug session active''
       else case (detach, x) of
           (True, Some p) \<Rightarrow>
             bindP (tryP (bindP (DisconnectRequest p False) (\<lambda>seq.
                            awaitResponseValidate base_ctx p seq ''disconnect''))) (\<lambda>_.
             thenP cleanup (textP ''Detached from process (debuggee still running)''))
         | _ \<Rightarrow> thenP cleanup (textP ''Debug session stopped''))) w))"
      using o c' d e
      by (cases "ds_client (w_ds w)") (auto simp: dsP_def getsP_def bindP_def [of "getsP _"] textP_def returnP_def leads_def split: bool.split)
  qed
  then show ?thesis unfolding stop_def by (rule safe_withLock)
qed

subsection \<open>Starting a session\<close>

text \<open>A process may run, and there is no client yet.\<close>

definition spawned :: "world \<Rightarrow> bool" where
  "spawned w \<longleftrightarrow> orderly w \<and> w_locked w \<and> ds_client (w_ds w) = None"

lemma prepare_idle:
  assumes "idle w \<and> w_locked w" "prepare dp w = (r, w')" shows "idle w' \<and> w_locked w'"
proof -
  have "w' = w \<or> (\<exists>b. w' = upd_ds (\<lambda>ds. ds\<lparr>ds_backend := Some b\<rparr>) w)"
    using prepare_cases [OF assms(2)] by (cases r) (auto split: prod.splits)
  moreover have "orderly (upd_ds (\<lambda>ds. ds\<lparr>ds_backend := Some b\<rparr>) w)" for b
    by (rule orderly_harmless) (use assms(1) in \<open>simp_all add: idle_def harmless_def bp_ok_def\<close>)
  ultimately show ?thesis using assms(1) by (auto simp: idle_def)
qed

lemma spawnP_orderly:
  assumes "idle w \<and> w_locked w" "spawnP b dp w = (r, w')" shows "spawned w'"
proof -
  have "w' = w \<or> (\<exists>c. w' = upd_ds (\<lambda>ds. ds\<lparr>ds_cmd := c\<rparr>) (w\<lparr>w_procs := w_procs w + (if c then 1 else 0)\<rparr>))"
    using spawnP_cases [OF assms(2)] by (cases r; simp only: res.case; blast)
  then show ?thesis
    using assms(1) by (auto simp: spawned_def idle_def orderly_def world_ok_def bp_ok_def tools_def cl_def)
qed

lemma connect_orderly:
  assumes "spawned w" "connect_client b addr w = (r, w')"
  shows "orderly w'" "r = Ok p \<Longrightarrow> ord True p 0 w' \<and> (\<exists>n r. cl w' p = newDAPClientInternal n r)"
proof -
  have *: "orderly w' \<and> (\<forall>p. r = Ok p \<longrightarrow> ord True p 0 w' \<and> (\<exists>n r. cl w' p = newDAPClientInternal n r))"
  proof (cases r)
    case (Ok p)
    then obtain n x where w': "p = length (w_clients w)" "w' = upd_ds (\<lambda>ds. ds\<lparr>ds_client := Some p\<rparr>)
        (w\<lparr>w_clients := w_clients w @ [newDAPClientInternal n x]\<rparr>)"
      using connect_cases [OF assms(2)] by auto
    have "''debug'' \<in> tools w" using assms(1) by (auto simp: spawned_def orderly_def offer_ok_def split: if_splits)
    then have "orderly w'"
      using assms(1) unfolding w'
      by (auto simp: spawned_def orderly_def world_ok_def bp_ok_def tools_def cl_def nth_append offer_ok_def reach_init
          less_Suc_eq)
    then show ?thesis using assms(1) Ok by (auto simp: ord_def spawned_def w' cl_def)
  qed (use connect_cases [OF assms(2)] assms(1) in \<open>auto simp: spawned_def\<close>)
  then show "orderly w'" "r = Ok p \<Longrightarrow> ord True p 0 w' \<and> (\<exists>n r. cl w' p = newDAPClientInternal n r)" by auto
qed

lemma startP_orderly:
  "leads (\<lambda>w. ord True p 0 w \<and> (\<exists>n r. cl w p = newDAPClientInternal n r)) (startP p) (ord True p 0)"
  unfolding leads_def startP_def modifyP_def
proof (intro allI impI, elim conjE exE)
  fix w n r assume o: "ord True p 0 w" and c: "cl w p = newDAPClientInternal n r"
  have "sys_step\<^sup>*\<^sup>* (cl w p) (Start (SetReinitHook (cl w p)))"
    by (rule rtranclp.rtrancl_into_rtrancl [where b = "SetReinitHook (cl w p)"], rule r_into_rtranclp, rule sys_set_hook,
        rule sys_start) (simp_all add: c SetReinitHook_def newDAPClientInternal_def)
  from ord_upd_cl [OF o, of p "\<lambda>c. Start (SetReinitHook c)", OF this]
  show "ord True p 0 (snd ((Ok () :: unit res, upd_cl p (\<lambda>c. Start (SetReinitHook c)) w)))" by simp
qed

lemma ord_register_tools [safety]: "safe (ord True p k) registerSessionTools"
proof -
  have "ord True p k (w\<lparr>w_server := w_server w @ registration caps\<rparr>)" if "ord True p k w" for w caps
    using that by (auto simp: ord_def orderly_def world_ok_def tools_def offered_append offered_registration offer_ok_def
        debug_is_no_session_tool nsubs_def cl_def)
  then show ?thesis
    unfolding registerSessionTools_def serverP_def by (intro safety safe_modify)
qed

lemma ord_response_failed [safety]: "safe (ord b p k) (response_failed t m)"
  by (auto simp: response_failed_def split: dap_msg.split intro: safety)

lemma ord_initial_breakpoint [safety]: "safe (ord b p k) (initial_breakpoint p bp)"
  unfolding initial_breakpoint_def by (intro safety)

lemma ord_request_cmd [safety]: "safe (ord b p k) (bindP (liftP cmd) (configure p dp since))"
  unfolding configure_def by (intro safety)

lemma ord_handshake [safety]: "safe (ord b p k) (handshake p be mode dp)"
  unfolding handshake_def by (intro safety)

lemma ord_core_context [safety]: "safe (ord True p k) (core_context p since)"
  unfolding core_context_def by (intro safety) (auto split: stop_or_term.split intro!: safety)

lemma hold_ord: "hold (ord b p k) p is = ord b p (Max (insert k (Suc ` set is)))"
  by (rule ext) (auto simp: hold_def ord_def nsubs_def Suc_le_eq)

lemma safe_subscribed:
  assumes adm: "admissible I p" and body: "\<And>i. safe (hold I p (i # is)) (body i)"
  shows "safe (hold I p is) (bindP (SubscribeP p t since) (\<lambda>i. deferP (body i) (cancelP p i)))"
proof (rule leads_value [where P' = "\<lambda>i. hold I p (i # is)"])
  fix w assume h: "hold I p is w"
  have "hoare (hold I p is) (SubscribeP p t since) (\<lambda>i. hold I p (i # is)) (\<lambda>_. hold I p is) (hold I p is)"
    by (rule SubscribeP_ok [OF adm])
  note D = hoare_D [OF this h]
  show "SubscribeP p t since w = (Ok i, w') \<Longrightarrow> hold I p (i # is) w'" for i w' by (rule D(1))
  obtain r v where m: "SubscribeP p t since w = (r, v)" by force
  show "hold I p is (snd (SubscribeP p t since w))"
    using D [where w' = v] m by (cases r) (auto simp: hold_def)
next
  fix i
  have "safe (hold I p (i # is)) (cancelP p i)" by (rule safe_hoare, rule cancelP_ok [OF adm]) simp
  then have "safe (hold I p (i # is)) (deferP (body i) (cancelP p i))" by (rule safe_defer [OF body])
  then show "leads (hold I p (i # is)) (deferP (body i) (cancelP p i)) (hold I p is)"
    by (rule leads_weaken) (simp add: hold_def)
qed

lemma ord_wait_first_stop [safety]: "safe (ord True p 0) (wait_first_stop p since)"
proof -
  have h: "safe (hold (ord True p 0) p is) m" if "\<And>k. safe (ord True p k) m" for "is" and m :: "'a prog"
    unfolding hold_ord by (rule that)
  have turn: "safe (hold (ord True p 0) p [l, t, s]) (wait_turn p s t l)" for l t s
    unfolding wait_turn_def
    by (rule safe_bind [OF safe_hoare [OF startup_block [OF ord_admissible]]])
       (auto split: startup.split intro!: h safety)
  have "safe (hold (ord True p 0) p []) (wait_first_stop p since)"
    unfolding wait_first_stop_def
    by (rule safe_subscribed [OF ord_admissible])+ (rule safe_bind, rule safe_loop, rule turn, rule h, intro safety)
  then show ?thesis by simp
qed

lemma ord_first_result [safety]: "safe (ord True p 0) (first_result p mode dp since)"
  unfolding first_result_def by (intro safety)

lemma orderly_debug: "safe orderly (debug dp)"
proof -
  have rest: "leads (\<lambda>w. ord True p 0 w \<and> (\<exists>n r. cl w p = newDAPClientInternal n r)) (thenP (startP p) (
      bindP (handshake p b mode dp) (\<lambda>since. thenP stampP (thenP registerSessionTools (first_result p mode dp since))))) orderly"
    for p b mode
    unfolding thenP_def [of "startP p"] by (rule leads_bind [OF startP_orderly]) (auto intro!: leads_weaken [OF _ ord_orderly] safety simp: ord_orderly)
  have connect: "leads spawned (bindP (connect_client b addr) (\<lambda>p. thenP (startP p) (
      bindP (handshake p b mode dp) (\<lambda>since. thenP stampP (thenP registerSessionTools (first_result p mode dp since)))))) orderly"
    for b addr mode
    by (rule leads_value [OF connect_orderly(2) _ rest]) (auto intro: connect_orderly(1) [OF _ prod.collapse [symmetric]])
  have spawn: "leads (\<lambda>w. idle w \<and> w_locked w) (bindP (spawnP b dp) (\<lambda>addr. bindP (connect_client b addr) (\<lambda>p. thenP (startP p) (
      bindP (handshake p b mode dp) (\<lambda>since. thenP stampP (thenP registerSessionTools (first_result p mode dp since))))))) orderly"
    for b mode
    by (rule leads_value [OF spawnP_orderly _ connect])
       (auto intro!: spawnP_orderly [OF _ prod.collapse [symmetric], THEN spawned_def [THEN iffD1], THEN conjunct1])
  have prep: "leads (\<lambda>w. idle w \<and> w_locked w) (bindP (prepare dp) (\<lambda>(mode, b). bindP (spawnP b dp) (\<lambda>addr.
      bindP (connect_client b addr) (\<lambda>p. thenP (startP p) (bindP (handshake p b mode dp) (\<lambda>since.
      thenP stampP (thenP registerSessionTools (first_result p mode dp since)))))))) orderly"
  proof (rule leads_value [where P' = "\<lambda>_ w. idle w \<and> w_locked w"])
    show "orderly (snd (prepare dp w))" if "idle w \<and> w_locked w" for w
      using prepare_idle [OF that prod.collapse [symmetric]] by (simp add: idle_def)
    show "idle w' \<and> w_locked w'" if "idle w \<and> w_locked w" "prepare dp w = (Ok x, w')" for w x w'
      by (rule prepare_idle [OF that])
  qed (auto intro: spawn)
  show ?thesis
    unfolding debug_def thenP_def [of cleanup]
  proof (rule safe_withLock, rule leads_value [where P' = "\<lambda>_ w. idle w \<and> w_locked w"])
    fix w assume o: "orderly w \<and> w_locked w"
    note D = hoare_D [OF cleanup_idles [where l = True and E = "\<lambda>_ _. False"], of w]
    show "idle w' \<and> w_locked w'" if "cleanup w = (Ok a, w')" for a w' using D(1) [OF _ that] o by simp
    show "orderly (snd (cleanup w))" using orderly_cleanup o by (simp add: leads_def)
  qed (rule prep)
qed

lemma orderly_reinitialize: "safe orderly (reinitialize ctx)"
proof -
  have one: "safe (ord b p k) (reinit_file c p n a x)" for b p k c n a x
    unfolding reinit_file_def Let_def by (cases x) (simp, intro safety)
  have files: "safe (ord b p k) (reinit_files c p n a xs)" for b p k c n a xs
    by (induction xs arbitrary: a) (auto intro!: safety one)
  have conf: "safe (ord b p k) (reinit_configure c p)" "safe (ord b p k) (reinit_attach c p be)" "safe (ord b p k) (reinit_initialize c p be)" for b p k c be
    unfolding reinit_configure_def reinit_functions_def reinit_attach_def reinit_initialize_def
    by (intro safety files)+
  have run: "leads (ord True p 0) (thenP (reinit_initialize ctx p b) (thenP (reinit_attach ctx p b) (thenP (reinit_configure ctx p) (
       setP (\<lambda>ds. ds\<lparr>ds_stoppedThreadID := 0, ds_lastFrameID := - 1, ds_lastStopAt := zero_time\<rparr>))))) orderly" for p b
    by (rule leads_weaken [where Q = "ord True p 0"], intro safety conf, rule ord_orderly)
  have "leads (\<lambda>w. orderly w \<and> w_locked w) (bindP (dsP ds_client) (\<lambda>c. bindP (dsP ds_backend) (\<lambda>b. case (c, b) of
         (None, _) \<Rightarrow> raiseP (ErrNew ''reinitialize: no DAP client'')
       | (Some p, None) \<Rightarrow> raiseP (ErrNew ''reinitialize: no backend'')
       | (Some p, Some b) \<Rightarrow> thenP (reinit_initialize ctx p b) (thenP (reinit_attach ctx p b) (thenP (reinit_configure ctx p) (
           setP (\<lambda>ds. ds\<lparr>ds_stoppedThreadID := 0, ds_lastFrameID := - 1, ds_lastStopAt := zero_time\<rparr>))))))) orderly"
    unfolding leads_def
  proof (intro allI impI)
    fix w assume o: "orderly w \<and> w_locked w"
    have e: "ord True p 0 w" if "ds_client (w_ds w) = Some p" for p
      using o that by (auto simp: ord_def orderly_def world_ok_def)
    show "orderly (snd (bindP (dsP ds_client) (\<lambda>c. bindP (dsP ds_backend) (\<lambda>b. case (c, b) of
         (None, _) \<Rightarrow> raiseP (ErrNew ''reinitialize: no DAP client'')
       | (Some p, None) \<Rightarrow> raiseP (ErrNew ''reinitialize: no backend'')
       | (Some p, Some b) \<Rightarrow> thenP (reinit_initialize ctx p b) (thenP (reinit_attach ctx p b) (thenP (reinit_configure ctx p) (
           setP (\<lambda>ds. ds\<lparr>ds_stoppedThreadID := 0, ds_lastFrameID := - 1, ds_lastStopAt := zero_time\<rparr>)))))) w))"
      using o run e
      by (cases "ds_client (w_ds w)"; cases "ds_backend (w_ds w)")
         (auto simp: dsP_def getsP_def bindP_def [of "getsP _"] raiseP_def leads_def)
  qed
  then show ?thesis unfolding reinitialize_def by (rule safe_withLock)
qed

end
