(* ===== verification/Wire.thy ===== *)
theory Wire
  imports Messages Logger Format
begin

text \<open>
  What the request methods of \<^verbatim>\<open>dap.go\<close> put into a request: the command name given to \<open>newRequest\<close>, and the
  arguments, as the fields the code assigns, under their Go names, or as the map it marshals, under its keys.
  How go-dap encodes the fields is the library's.
\<close>

subsection \<open>Commands\<close>

fun command_name :: "command \<Rightarrow> string" where
  "command_name (Initialize a) = ''initialize''"
| "command_name (Launch args) = ''launch''"
| "command_name (Attach args) = ''attach''"
| "command_name (SetBreakpoints f ls) = ''setBreakpoints''"
| "command_name (SetFunctionBreakpoints fs) = ''setFunctionBreakpoints''"
| "command_name ConfigurationDone = ''configurationDone''"
| "command_name (Continue t) = ''continue''"
| "command_name (Next t) = ''next''"
| "command_name (StepIn t) = ''stepIn''"
| "command_name (StepOut t) = ''stepOut''"
| "command_name (Pause t) = ''pause''"
| "command_name Threads = ''threads''"
| "command_name (StackTrace t s l) = ''stackTrace''"
| "command_name (Scopes f) = ''scopes''"
| "command_name (Variables r) = ''variables''"
| "command_name (Evaluate e f c) = ''evaluate''"
| "command_name (Disconnect b) = ''disconnect''"
| "command_name (ExceptionInfo t) = ''exceptionInfo''"
| "command_name (SetVariable r n v) = ''setVariable''"
| "command_name (Restart args) = ''restart''"
| "command_name Terminate = ''terminate''"
| "command_name (StepBack t) = ''stepBack''"
| "command_name LoadedSources = ''loadedSources''"
| "command_name Modules = ''modules''"
| "command_name (BreakpointLocations s l) = ''breakpointLocations''"
| "command_name (Completions t c f) = ''completions''"
| "command_name (Disassemble m i n) = ''disassemble''"
| "command_name (SetExceptionBreakpoints fs) = ''setExceptionBreakpoints''"
| "command_name (DataBreakpointInfo r n) = ''dataBreakpointInfo''"
| "command_name (SetDataBreakpoints bs) = ''setDataBreakpoints''"
| "command_name (SourceReq r) = ''source''"

definition initialize_args :: "string \<Rightarrow> jargs" where
  "initialize_args adapterID = [(''AdapterID'', JStr adapterID), (''PathFormat'', JStr ''path''),
     (''LinesStartAt1'', JBool True), (''ColumnsStartAt1'', JBool True), (''SupportsVariableType'', JBool True),
     (''SupportsVariablePaging'', JBool True), (''SupportsRunInTerminalRequest'', JBool False),
     (''Locale'', JStr ''en-us'')]"

definition setBreakpoints_args :: "string \<Rightarrow> int list \<Rightarrow> jargs" where
  "setBreakpoints_args file lines = [(''Source'', JObj [(''Name'', JStr file), (''Path'', JStr file)]),
     (''Breakpoints'', JList (map (\<lambda>l. JObj [(''Line'', JInt l)]) lines))]"

definition setFunctionBreakpoints_args :: "string list \<Rightarrow> jargs" where
  "setFunctionBreakpoints_args functions = [(''Breakpoints'', JList (map (\<lambda>f. JObj [(''Name'', JStr f)]) functions))]"

text \<open>An empty context is left out.\<close>

definition evaluate_args :: "string \<Rightarrow> int \<Rightarrow> string option \<Rightarrow> jargs" where
  "evaluate_args expression frameID context = [(''expression'', JStr expression), (''frameId'', JInt frameID)]
     @ (case context of None \<Rightarrow> [] | Some c \<Rightarrow> [(''context'', JStr c)])"

text \<open>The arguments of a request, \<open>None\<close> when the code sets none.\<close>

fun command_args :: "command \<Rightarrow> jargs option" where
  "command_args (Initialize a) = Some (initialize_args a)"
| "command_args (Launch args) = Some args"
| "command_args (Attach args) = Some args"
| "command_args (SetBreakpoints f ls) = Some (setBreakpoints_args f ls)"
| "command_args (SetFunctionBreakpoints fs) = Some (setFunctionBreakpoints_args fs)"
| "command_args ConfigurationDone = None"
| "command_args (Continue t) = Some [(''ThreadId'', JInt t)]"
| "command_args (Next t) = Some [(''ThreadId'', JInt t)]"
| "command_args (StepIn t) = Some [(''ThreadId'', JInt t)]"
| "command_args (StepOut t) = Some [(''ThreadId'', JInt t)]"
| "command_args (Pause t) = Some [(''ThreadId'', JInt t)]"
| "command_args Threads = None"
| "command_args (StackTrace t s l) = Some [(''ThreadId'', JInt t), (''StartFrame'', JInt s), (''Levels'', JInt l)]"
| "command_args (Scopes f) = Some [(''FrameId'', JInt f)]"
| "command_args (Variables r) = Some [(''VariablesReference'', JInt r)]"
| "command_args (Evaluate e f c) = Some (evaluate_args e f c)"
| "command_args (Disconnect b) = Some [(''TerminateDebuggee'', JBool b)]"
| "command_args (ExceptionInfo t) = Some [(''ThreadId'', JInt t)]"
| "command_args (SetVariable r n v) = Some [(''VariablesReference'', JInt r), (''Name'', JStr n), (''Value'', JStr v)]"
| "command_args (Restart args) = args"
| "command_args Terminate = None"
| "command_args (StepBack t) = Some [(''ThreadId'', JInt t)]"
| "command_args LoadedSources = None"
| "command_args Modules = None"
| "command_args (BreakpointLocations s l) = Some [(''Source'', JObj [(''Path'', JStr s)]), (''Line'', JInt l)]"
| "command_args (Completions t c f) = Some [(''Text'', JStr t), (''Column'', JInt c), (''FrameId'', JInt f)]"
| "command_args (Disassemble m i n) = Some [(''MemoryReference'', JStr m), (''InstructionOffset'', JInt i),
     (''InstructionCount'', JInt n)]"
| "command_args (SetExceptionBreakpoints fs) = Some [(''Filters'', JStrs fs)]"
| "command_args (DataBreakpointInfo r n) = Some [(''VariablesReference'', JInt r), (''Name'', JStr n)]"
| "command_args (SetDataBreakpoints bs) = Some [(''Breakpoints'', JStrs bs)]"
| "command_args (SourceReq r) = Some [(''SourceReference'', JInt r)]"

subsection \<open>Requests are told apart\<close>

lemma inj_line: "inj (\<lambda>l. JObj [(''Line'', JInt l)])" "inj (\<lambda>f. JObj [(''Name'', JStr f)])"
  by (simp_all add: inj_def)

lemma args_inject [simp]:
  "initialize_args a = initialize_args b \<longleftrightarrow> a = b"
  "setBreakpoints_args f ls = setBreakpoints_args g ms \<longleftrightarrow> f = g \<and> ls = ms"
  "setFunctionBreakpoints_args fs = setFunctionBreakpoints_args gs \<longleftrightarrow> fs = gs"
  "evaluate_args e i c = evaluate_args e' i' c' \<longleftrightarrow> e = e' \<and> i = i' \<and> c = c'"
  by (auto simp: initialize_args_def setBreakpoints_args_def setFunctionBreakpoints_args_def evaluate_args_def
      inj_map_eq_map [OF inj_line(1)] inj_map_eq_map [OF inj_line(2)] split: option.splits)

text \<open>No two requests have the same name and arguments, so the adapter sees what the model records.\<close>

lemma wire_form_inject:
  assumes "command_name c = command_name c'" "command_args c = command_args c'"
  shows "c = c'"
  using assms by (cases c; cases c') simp_all

subsection \<open>The trace of requests\<close>

text \<open>\<open>traceRequest\<close>: the log after a request is about to be written.\<close>

definition traceRequest :: "LogLevel \<Rightarrow> command \<Rightarrow> int \<Rightarrow> string list \<Rightarrow> string list" where
  "traceRequest current cmd seq log = (if current < LogTrace then log
     else log @ [sprintf ''dap send: %s seq=%d'' [FStr (command_name cmd), FInt seq]])"

lemma traceRequest_line: "\<not> current < LogTrace \<Longrightarrow>
    traceRequest current cmd seq log = log @ [''dap send: '' @ command_name cmd @ '' seq='' @ itoa seq]"
  by (simp add: traceRequest_def sprintf.simps(2) extra_text_def)

end
