(* ===== verification/Server.thy ===== *)
theory Server
  imports Prompts Wire
begin

text \<open>
  \<^verbatim>\<open>main.go\<close>: the address and the log files of a server process, what it does to the file system when it
  starts and when it is asked for its goroutines, and its life from the registration of the
  tools to the deferred clean-up.  \<^verbatim>\<open>server.Run\<close> of the MCP library is a parameter: a program that serves
  requests until its transport ends.
\<close>

subsection \<open>Command line and environment\<close>

record main_env =
  mn_connect :: string        \<comment> \<open>the flag -connect\<close>
  mn_version :: bool          \<comment> \<open>the flag -version\<close>
  mn_addr :: string           \<comment> \<open>DAP_CONNECT_ADDR\<close>
  mn_namespace :: string      \<comment> \<open>DLV_NAMESPACE\<close>
  mn_service :: string        \<comment> \<open>DLV_SERVICE\<close>
  mn_tmp :: string            \<comment> \<open>os.TempDir()\<close>
  mn_pid :: int               \<comment> \<open>os.Getpid()\<close>

definition version :: string where
  "version = ''0.2.3''"

definition connect_address :: "main_env \<Rightarrow> string" where
  "connect_address env = (if mn_connect env = [] then mn_addr env else mn_connect env)"

definition log_tag :: "string \<Rightarrow> string \<Rightarrow> string" where
  "log_tag ns svc = (if ns \<noteq> [] \<and> svc \<noteq> [] then ns @ ''-'' @ svc @ ''.'' else [])"

text \<open>\<^verbatim>\<open>filepath.Join\<close> of a directory and a file name.\<close>

fun slash_parts :: "string \<Rightarrow> string \<Rightarrow> string list" where
  "slash_parts acc [] = [rev acc]"
| "slash_parts acc (c # cs) = (if c = CHR ''/'' then rev acc # slash_parts [] cs else slash_parts (c # acc) cs)"

definition clean_step :: "bool \<Rightarrow> string list \<Rightarrow> string \<Rightarrow> string list" where
  "clean_step rooted cs c =
     (if c = [] \<or> c = ''.'' then cs
      else if c = ''..'' then
        (if cs \<noteq> [] \<and> last cs \<noteq> ''..'' then butlast cs else if rooted then cs else cs @ [c])
      else cs @ [c])"

primrec slash_join :: "string list \<Rightarrow> string" where
  "slash_join [] = []"
| "slash_join (c # cs) = (if cs = [] then c else c @ CHR ''/'' # slash_join cs)"

definition filepath_Clean :: "string \<Rightarrow> string" where
  "filepath_Clean p = (let rooted = has_prefix p ''/'';
       s = (if rooted then ''/'' else []) @ slash_join (foldl (clean_step rooted) [] (slash_parts [] p))
     in if s = [] then ''.'' else s)"

definition filepath_Join :: "string \<Rightarrow> string \<Rightarrow> string" where
  "filepath_Join dir name = (if dir = [] then (if name = [] then [] else filepath_Clean name)
     else filepath_Clean (dir @ CHR ''/'' # name))"

definition logName :: "string \<Rightarrow> int \<Rightarrow> string" where
  "logName tag pid = sprintf ''mcp-dap-server.%s%d.log'' [FStr tag, FInt pid]"

definition latestName :: "string \<Rightarrow> string" where
  "latestName tag = sprintf ''mcp-dap-server.%slatest.log'' [FStr tag]"

definition logPath :: "main_env \<Rightarrow> string" where
  "logPath env = filepath_Join (mn_tmp env) (logName (log_tag (mn_namespace env) (mn_service env)) (mn_pid env))"

definition latestPath :: "main_env \<Rightarrow> string" where
  "latestPath env = filepath_Join (mn_tmp env) (latestName (log_tag (mn_namespace env) (mn_service env)))"

definition log_prefix :: "main_env \<Rightarrow> string" where
  "log_prefix env = sprintf ''[pid=%d'' [FInt (mn_pid env)]
     @ (if connect_address env \<noteq> [] then '' addr='' @ connect_address env else []) @ ''] ''"

subsection \<open>Log files\<close>

text \<open>The files a server process touches: logs, as lists of lines without their time stamps, and links.  The log path
  itself is taken not to be a link.\<close>

datatype node = LogFile "string list" | Link string

type_synonym files = "string \<rightharpoonup> node"

text \<open>What the file system answers: an error of \<^verbatim>\<open>os.OpenFile\<close>, of \<^verbatim>\<open>os.Remove\<close>, and one of \<^verbatim>\<open>os.Symlink\<close>
  other than that the name exists.\<close>

record file_errors =
  fe_open :: "err option"
  fe_remove :: "err option"
  fe_symlink :: "err option"

fun append_lines :: "string list \<Rightarrow> node option \<Rightarrow> node option" where
  "append_lines ls (Some (LogFile old)) = Some (LogFile (old @ ls))"
| "append_lines ls x = x"

definition open_log :: "file_errors \<Rightarrow> string \<Rightarrow> files \<Rightarrow> files" where
  "open_log fe path fs = (if fe_open fe = None \<and> fs path = None then fs(path \<mapsto> LogFile []) else fs)"

text \<open>\<^verbatim>\<open>log.Printf\<close>: to the log file, or nowhere when it could not be opened.\<close>

definition log_Printf :: "main_env \<Rightarrow> file_errors \<Rightarrow> string \<Rightarrow> files \<Rightarrow> files" where
  "log_Printf env fe line fs = (if fe_open fe = None
     then fs(logPath env := append_lines [log_prefix env @ line] (fs (logPath env))) else fs)"

definition banner :: "main_env \<Rightarrow> LogLevel \<Rightarrow> string" where
  "banner env level = ''mcp-dap-server starting (version='' @ version @ '' log='' @ logPath env @ '' connect=''
     @ go_quote (connect_address env) @ '' level='' @ level_String level @ '')''"

definition os_Remove :: "file_errors \<Rightarrow> string \<Rightarrow> files \<Rightarrow> files" where
  "os_Remove fe path fs = (if fe_remove fe = None then fs(path := None) else fs)"

definition os_Symlink :: "file_errors \<Rightarrow> string \<Rightarrow> string \<Rightarrow> files \<Rightarrow> err option \<times> files" where
  "os_Symlink fe target path fs = (if fs path \<noteq> None then (Some (ErrNew ''file exists''), fs)
     else case fe_symlink fe of Some e \<Rightarrow> (Some e, fs) | None \<Rightarrow> (None, fs(path \<mapsto> Link target)))"

definition link_latest :: "main_env \<Rightarrow> file_errors \<Rightarrow> files \<Rightarrow> files" where
  "link_latest env fe fs = (case os_Symlink fe (logPath env) (latestPath env) (os_Remove fe (latestPath env) fs) of
      (None, fs2) \<Rightarrow> fs2
    | (Some e, fs2) \<Rightarrow> log_Printf env fe (''warn: could not create latest.log symlink: '' @ err_text e) fs2)"

definition start_logging :: "main_env \<Rightarrow> file_errors \<Rightarrow> LogLevel \<Rightarrow> files \<Rightarrow> files" where
  "start_logging env fe level fs = (if mn_version env then fs
     else link_latest env fe (log_Printf env fe (banner env level) (open_log fe (logPath env) fs)))"

text \<open>The goroutine that serves SIGUSR1: the profile, if there is one, goes to the file as it is.\<close>

definition dump_goroutines :: "main_env \<Rightarrow> file_errors \<Rightarrow> string list option \<Rightarrow> files \<Rightarrow> files" where
  "dump_goroutines env fe profile fs = log_Printf env fe ''=== SIGUSR1 dump complete ==='' (
     (case profile of
        Some ls \<Rightarrow> (\<lambda>fs. if fe_open fe = None
          then fs(logPath env := append_lines ls (fs (logPath env))) else fs)
      | None \<Rightarrow> (\<lambda>fs. fs))
     (log_Printf env fe ''=== SIGUSR1 goroutine dump ==='' fs))"

text \<open>\<^verbatim>\<open>log.Fatalf\<close>, up to the exit.\<close>

definition log_Fatalf :: "main_env \<Rightarrow> file_errors \<Rightarrow> err \<Rightarrow> files \<Rightarrow> files" where
  "log_Fatalf env fe e = log_Printf env fe (''server error: '' @ err_text e)"

definition server_identity :: "string \<times> string" where
  "server_identity = (''mcp-dap-server'', version)"

subsection \<open>The life of the server\<close>

datatype exit_status = Exited int string | Serving | Crashed

definition started_world :: "main_env \<Rightarrow> world \<Rightarrow> world" where
  "started_world env w = (let w1 = registerTools (connect_address env) w
     in w1\<lparr>w_server := w_server w1 @ map (\<lambda>p. AddPrompt (pt_name p)) registerPrompts\<rparr>)"

text \<open>\<^verbatim>\<open>defer ds.cleanup()\<close> runs when \<open>main\<close> returns or panics; \<^verbatim>\<open>log.Fatalf\<close> exits the process instead.\<close>

definition main :: "main_env \<Rightarrow> unit prog \<Rightarrow> world \<Rightarrow> exit_status \<times> world" where
  "main env run w =
     (if mn_version env then (Exited 0 (version @ nl), w)
      else case run (started_world env w) of
          (Ok _, w2) \<Rightarrow> (case cleanup w2 of
              (Ok _, w3) \<Rightarrow> (Exited 0 [], w3)
            | (Pending, w3) \<Rightarrow> (Serving, w3)
            | (_, w3) \<Rightarrow> (Crashed, w3))
        | (Er e, w2) \<Rightarrow> (Exited 1 [], w2)
        | (Pending, w2) \<Rightarrow> (Serving, w2)
        | (Panic, w2) \<Rightarrow> (Crashed, snd (cleanup w2)))"

subsection \<open>Paths\<close>

lemma slash_parts_append:
  "slash_parts acc (p @ CHR ''/'' # q) = slash_parts acc p @ slash_parts [] q"
  by (induction p arbitrary: acc) simp_all

lemma slash_parts_plain: "CHR ''/'' \<notin> set s \<Longrightarrow> slash_parts acc s = [rev acc @ s]"
  by (induction s arbitrary: acc) auto

definition file_name :: "string \<Rightarrow> bool" where
  "file_name s \<longleftrightarrow> CHR ''/'' \<notin> set s \<and> s \<notin> {[], ''.'', ''..''}"

lemma slash_join_snoc: "slash_join (cs @ [c]) = (if cs = [] then c else slash_join cs @ CHR ''/'' # c)"
  by (induction cs) auto

lemma Join_file:
  assumes "file_name n"
  shows "\<exists>d. filepath_Join dir n = d @ n \<and> (d = [] \<or> last d = CHR ''/'')"
proof (cases "dir = []")
  case True
  then show ?thesis using assms
    by (cases n) (auto simp: filepath_Join_def filepath_Clean_def Let_def slash_parts_plain file_name_def clean_step_def has_prefix_def)
next
  case False
  let ?r = "has_prefix (dir @ CHR ''/'' # n) ''/''"
  let ?cs = "foldl (clean_step ?r) [] (slash_parts [] dir)"
  have "foldl (clean_step ?r) [] (slash_parts [] (dir @ CHR ''/'' # n)) = ?cs @ [n]"
    using assms by (simp add: slash_parts_append slash_parts_plain file_name_def) (simp add: clean_step_def)
  then have "filepath_Join dir n = (if ?r then ''/'' else []) @ slash_join (?cs @ [n])"
    using assms False by (auto simp: filepath_Join_def filepath_Clean_def Let_def slash_join_snoc file_name_def)
  then show ?thesis by (auto simp: slash_join_snoc)
qed

lemma Join_inject:
  assumes "file_name m" "file_name n" "filepath_Join dir m = filepath_Join dir n"
  shows "m = n"
proof -
  obtain d e where "d @ m = e @ n" "d = [] \<or> last d = CHR ''/''" "e = [] \<or> last e = CHR ''/''"
    using Join_file [OF assms(1), of dir] Join_file [OF assms(2), of dir] assms(3) by metis
  moreover have "CHR ''/'' \<notin> set m" "CHR ''/'' \<notin> set n" using assms(1,2) by (simp_all add: file_name_def)
  ultimately show ?thesis
    by (auto simp: append_eq_append_conv2)
       (metis append_Nil append_Nil2 in_set_conv_decomp last_append last_in_set Un_iff set_append)+
qed

end
