(* ===== verification/ServerProperties.thy ===== *)
theory ServerProperties
  imports Server WaitProperties
begin

text \<open>
  Properties of \<^verbatim>\<open>main.go\<close>: which files a process writes, how the target is chosen, and what is left when the
  process ends.
\<close>

subsection \<open>Log files\<close>

lemma logName_eq: "logName tag pid = ''mcp-dap-server.'' @ tag @ itoa pid @ ''.log''"
  by (simp add: logName_def sprintf.simps(2) extra_text_def)

lemma latestName_eq: "latestName tag = ''mcp-dap-server.'' @ tag @ ''latest.log''"
  by (simp add: latestName_def sprintf.simps(2) extra_text_def)

definition digit :: "char \<Rightarrow> bool" where
  "digit c \<longleftrightarrow> digit_val c \<noteq> None"

lemma itoa_digits: "0 \<le> n \<Longrightarrow> c \<in> set (itoa n) \<Longrightarrow> digit c"
  using nat_digits_not_sign [of c "nat n"] by (auto simp: itoa_def digit_def)

lemma itoa_nil [simp]: "itoa n \<noteq> []"
  by (simp add: itoa_def)

lemma itoa_inject: "in_int64 m \<Longrightarrow> in_int64 n \<Longrightarrow> itoa m = itoa n \<Longrightarrow> m = n"
  by (metis atoi_itoa sum.inject(2))

lemma not_digit: "\<not> digit (CHR ''.'')" "\<not> digit (CHR ''t'')" "\<not> digit (CHR ''/'')"
  by (simp_all add: digit_def digit_val_def)

definition last_digits :: "string \<Rightarrow> string" where
  "last_digits s = takeWhile digit (rev s)"

lemma last_digits_itoa:
  assumes "0 \<le> n" "s = [] \<or> \<not> digit (last s)"
  shows "last_digits (s @ itoa n) = rev (itoa n)"
proof -
  have "last_digits (s @ itoa n) = rev (itoa n) @ takeWhile digit (rev s)"
    unfolding last_digits_def rev_append by (rule takeWhile_append2) (use itoa_digits [OF assms(1)] in auto)
  also have "takeWhile digit (rev s) = []" using assms(2) by (cases s rule: rev_cases) auto
  finally show ?thesis by simp
qed

lemma tag_end: "log_tag ns svc = [] \<or> last (log_tag ns svc) = CHR ''.''"
  by (simp add: log_tag_def)

lemma name_end: "\<not> digit (last (''mcp-dap-server.'' @ log_tag ns svc))"
  using tag_end [of ns svc] not_digit by (auto simp: last_append)

lemma logName_inject:
  assumes "0 \<le> m" "0 \<le> n" "in_int64 m" "in_int64 n" "logName (log_tag ns svc) m = logName (log_tag ns' svc') n"
  shows "m = n \<and> log_tag ns svc = log_tag ns' svc'"
proof -
  let ?s = "\<lambda>ns svc. ''mcp-dap-server.'' @ log_tag ns svc"
  have e: "?s ns svc @ itoa m = ?s ns' svc' @ itoa n" using assms(5) by (simp add: logName_eq)
  have "last_digits (?s ns svc @ itoa m) = rev (itoa m)" "last_digits (?s ns' svc' @ itoa n) = rev (itoa n)"
    by (rule last_digits_itoa [OF assms(1)] last_digits_itoa [OF assms(2)], use name_end in blast)+
  with e have "itoa m = itoa n" by simp
  with itoa_inject [OF assms(3,4)] e show ?thesis by simp
qed

lemma logName_latestName:
  assumes "0 \<le> m" shows "logName (log_tag ns svc) m \<noteq> latestName (log_tag ns' svc')"
proof
  let ?p = "''mcp-dap-server.''"
  assume "logName (log_tag ns svc) m = latestName (log_tag ns' svc')"
  then have "(?p @ log_tag ns svc) @ itoa m = (?p @ log_tag ns' svc') @ ''latest''"
    by (simp add: logName_eq latestName_eq)
  from arg_cong [OF this, of last] have "last (itoa m) = CHR ''t''" by simp
  then have "CHR ''t'' \<in> set (itoa m)" using last_in_set [OF itoa_nil, of m] by simp
  then show False using itoa_digits [OF assms] not_digit(2) by blast
qed

lemma file_names: "CHR ''/'' \<notin> set (log_tag ns svc) \<Longrightarrow> 0 \<le> m \<Longrightarrow> file_name (logName (log_tag ns svc) m)"
  "CHR ''/'' \<notin> set (log_tag ns svc) \<Longrightarrow> file_name (latestName (log_tag ns svc))"
  using itoa_digits [of m "CHR ''/''"] not_digit(3) by (auto simp: file_name_def logName_eq latestName_eq)

text \<open>Two server processes never share a log file, whatever target they are tagged with, and no log file is the
  link to the latest one.\<close>

lemma log_paths_separate:
  assumes "mn_tmp env' = mn_tmp env" and "0 < mn_pid env" and "0 < mn_pid env'" and "in_int64 (mn_pid env)"
    and "in_int64 (mn_pid env')" and "CHR ''/'' \<notin> set (mn_namespace env @ mn_service env @ mn_namespace env' @ mn_service env')"
  shows "logPath env = logPath env' \<Longrightarrow> mn_pid env = mn_pid env'" "logPath env \<noteq> latestPath env'"
proof -
  have t: "CHR ''/'' \<notin> set (log_tag (mn_namespace env) (mn_service env))"
      "CHR ''/'' \<notin> set (log_tag (mn_namespace env') (mn_service env'))"
    using assms(6) by (auto simp: log_tag_def)
  have p: "0 \<le> mn_pid env" "0 \<le> mn_pid env'" using assms(2,3) by simp_all
  show "mn_pid env = mn_pid env'" if "logPath env = logPath env'"
    using that Join_inject [OF file_names(1) [OF t(1) p(1)] file_names(1) [OF t(2) p(2)], of "mn_tmp env"]
      logName_inject [OF p assms(4,5)] by (simp add: logPath_def assms(1))
  show "logPath env \<noteq> latestPath env'"
    using Join_inject [OF file_names(1) [OF t(1) p(1)] file_names(2) [OF t(2)], of "mn_tmp env"]
      logName_latestName [OF p(1)] by (auto simp: logPath_def latestPath_def assms(1))
qed

text \<open>What starting a server does to the files: nothing outside its two paths; its banner ends its own log, whatever
  was there, unless the link fails, which adds a warning; and the link to the latest log is its own.\<close>

lemma start_logging_elsewhere:
  "q \<noteq> logPath env \<Longrightarrow> q \<noteq> latestPath env \<Longrightarrow> start_logging env fe level fs q = fs q"
  by (simp add: start_logging_def link_latest_def log_Printf_def open_log_def os_Remove_def os_Symlink_def
      split: option.split)

definition log_lines :: "node option \<Rightarrow> string list" where
  "log_lines n = (case n of Some (LogFile ls) \<Rightarrow> ls | _ \<Rightarrow> [])"

lemma start_logging_own:
  assumes "\<not> mn_version env" "fe_open fe = None" "fe_remove fe = None" "fe_symlink fe = None"
    "logPath env \<noteq> latestPath env" "\<forall>t. fs (logPath env) \<noteq> Some (Link t)"
  shows "start_logging env fe level fs (logPath env)
      = Some (LogFile (log_lines (fs (logPath env)) @ [log_prefix env @ banner env level]))"
    "start_logging env fe level fs (latestPath env) = Some (Link (logPath env))"
proof -
  consider "fs (logPath env) = None" | ls where "fs (logPath env) = Some (LogFile ls)"
    using assms(6) by (cases "fs (logPath env)") (auto, metis node.exhaust)
  then show "start_logging env fe level fs (logPath env)
      = Some (LogFile (log_lines (fs (logPath env)) @ [log_prefix env @ banner env level]))"
    using assms(1-5) by cases (simp_all add: start_logging_def link_latest_def log_Printf_def open_log_def os_Remove_def
      os_Symlink_def log_lines_def)
  show "start_logging env fe level fs (latestPath env) = Some (Link (logPath env))"
    using assms(1-5) by (simp add: start_logging_def link_latest_def log_Printf_def open_log_def os_Remove_def os_Symlink_def)
qed

text \<open>Starting a server adds its banner to its own log and links to it, and leaves the log of every other server as
  it is.\<close>

theorem log_files_are_separate:
  assumes "mn_tmp env' = mn_tmp env" and "0 < mn_pid env" and "0 < mn_pid env'" and "in_int64 (mn_pid env)"
    and "in_int64 (mn_pid env')" and "CHR ''/'' \<notin> set (mn_namespace env @ mn_service env @ mn_namespace env' @ mn_service env')"
    and "mn_pid env \<noteq> mn_pid env'" and "\<not> mn_version env" and "\<forall>t. fs (logPath env) \<noteq> Some (Link t)"
  shows "start_logging env \<lparr>fe_open = None, fe_remove = None, fe_symlink = None\<rparr> level fs (logPath env)
        = Some (LogFile (log_lines (fs (logPath env)) @ [log_prefix env @ banner env level]))
      \<and> start_logging env \<lparr>fe_open = None, fe_remove = None, fe_symlink = None\<rparr> level fs (latestPath env)
        = Some (Link (logPath env))
      \<and> start_logging env fe level fs (logPath env') = fs (logPath env')"
proof -
  have l: "logPath env \<noteq> latestPath env" using log_paths_separate(2) [of env env] assms by simp
  have s: "set (mn_namespace env' @ mn_service env' @ mn_namespace env @ mn_service env)
      = set (mn_namespace env @ mn_service env @ mn_namespace env' @ mn_service env')" by auto
  have "logPath env' \<noteq> logPath env" "logPath env' \<noteq> latestPath env"
    using log_paths_separate [of env env'] assms s by auto
  with l show ?thesis using start_logging_own [of env _ fs level] start_logging_elsewhere [of _ env fe level fs] assms(8,9)
    by simp
qed

definition demo_main :: main_env where
  "demo_main = \<lparr>mn_connect = [], mn_version = False, mn_addr = ''localhost:24010'', mn_namespace = ''shop'',
     mn_service = ''api'', mn_tmp = ''/tmp/'', mn_pid = 41\<rparr>"

lemma demo_paths:
  "logPath demo_main = ''/tmp/mcp-dap-server.shop-api.41.log''"
  "logPath (demo_main\<lparr>mn_pid := 42\<rparr>) = ''/tmp/mcp-dap-server.shop-api.42.log''"
  by code_simp+

theorem log_files_are_separate_witness:
  "log_lines (start_logging demo_main \<lparr>fe_open = None, fe_remove = None, fe_symlink = None\<rparr> LogInfo
        [''/tmp/mcp-dap-server.shop-api.42.log'' \<mapsto> LogFile [''other'']] (logPath demo_main))
      = [log_prefix demo_main @ banner demo_main LogInfo]
    \<and> start_logging demo_main \<lparr>fe_open = None, fe_remove = None, fe_symlink = None\<rparr> LogInfo
        [''/tmp/mcp-dap-server.shop-api.42.log'' \<mapsto> LogFile [''other'']] ''/tmp/mcp-dap-server.shop-api.42.log''
      = Some (LogFile [''other''])"
  using log_files_are_separate [of "demo_main\<lparr>mn_pid := 42\<rparr>" demo_main
      "[''/tmp/mcp-dap-server.shop-api.42.log'' \<mapsto> LogFile [''other'']]" LogInfo
      "\<lparr>fe_open = None, fe_remove = None, fe_symlink = None\<rparr>"]
  by (simp add: demo_paths log_lines_def) (simp add: demo_main_def in_int64_def int64_min_def int64_max_def)

text \<open>The links to the latest log of two different targets can be the same file: the tag does not say where the
  namespace ends and the service begins.\<close>

theorem latest_links_collide:
  assumes "ns \<noteq> []" and "x \<noteq> []" and "svc \<noteq> []"
  shows "latestPath (env\<lparr>mn_namespace := ns @ ''-'' @ x, mn_service := svc\<rparr>)
    = latestPath (env\<lparr>mn_namespace := ns, mn_service := x @ ''-'' @ svc\<rparr>)"
  using assms by (simp add: latestPath_def log_tag_def)

theorem latest_links_collide_witness:
  "latestPath (demo_main\<lparr>mn_namespace := ''shop-eu'', mn_service := ''api''\<rparr>)
    = latestPath (demo_main\<lparr>mn_namespace := ''shop'', mn_service := ''eu-api''\<rparr>)"
  using latest_links_collide [of "''shop''" "''eu''" "''api''" demo_main] by simp

subsection \<open>The end of the process\<close>

text \<open>The processes that are not the session's; what other handlers do meanwhile does not change their number.  A
  clean-up that ends leaves no others.\<close>

definition spare :: "world \<Rightarrow> nat" where
  "spare w = w_procs w - (if ds_cmd (w_ds w) then 1 else 0)"

lemma spare_stable: "stable (\<lambda>w. spare w = n)"
  unfolding stable_def
proof (intro conjI allI impI)
  fix a w assume "spare w = n"
  moreover have "spare (env_do a w) = spare w"
    by (induction a w rule: env_do.induct)
       (auto simp: spare_def upd_cl_def upd_ds_def reinit_session_def reset_session_def split: option.split hook_end.split)
  ultimately show "spare (env_do a w) = n" by simp
qed (simp_all add: spare_def)

lemma closeP_spare: "hoare (\<lambda>w. spare w = n) (closeP p) (\<lambda>_ w. spare w = n) E (\<lambda>w. spare w = n)"
proof -
  have close: "hoare (\<lambda>w. spare w = n) (modifyP (upd_cl p Close)) (\<lambda>_ w. spare w = n) E (\<lambda>w. spare w = n)"
    by (rule hoare_modify) (simp add: spare_def)
  have wait: "hoare (\<lambda>w. spare w = n) (blockP (\<lambda>pick w. if c_pump (cl w p) = PExit then Some (Ok (), w) else None))
      (\<lambda>_ w. spare w = n) E (\<lambda>w. spare w = n)"
    by (rule hoare_block [OF spare_stable]) (auto split: if_splits)
  show ?thesis
    unfolding closeP_def
    by (rule hoare_then [OF close], rule hoare_bind [where A = "\<lambda>_ w. spare w = n"])
       (auto intro: hoare_gets hoare_if hoare_return wait)
qed

lemma cleanup_kills:
  "hoare (\<lambda>w. spare w = n) cleanup (\<lambda>_ w. ds_client (w_ds w) = None \<and> \<not> ds_cmd (w_ds w) \<and> w_procs w = n)
     (\<lambda>_ _. False) (\<lambda>w. spare w = n)"
proof -
  let ?Q = "\<lambda>_ w. ds_client (w_ds w) = None \<and> \<not> ds_cmd (w_ds w) \<and> w_procs w = n"
  have e: "hoare (\<lambda>w. spare w = n \<and> ds_client (w_ds w) = None) (thenP killP (thenP (setP reset_session) unregisterSessionTools))
     ?Q (\<lambda>_ _. False) (\<lambda>w. spare w = n)"
    by (auto simp: hoare_def spare_def thenP_def bindP_def killP_def modifyP_def setP_def upd_ds_def reset_session_def
        unregisterSessionTools_def dsP_def getsP_def serverP_def)
  have c: "hoare (\<lambda>w. spare w = n) (thenP (closeP p) (setP (\<lambda>ds. ds\<lparr>ds_client := None\<rparr>)))
     (\<lambda>_ w. spare w = n \<and> ds_client (w_ds w) = None) (\<lambda>_ _. False) (\<lambda>w. spare w = n)" for p
    by (rule hoare_then [OF closeP_spare]) (auto simp: hoare_def setP_def modifyP_def upd_ds_def spare_def)
  show ?thesis
    unfolding cleanup_def
  proof (rule hoare_bind [where A = "\<lambda>x w. spare w = n \<and> x = ds_client (w_ds w)"])
    show "hoare (\<lambda>w. spare w = n) (dsP ds_client) (\<lambda>x w. spare w = n \<and> x = ds_client (w_ds w)) (\<lambda>_ _. False) (\<lambda>w. spare w = n)"
      unfolding dsP_def by (rule hoare_gets) simp
    show "hoare (\<lambda>w. spare w = n \<and> x = ds_client (w_ds w))
        (thenP (case x of None \<Rightarrow> returnP () | Some p \<Rightarrow> thenP (closeP p) (setP (\<lambda>ds. ds\<lparr>ds_client := None\<rparr>)))
          (thenP killP (thenP (setP reset_session) unregisterSessionTools))) ?Q (\<lambda>_ _. False) (\<lambda>w. spare w = n)"
      for x
      by (rule hoare_then [OF _ e], cases x) (auto intro: hoare_return hoare_pre [OF _ c])
  qed
qed

text \<open>When the server ends without an error, its last act has dropped the client and killed the adapter process, if
  there was one.  When it ends with an error, the process exits at once: the deferred clean-up does not run, and
  the adapter is left as it is.\<close>

theorem main_ends_session_unless_fatal:
  assumes "\<not> mn_version env" and "run (started_world env w) = (r, w2)"
  shows "case r of
      Ok _ \<Rightarrow> (case main env run w of
          (Exited code out, w3) \<Rightarrow> code = 0 \<and> ds_client (w_ds w3) = None \<and> \<not> ds_cmd (w_ds w3)
            \<and> w_procs w3 = w_procs w2 - (if ds_cmd (w_ds w2) then 1 else 0)
        | (Serving, w3) \<Rightarrow> spare w3 = spare w2
        | (Crashed, w3) \<Rightarrow> False)
    | Er e \<Rightarrow> main env run w = (Exited 1 [], w2)
    | Pending \<Rightarrow> main env run w = (Serving, w2)
    | Panic \<Rightarrow> fst (main env run w) = Crashed"
proof (cases r)
  case (Ok a)
  obtain x w3 where c: "cleanup w2 = (x, w3)" by force
  note D = hoare_D [OF cleanup_kills refl, of w2]
  show ?thesis
    using Ok assms c D(1) [of _ w3] D(2) [of _ w3] D(3) [of w3] D(4) [of w3]
    by (cases x) (auto simp: main_def spare_def)
qed (use assms in \<open>simp_all add: main_def\<close>)

text \<open>A server that has started an adapter and whose transport fails, or ends.\<close>

definition demo_run :: "err option \<Rightarrow> unit prog" where
  "demo_run e = thenP (modifyP (\<lambda>w. upd_ds (\<lambda>ds. ds\<lparr>ds_cmd := True\<rparr>) (w\<lparr>w_procs := w_procs w + 1\<rparr>)))
     (case e of None \<Rightarrow> returnP () | Some e \<Rightarrow> raiseP e)"

theorem main_ends_session_unless_fatal_witness:
  "w_procs (snd (main demo_main (demo_run (Some (ErrNew ''EOF''))) (demo_world demo_session []))) = 1
    \<and> w_procs (snd (main demo_main (demo_run None) (demo_world demo_session []))) = 0"
proof -
  let ?w = "demo_world demo_session []"
  have v: "\<not> mn_version demo_main" by (simp add: demo_main_def)
  have r: "demo_run e (started_world demo_main ?w) = (case e of None \<Rightarrow> Ok () | Some x \<Rightarrow> Er x,
      upd_ds (\<lambda>ds. ds\<lparr>ds_cmd := True\<rparr>) ((started_world demo_main ?w)\<lparr>w_procs := 1\<rparr>))" for e
    by (simp add: demo_run_def thenP_def bindP_def modifyP_def returnP_def raiseP_def started_world_def registerTools_def
        demo_world_def Let_def split: option.split)
  have s: "case fst (main demo_main (demo_run None) ?w) of Exited c out \<Rightarrow> True | _ \<Rightarrow> False" by code_simp
  show ?thesis
    using main_ends_session_unless_fatal [where run = "demo_run (Some (ErrNew ''EOF''))", OF v r]
      main_ends_session_unless_fatal [where run = "demo_run None", OF v r] s
    by (auto simp: upd_ds_def split: exit_status.splits prod.splits)
qed

text \<open>The flag has precedence over the environment, one of them selects the remote back end, and the server starts
  with the one tool and the four prompts.\<close>

theorem connect_address_precedence:
  "connect_address env = (if mn_connect env \<noteq> [] then mn_connect env else mn_addr env)
   \<and> ds_backend (w_ds (started_world env w))
      = (if mn_connect env = [] \<and> mn_addr env = [] then None else Some (Connect (connect_address env) (5 * second)))
   \<and> w_server (started_world env w) = w_server w @ [AddTool ''debug'' debugToolDescription, AddPrompt ''debug-source'', AddPrompt ''debug-attach'',
        AddPrompt ''debug-core-dump'', AddPrompt ''debug-binary'']"
  by (simp add: connect_address_def started_world_def registerTools_def initial_session_def registerPrompts_def Let_def)

end
