(* ===== verification/ServerLife.thy ===== *)
theory ServerLife
  imports OrderlyHandlers ServerProperties
begin

text \<open>
  The components together: a server process that answers one tool call after the other while its goroutines run.
\<close>

subsection \<open>All calls\<close>

text \<open>A call of a tool with its decoded parameters; the tool of its name is registered with this handler.\<close>

datatype tool_call =
    CallDebug debugParams
  | CallStop bool
  | CallBreakpoint string int string
  | CallClearBreakpoints string bool
  | CallContinue int "breakpointSpec option"
  | CallWaitForStop int bool int
  | CallStep string int int
  | CallPause int
  | CallContext int int int
  | CallEvaluate string "int option" string
  | CallInfo string
  | CallReconnect bool int
  | CallRestart "string list"
  | CallSetVariable int string string
  | CallDisassemble string int int

fun tool_name :: "tool_call \<Rightarrow> string" where
  "tool_name (CallDebug dp) = ''debug''"
| "tool_name (CallStop d) = ''stop''"
| "tool_name (CallBreakpoint f l fn) = ''breakpoint''"
| "tool_name (CallClearBreakpoints f a) = ''clear-breakpoints''"
| "tool_name (CallContinue t to) = ''continue''"
| "tool_name (CallWaitForStop n b t) = ''wait-for-stop''"
| "tool_name (CallStep m t n) = ''step''"
| "tool_name (CallPause t) = ''pause''"
| "tool_name (CallContext t f n) = ''context''"
| "tool_name (CallEvaluate e f c) = ''evaluate''"
| "tool_name (CallInfo ty) = ''info''"
| "tool_name (CallReconnect f n) = ''reconnect''"
| "tool_name (CallRestart args) = ''restart''"
| "tool_name (CallSetVariable r n v) = ''set-variable''"
| "tool_name (CallDisassemble a off n) = ''disassemble''"

fun handler :: "tool_call \<Rightarrow> string option prog" where
  "handler (CallDebug dp) = debug dp"
| "handler (CallStop d) = stop d"
| "handler (CallBreakpoint f l fn) = breakpoint f l fn"
| "handler (CallClearBreakpoints f a) = clearBreakpoints f a"
| "handler (CallContinue t to) = continueExecution t to"
| "handler (CallWaitForStop n b t) = waitForStop n b t"
| "handler (CallStep m t n) = step m t n"
| "handler (CallPause t) = pauseExecution t"
| "handler (CallContext t f n) = context_tool t f n"
| "handler (CallEvaluate e f c) = evaluateExpression e f c"
| "handler (CallInfo ty) = info ty"
| "handler (CallReconnect f n) = reconnect f n"
| "handler (CallRestart args) = restartDebugger args"
| "handler (CallSetVariable r n v) = setVariable r n v"
| "handler (CallDisassemble a off n) = disassembleCode a off n"

lemma orderly_handler: "safe orderly (handler c)"
  by (cases c) (simp_all add: orderly_debug orderly_stop orderly_breakpoint orderly_clearBreakpoints orderly_requests
      orderly_waitForStop orderly_step orderly_context orderly_reconnect)

subsection \<open>The life of a server\<close>

text \<open>The tools of the server are called one after the other; between two calls, and while a call waits, the other
  goroutines run.  A run of the reinit hook between two calls is that of \<open>reinitialize\<close>.  Every call
  meets a new request, and whatever the outside world then is.\<close>

definition completed :: "'a res \<Rightarrow> bool" where
  "completed r \<longleftrightarrow> (case r of Ok a \<Rightarrow> True | Er e \<Rightarrow> True | _ \<Rightarrow> False)"

inductive server_step :: "world \<Rightarrow> world \<Rightarrow> bool" where
  srv_call: "tool_name c \<in> tools w \<Longrightarrow> handler c w = (r, w') \<Longrightarrow> completed r \<Longrightarrow> server_step w w'"
| srv_env: "server_step w (env_do a w)"
| srv_time: "server_step w (w\<lparr>w_now := w_now w + int t\<rparr>)"
| srv_request: "server_step w (w\<lparr>w_cancelled := False, w_future := rs, w_writes := ws\<rparr>)"
| srv_outside: "server_step w (w\<lparr>w_exec := ex, w_dial := d, w_gdb := g, w_stdio := n, w_rank := rk\<rparr>)"
| srv_reinit: "c_recon (cl w p) = RHook \<Longrightarrow> c_hook (cl w p) \<Longrightarrow> reinitialize (CtxClient p) w = (Ok (), w') \<Longrightarrow>
    server_step w (upd_cl p (recon_step reconnectBaseBackoff reconnectMaxBackoff HookOk False) w')"
| srv_reinit_failed: "c_recon (cl w p) = RHook \<Longrightarrow> c_hook (cl w p) \<Longrightarrow> reinitialize (CtxClient p) w = (Er e, w') \<Longrightarrow>
    server_step w (upd_cl p (recon_step reconnectBaseBackoff reconnectMaxBackoff (HookErr e) False) w')"

lemma server_step_orderly: "server_step w w' \<Longrightarrow> orderly w \<Longrightarrow> orderly w'"
proof (induction rule: server_step.induct)
  case (srv_call c w r w')
  then show ?case using orderly_handler [of c] by (auto simp: leads_def)
next
  case (srv_reinit w p w')
  then have "orderly w'" using orderly_reinitialize [of "CtxClient p"] by (auto simp: leads_def)
  then show ?case by (rule orderly_steps [OF _ steps_recon])
next
  case (srv_reinit_failed w p e w')
  then have "orderly w'" using orderly_reinitialize [of "CtxClient p"] by (auto simp: leads_def)
  then show ?case by (rule orderly_steps [OF _ steps_recon])
qed (auto intro: orderly_env orderly_cong)

definition fresh_process :: "world \<Rightarrow> bool" where
  "fresh_process w \<longleftrightarrow> w_clients w = [] \<and> w_server w = [] \<and> w_procs w = 0"

lemma started_orderly: "fresh_process w \<Longrightarrow> orderly (started_world env w)"
  by (auto simp: fresh_process_def orderly_def world_ok_def started_world_def registerTools_def Let_def initial_session_def
      bp_ok_def tools_def offer_ok_def registerPrompts_def always_tools_def)

lemma life_orderly: "server_step\<^sup>*\<^sup>* w w' \<Longrightarrow> orderly w \<Longrightarrow> orderly w'"
  by (induction rule: rtranclp_induct) (auto intro: server_step_orderly)

text \<open>C3. At every moment between two calls in the life of a server, whatever tools were called in whatever order and
  however they ended, however the adapters and the network behaved, and however often sessions were stopped,
  replaced or re-initialised: one adapter process runs exactly while the session holds a command, so none is
  leaked; every client object but the session's is closed; the MCP client is offered either \<open>debug\<close> or every tool
  of a session, never both and never neither; the tools of a session are only offered while there is a client; and
  the recorded breakpoints have no file, line or function twice.\<close>

theorem server_stays_in_order:
  assumes "fresh_process w0" and "server_step\<^sup>*\<^sup>* (started_world env w0) w"
  shows "w_procs w = (if ds_cmd (w_ds w) then 1 else 0)
    \<and> (\<forall>p < length (w_clients w). ds_client (w_ds w) \<noteq> Some p \<longrightarrow> c_ctx_done (cl w p))
    \<and> (''debug'' \<in> tools w \<longleftrightarrow> \<not> set always_tools \<subseteq> tools w) \<and> (''debug'' \<in> tools w \<longrightarrow> tools w \<inter> set always_tools = {})
    \<and> (set always_tools \<subseteq> tools w \<longrightarrow> ds_client (w_ds w) \<noteq> None)
    \<and> distinct (map fst (ds_breakpoints (w_ds w))) \<and> (\<forall>x \<in> set (ds_breakpoints (w_ds w)). distinct (snd x))
    \<and> distinct (ds_functionBreakpoints (w_ds w))"
proof -
  have o: "orderly w" by (rule life_orderly [OF assms(2) started_orderly [OF assms(1)]])
  have stop: "''stop'' \<in> set always_tools" by (simp add: always_tools_def)
  show ?thesis
  proof (cases "''debug'' \<in> tools w")
    case True
    then have d: "tools w \<inter> set always_tools = {}" using o by (simp add: orderly_def offer_ok_def)
    then have "\<not> set always_tools \<subseteq> tools w" using stop by blast
    then show ?thesis using o True d by (auto simp: orderly_def bp_ok_def)
  next
    case False
    then show ?thesis using o by (auto simp: orderly_def bp_ok_def offer_ok_def)
  qed
qed

definition demo_life :: world where
  "demo_life = (demo_world (initial_session []) [quiet, quiet, accepts 0 1 (InitializeR no_capabilities), quiet, quiet,
     accepts 0 2 (OtherR ''*dap.AttachResponse''),
     quiet, quiet, quiet, quiet, acts_round (arrives 0 (EventMessage InitializedEvent) @ bridges 0 0), quiet, quiet,
     quiet, quiet, accepts 0 3 verified, quiet, quiet, accepts 0 4 (OtherR [])])\<lparr>w_clients := []\<rparr>"

text \<open>A server on a remote target, and its first call of \<open>debug\<close>.\<close>

lemma demo_life_debug:
  "server_step (started_world demo_main demo_life) (snd (debug demo_params (started_world demo_main demo_life)))"
  "''debug'' \<notin> tools (snd (debug demo_params (started_world demo_main demo_life)))" "fresh_process demo_life"
proof -
  let ?w = "started_world demo_main demo_life"
  have "completed (fst (debug demo_params ?w)) \<and> ''debug'' \<in> tools ?w \<and> ''debug'' \<notin> tools (snd (debug demo_params ?w))" by code_simp
  then have run: "completed (fst (debug demo_params ?w))" "''debug'' \<in> tools ?w" "''debug'' \<notin> tools (snd (debug demo_params ?w))" by blast+
  show "server_step ?w (snd (debug demo_params ?w))"
    by (rule srv_call [where c = "CallDebug demo_params" and r = "fst (debug demo_params ?w)"]) (simp_all add: run)
  show "''debug'' \<notin> tools (snd (debug demo_params ?w))" by (rule run(3))
  show "fresh_process demo_life" by (simp add: fresh_process_def demo_life_def demo_world_def)
qed

theorem server_stays_in_order_witness:
  "ds_client (w_ds (snd (debug demo_params (started_world demo_main demo_life)))) \<noteq> None"
  using server_stays_in_order [OF demo_life_debug(3) r_into_rtranclp [where r = server_step, OF demo_life_debug(1)]]
    demo_life_debug(2) by blast

subsection \<open>The end of the server\<close>

lemma cleanup_leaves_nothing:
  assumes "orderly w"
  shows "cleanup w = (Ok a, v) \<Longrightarrow> idle v" "cleanup w = (Pending, v) \<Longrightarrow> orderly v"
    "cleanup w \<noteq> (Er e, v)" "cleanup w \<noteq> (Panic, v)"
  using hoare_D [OF cleanup_idles [where E = "\<lambda>_ _. False"] conjI [OF assms refl]] by blast+

lemma orderly_procs: "orderly w \<Longrightarrow> w_procs w = (if ds_cmd (w_ds w) then 1 else 0)"
  by (simp add: orderly_def)

lemma idle_clean: "idle w \<Longrightarrow> w_procs w = 0 \<and> (\<forall>p < length (w_clients w). c_ctx_done (cl w p))"
  by (auto simp: idle_def orderly_def)

text \<open>C38. When the transport of a server that has answered any tool calls ends without an error, the server
  exits with status 0 and leaves nothing behind, no adapter process and no open client, unless the deferred
  clean-up still waits for readLoop.  When it ends with an error the process exits with status 1 at once: the
  deferred clean-up does not run, and the adapter of the session, if it has one, outlives the server.\<close>

theorem server_leaves_nothing_behind:
  assumes "fresh_process w0" and "\<not> mn_version env" and "run (started_world env w0) = (r, w2)"
    and "server_step\<^sup>*\<^sup>* (started_world env w0) w2"
  shows "case r of
      Ok _ \<Rightarrow> (case main env run w0 of
          (Exited code out, w3) \<Rightarrow> code = 0 \<and> w_procs w3 = 0 \<and> (\<forall>p < length (w_clients w3). c_ctx_done (cl w3 p))
        | (Serving, w3) \<Rightarrow> w_procs w3 = (if ds_cmd (w_ds w3) then 1 else 0)
        | (Crashed, w3) \<Rightarrow> False)
    | Er e \<Rightarrow> main env run w0 = (Exited 1 [], w2) \<and> w_procs w2 = (if ds_cmd (w_ds w2) then 1 else 0)
    | Pending \<Rightarrow> main env run w0 = (Serving, w2)
    | Panic \<Rightarrow> fst (main env run w0) = Crashed"
proof -
  have o: "orderly w2" by (rule life_orderly [OF assms(4) started_orderly [OF assms(1)]])
  show ?thesis
  proof (cases r)
    case (Ok a)
    obtain x w3 where c: "cleanup w2 = (x, w3)" by force
    show ?thesis
      using cleanup_leaves_nothing [OF o] idle_clean [of w3] orderly_procs [of w3] c assms(2,3) Ok
      by (cases x) (auto simp: main_def)
  qed (use assms(2,3) orderly_procs [OF o] in \<open>simp_all add: main_def\<close>)
qed

text \<open>A server whose client calls \<open>debug\<close> and then closes the transport; readLoop ends while the clean-up waits.\<close>

definition demo_serve :: "unit res \<Rightarrow> unit prog" where
  "demo_serve r w = (r, (snd (debug demo_params w))\<lparr>w_cancelled := False,
     w_future := [acts_round [APump 0 (InErr (ErrNew ''use of closed network connection'')) False]], w_writes := []\<rparr>)"

lemma demo_serve_steps: "server_step\<^sup>*\<^sup>* (started_world demo_main demo_life) (snd (demo_serve r (started_world demo_main demo_life)))"
  using demo_life_debug(1) by (auto simp: demo_serve_def intro: srv_request rtranclp.rtrancl_into_rtrancl)

lemma demo_serve_exits: "case fst (main demo_main (demo_serve (Ok ())) demo_life) of Exited c out \<Rightarrow> True | _ \<Rightarrow> False"
  by code_simp


theorem server_leaves_nothing_behind_witness:
  "w_procs (snd (main demo_main (demo_serve (Ok ())) demo_life)) = 0
    \<and> fst (main demo_main (demo_serve (Er (ErrNew ''EOF''))) demo_life) = Exited 1 []"
proof -
  have v: "\<not> mn_version demo_main" by (simp add: demo_main_def)
  have r: "demo_serve r (started_world demo_main demo_life) = (r, snd (demo_serve r (started_world demo_main demo_life)))" for r
    by (simp add: demo_serve_def)
  show ?thesis
    using server_leaves_nothing_behind [where run = "demo_serve (Ok ())", OF demo_life_debug(3) v r demo_serve_steps]
      server_leaves_nothing_behind [where run = "demo_serve (Er (ErrNew ''EOF''))", OF demo_life_debug(3) v r demo_serve_steps] demo_serve_exits
    by (auto split: exit_status.splits prod.splits)
qed

end
