(* ===== verification/Spec2Isabelle.thy ===== *)
theory Spec2Isabelle
  imports FlexInt Logger ControlProperties BreakpointRefinement PromptProperties ServerLife
begin

text \<open>
  A model of \<^verbatim>\<open>mcp-dap-server\<close>, a server of the Model Context Protocol (MCP) whose tools drive a debugger over
  the Debug Adapter Protocol (DAP), in the variant that survives dropped connections to a debugger in a
  Kubernetes pod.

  \<^bold>\<open>The program.\<close>  \<^verbatim>\<open>main.go\<close> starts the MCP server and registers one tool, \<open>debug\<close>, and four prompts
  (\<^verbatim>\<open>prompts.go\<close>).  A \<open>debug\<close> call (\<^verbatim>\<open>tools.go\<close>) selects a back end (\<^verbatim>\<open>backend.go\<close>: Delve or GDB as a child
  process; \<^verbatim>\<open>connect_backend.go\<close>: a running server at an address), opens a \<^verbatim>\<open>DAPClient\<close> (\<^verbatim>\<open>dap.go\<close>) on it, performs
  the DAP handshake and exchanges \<open>debug\<close> for the tools of a session.  Every tool is a method of
  \<^verbatim>\<open>debuggerSession\<close> that works under its mutex, sends requests through the client and waits for responses and
  events.  Inside the client, \<open>readLoop\<close> routes what arrives (responses to registered channels, events to a replay
  ring and to subscriptions, each with a bridge goroutine), and \<open>reconnectLoop\<close> redials when the stale flag is set
  and then calls \<open>reinitialize\<close>, which repeats the handshake and the breakpoints on the new connection.

  \<^bold>\<open>The client, as a system of goroutines.\<close>
  \<^item> \<open>Messages\<close>: errors with Go's wrapping and \<open>errors.Is\<close>, the requests with the arguments the code sets, the
    response bodies the code reads, events.
  \<^item> \<open>EventRing\<close>: the circular buffer with its index arithmetic, against the list of the last entries (a locale
    \<open>ring\<close> interpreted on the code's operations).
  \<^item> \<open>DapClient\<close>, \<open>EventBus\<close>: the state of \<^verbatim>\<open>DAPClient\<close> and one definition per atomic section, that is per piece
    of code between two points where the Go scheduler may switch: the response registry, the stale flag,
    \<open>replaceConn\<close>, \<open>Subscribe\<close> with its replay and its bridge.
  \<^item> \<open>ClientSystem\<close>: \<open>pump_step\<close> (\<open>readLoop\<close>), \<open>recon_step\<close> (\<open>reconnectLoop\<close>, \<open>doReconnect\<close>,
    \<open>notifySessionReconnected\<close>) with a program counter each, and \<open>sys_step\<close>, the inductive relation that
    interleaves them with callers and bridges; \<open>reachable\<close> are its reachable states.
  \<^item> \<open>ClientInvariants\<close>, \<open>ClientProperties\<close>: invariants by rule induction on \<open>reachable\<close>, and from them delivery,
    ordering, reconnecting, sequence numbers, and the races the code has.

  \<^bold>\<open>The tools, as programs over a world.\<close>
  \<^item> \<open>World\<close>: a \<open>world\<close> holds the heap of client objects, the session record, the clock and the environment; a
    program (\<open>'a prog\<close>) maps it to a result (value, error, panic, or \<open>Pending\<close>) and a new world.
  \<^item> \<open>ToolTexts\<close>: the names and descriptions of the tools, the calls that register and remove them, and what a client
    of the MCP server is offered after such calls.
  \<^item> \<open>Wire\<close>: the command name and the arguments the code puts into each request, and the trace of requests.
  \<^item> \<open>Requests\<close>: every request method, \<open>AwaitResponse\<close> and the selects over events.
  \<^item> \<open>Backend\<close>: the three back ends and the interface they implement, as a locale interpreted on them.
  \<^item> \<open>Session\<close>, \<open>Tools\<close>, \<open>Debug\<close>: the handlers, in the order of the file; a handler's result is the text of the
    tool result, or \<open>None\<close> for the nil result that Go returns in one case.
  \<^item> \<open>ToolParams\<close>: the parameter structs as the MCP client sees them.
  \<^item> \<open>Format\<close>, \<open>Prompts\<close>: \<open>fmt.Sprintf\<close> for the verbs in use, and the prompt texts, byte for byte.
  \<^item> \<open>FlexInt\<close>, \<open>Logger\<close>, \<open>Server\<close>: the small files; the log files and links of \<^verbatim>\<open>main\<close> over a small file system,
    and the life of the process (\<open>server.Run\<close> is a parameter).
  \<^item> \<open>ServerLife\<close>: \<open>server_step\<close>, one tool call after the other with the goroutines between and inside them.

  \<^bold>\<open>What the lemmas show.\<close>
  \<^item> \<open>ToolLogic\<close>: triples over programs; that every client object of a world stays a reachable state of its
    goroutines; and the frame of a handler that holds the mutex: nobody else changes the session or writes to the
    transport, so what was sent is what the handler sent.
  \<^item> \<open>Plans\<close>, \<open>Keeping\<close>: two calculi on top of it.  A \<^emph>\<open>plan\<close> is the list of commands a program sends when it
    succeeds, of which it sends a prefix otherwise; an \<^emph>\<open>effect\<close> is a plan with the change of the session.  A program
    that \<^emph>\<open>keeps\<close> the session may change only thread, frame and time of the last stop.
  \<^item> \<open>BreakpointProperties\<close>, \<open>BreakpointRefinement\<close>: session and adapter agree on the breakpoints under the tools and
    under \<open>reinitialize\<close>; both implement an abstract set (the locale \<open>breakpoint_store\<close>).
  \<^item> \<open>ToolProperties\<close>, \<open>SessionProperties\<close>, \<open>WaitProperties\<close>, \<open>ControlProperties\<close>: what each tool sends, what starting
    and ending a session leaves behind, that waiting ends, and where a tool does not do what its texts say.
  \<^item> \<open>Orderly\<close>, \<open>OrderlyHandlers\<close>, \<open>ServerLife\<close>: a calculus for what holds of the world whenever a handler gives up the
    processor or returns, its application to every handler, and what follows for the whole life of a server: no process
    and no client is leaked, and \<open>debug\<close> and the tools of a session are never offered together.
  \<^item> \<open>PromptProperties\<close>, \<open>ServerProperties\<close>: the prompts against the tools, log files, and the end of the process.

  \<^bold>\<open>Concurrency, bounds and fuel.\<close>  A world carries the future as a finite list of rounds.  In a round time
  passes and other goroutines act (\<open>env_act\<close>): the goroutines of the clients, the reinit hook and other handlers.  Of
  these the last two act only while the mutex is free, and in one piece: the hook ends, with what it leaves in the
  session (\<open>hook_end\<close>); a concurrent \<open>stop\<close> has the effect of \<open>cleanup\<close>, process and tools included; any other
  handler sends a request.  At every point where Go may switch goroutines a program consumes one
  round; a blocking operation consumes rounds until one of its cases is ready, the case being chosen by the round.
  A theorem about all worlds is thus one about all schedules.  When the rounds are used up a blocked operation is
  \<open>Pending\<close>: still waiting, not failed.  \<open>loopP\<close> gives a loop one more iteration than there are rounds left; every
  iteration that goes on has consumed a round, so the fuel never runs out (\<open>WaitProperties\<close> proves it for the
  loop of \<open>reconnect\<close>).  The ring has 64 slots (\<open>eventBufSize\<close>), as in the code; backoffs and timeouts are nanoseconds, with
  Go's 64-bit wrap-around written out (\<open>wrap64\<close>, \<open>seconds\<close>); the counter of attempts is a \<open>32 word\<close>.

  \<^bold>\<open>Parameters.\<close>  What is not code of this repository is an input: the outcome of dialling (\<open>w_dial\<close>), of starting
  a process and what it prints (\<open>exec_env\<close>), of writes (\<open>w_writes\<close>), what arrives on a connection (the inputs of
  \<open>pump_step\<close>), the iteration order of Go maps (\<open>w_rank\<close>), and \<open>server.Run\<close>.  The adapter of the breakpoint
  theorems (\<open>adapter_step\<close>) is DAP's documented meaning of \<open>setBreakpoints\<close> and \<open>setFunctionBreakpoints\<close>: the lines
  of a file, and all functions, are replaced.

  \<^bold>\<open>Not modelled.\<close>  JSON encoding and the framing of DAP messages, and the JSON schemas of the tools (libraries);
  log lines other than those of \<^verbatim>\<open>main\<close>, \<open>logAt\<close> and \<open>traceRequest\<close>, and the time stamps of all; the counters of
  dropped events and the identifiers of subscriptions, which only the log shows; a log path that is itself a link;
  \<^verbatim>\<open>redialer.go\<close>, an interface declaration that \<open>is_redialer\<close> stands for and an error value nothing returns; the test
  programs, the scripts and the images.  A handler that runs concurrently, which the mutex allows only while
  \<open>wait-for-stop\<close> or \<open>reconnect\<close> waits without it, is represented by its requests or, for \<open>stop\<close>, its final effect:
  that it may also record a stop or a breakpoint, or start another session, is left out.
\<close>

end
